(* ===== verification/Prelude.thy ===== *)
theory Prelude
  imports Main
begin

text \<open>
  Shared vocabulary of the development: the Python exceptions the sources can raise and the
  result type that carries them, Python's list and string operations (indexing and slicing with
  negative positions, \<open>find\<close>, \<open>count\<close>, \<open>replace\<close>, \<open>split\<close>, \<open>strip\<close> and their kin), and the
  generic lemmas about them that the component theories share.

  A Python string is a \<open>string\<close> (a list of \<open>char\<close>), that is, a string of code points below 256;
  the predicates below give each of these code points the class the Python interpreter gives it.
  Pattern and message texts that need a backslash write \<open>`\<close> for it (no text of the sources has a
  back quote) and go through \<open>rx\<close>, since a HOL string literal cannot hold one.
\<close>

named_theorems py_simps \<open>evaluation of the Python list and string operations\<close>
named_theorems py_length \<open>lengths and bounds of the results of Python operations\<close>
named_theorems keeps_inv \<open>an operation keeps the invariant of its component\<close>

section \<open>Exceptions\<close>

datatype py_exn =
  IndexError | KeyError | ValueError string | AttributeError | TypeError | NameError string
| AssertionError | SystemExit int

type_synonym 'a result = "py_exn + 'a"

definition bind_result :: "'a result \<Rightarrow> ('a \<Rightarrow> 'b result) \<Rightarrow> 'b result" where
  "bind_result r k = (case r of Inl e \<Rightarrow> Inl e | Inr x \<Rightarrow> k x)"

lemma bind_result_simps [simp]:
  "bind_result (Inl e) k = Inl e"
  "bind_result (Inr x) k = k x"
  by (simp_all add: bind_result_def)

lemma bind_result_eq_Inr:
  "bind_result r k = Inr y \<longleftrightarrow> (\<exists>x. r = Inr x \<and> k x = Inr y)"
  by (cases r) auto

primrec map_result :: "('a \<Rightarrow> 'b result) \<Rightarrow> 'a list \<Rightarrow> 'b list result" where
  "map_result f [] = Inr []"
| "map_result f (x # xs) =
     bind_result (f x) (\<lambda>y. bind_result (map_result f xs) (\<lambda>ys. Inr (y # ys)))"

text \<open>What may not return at all: \<open>None\<close> when it does not.\<close>

type_synonym 'a outcome = "'a result option"

definition ret :: "'a \<Rightarrow> 'a outcome" where
  "ret x = Some (Inr x)"

definition bind_outcome :: "'a outcome \<Rightarrow> ('a \<Rightarrow> 'b outcome) \<Rightarrow> 'b outcome" where
  "bind_outcome m k = (case m of None \<Rightarrow> None | Some (Inl e) \<Rightarrow> Some (Inl e) | Some (Inr x) \<Rightarrow> k x)"

definition may_diverge :: "'a option \<Rightarrow> 'a outcome" where
  "may_diverge m = map_option Inr m"

lemma bind_outcome_simps [simp]:
  "bind_outcome None k = None" "bind_outcome (Some (Inl e)) k = Some (Inl e)"
  "bind_outcome (Some (Inr x)) k = k x" "bind_outcome (ret x) k = k x"
  by (simp_all add: bind_outcome_def ret_def)

lemma may_diverge_simps [simp]: "may_diverge None = None" "may_diverge (Some x) = ret x"
  by (simp_all add: may_diverge_def ret_def)

lemma ret_eq [simp]: "ret x = ret y \<longleftrightarrow> x = y" "ret x \<noteq> None" "ret x \<noteq> Some (Inl e)" "Some (Inr x) = ret y \<longleftrightarrow> x = y"
  by (simp_all add: ret_def)

lemma bind_outcome_eq_ret: "bind_outcome m k = ret y \<longleftrightarrow> (\<exists>x. m = ret x \<and> k x = ret y)"
  by (auto simp: bind_outcome_def ret_def split: option.splits sum.splits)

section \<open>Characters\<close>

definition rx :: "string \<Rightarrow> string" where
  "rx p = map (\<lambda>c. if c = CHR ''`'' then CHR 0x5C else c) p"

definition in_range :: "nat \<Rightarrow> nat \<Rightarrow> char \<Rightarrow> bool" where
  "in_range lo hi c \<longleftrightarrow> lo \<le> of_char c \<and> (of_char c :: nat) \<le> hi"

definition is_digit :: "char \<Rightarrow> bool" where
  "is_digit c \<longleftrightarrow> in_range 48 57 c"

definition is_lower_ascii :: "char \<Rightarrow> bool" where
  "is_lower_ascii c \<longleftrightarrow> in_range 97 122 c"

definition is_upper_ascii :: "char \<Rightarrow> bool" where
  "is_upper_ascii c \<longleftrightarrow> in_range 65 90 c"

text \<open>\<open>str.isspace\<close> and \<open>\s\<close> below code point 256.\<close>

definition is_space :: "char \<Rightarrow> bool" where
  "is_space c \<longleftrightarrow> c = CHR '' '' \<or> in_range 9 13 c \<or> in_range 28 31 c
     \<or> c = CHR 0x85 \<or> c = CHR 0xA0"

text \<open>\<open>\w\<close> below code point 256: the alphanumeric code points and the underscore.\<close>

definition is_word :: "char \<Rightarrow> bool" where
  "is_word c \<longleftrightarrow> is_lower_ascii c \<or> is_upper_ascii c \<or> is_digit c \<or> c = CHR ''_''
     \<or> c \<in> {CHR 0xAA, CHR 0xB2, CHR 0xB3, CHR 0xB5, CHR 0xB9, CHR 0xBA, CHR 0xBC, CHR 0xBD, CHR 0xBE}
     \<or> in_range 0xC0 0xD6 c \<or> in_range 0xD8 0xF6 c \<or> in_range 0xF8 0xFF c"

definition char_lower :: "char \<Rightarrow> char" where
  "char_lower c = (if is_upper_ascii c \<or> in_range 0xC0 0xD6 c \<or> in_range 0xD8 0xDE c
     then char_of (of_char c + (32 :: nat)) else c)"

text \<open>\<open>str.upper\<close> is only ever applied to ASCII text.\<close>

definition char_upper :: "char \<Rightarrow> char" where
  "char_upper c = (if is_lower_ascii c then char_of (of_char c - (32 :: nat)) else c)"

section \<open>Indexing and slicing\<close>

definition py_pos :: "'a list \<Rightarrow> int \<Rightarrow> nat" where
  \<comment> \<open>a slice bound: negative bounds count from the end, all are clamped to the list\<close>
  "py_pos xs i = (if i < 0 then nat (max 0 (i + int (length xs))) else min (nat i) (length xs))"

definition py_slice :: "'a list \<Rightarrow> int \<Rightarrow> int \<Rightarrow> 'a list" where
  "py_slice xs i j = take (py_pos xs j - py_pos xs i) (drop (py_pos xs i) xs)"

definition py_from :: "'a list \<Rightarrow> int \<Rightarrow> 'a list" where
  "py_from xs i = drop (py_pos xs i) xs"

definition py_upto :: "'a list \<Rightarrow> int \<Rightarrow> 'a list" where
  "py_upto xs j = take (py_pos xs j) xs"

definition py_get :: "'a list \<Rightarrow> int \<Rightarrow> 'a result" where
  "py_get xs i =
     (if 0 \<le> i then if nat i < length xs then Inr (xs ! nat i) else Inl IndexError
      else if nat (- i) \<le> length xs then Inr (xs ! (length xs - nat (- i))) else Inl IndexError)"

lemma py_pos_le [simp, py_length]: "py_pos xs i \<le> length xs"
  by (auto simp: py_pos_def nat_le_iff)

lemma py_pos_nat [simp]: "n \<le> length xs \<Longrightarrow> py_pos xs (int n) = n"
  by (simp add: py_pos_def)

lemma py_from_nat [simp]: "py_from xs (int n) = drop n xs"
  by (simp add: py_from_def py_pos_def min_def)

lemma py_from_0 [simp]: "py_from xs 0 = xs"
  by (simp add: py_from_def py_pos_def)

lemma py_upto_nat [simp]: "py_upto xs (int n) = take n xs"
  by (simp add: py_upto_def py_pos_def min_def)

lemma py_slice_nat [simp]:
  "py_slice xs (int i) (int j) = take (j - i) (drop i xs)"
  by (cases "i \<le> length xs") (auto simp: py_slice_def py_pos_def min_def)

lemma py_get_nat [simp]: "n < length xs \<Longrightarrow> py_get xs (int n) = Inr (xs ! n)"
  by (simp add: py_get_def)

lemma py_get_Inr_iff:
  "(\<exists>x. py_get xs i = Inr x) \<longleftrightarrow> - int (length xs) \<le> i \<and> i < int (length xs)"
  by (auto simp: py_get_def)

lemma py_get_nonneg: "0 \<le> i \<Longrightarrow> i < int (length xs) \<Longrightarrow> py_get xs i = Inr (xs ! nat i)"
  by (simp add: py_get_def)

lemma py_get_in_set: "py_get xs i = Inr x \<Longrightarrow> x \<in> set xs"
  by (auto simp: py_get_def Let_def split: if_splits)

lemma length_py_from [py_length]: "length (py_from xs i) \<le> length xs"
  by (simp add: py_from_def)

section \<open>String operations\<close>

definition startswith :: "string \<Rightarrow> string \<Rightarrow> bool" where
  "startswith s p \<longleftrightarrow> take (length p) s = p"

definition endswith :: "string \<Rightarrow> string \<Rightarrow> bool" where
  "endswith s p \<longleftrightarrow> length p \<le> length s \<and> drop (length s - length p) s = p"

lemma startswith_iff: "startswith s p \<longleftrightarrow> (\<exists>t. s = p @ t)"
  by (auto simp: startswith_def) (metis append_take_drop_id)

lemma endswith_iff: "endswith s p \<longleftrightarrow> (\<exists>t. s = t @ p)"
  by (auto simp: endswith_def) (metis append_take_drop_id)

lemma startswith_append [simp]: "startswith (p @ t) p"
  by (simp add: startswith_iff)

lemma endswith_append [simp]: "endswith (t @ p) p"
  by (simp add: endswith_iff)

text \<open>\<open>s.find(p)\<close>: the first position at which \<open>p\<close> occurs.\<close>

fun find_str :: "string \<Rightarrow> string \<Rightarrow> nat option" where
  "find_str p [] = (if p = [] then Some 0 else None)"
| "find_str p (c # cs) =
     (if startswith (c # cs) p then Some 0 else map_option Suc (find_str p cs))"

definition py_find :: "string \<Rightarrow> string \<Rightarrow> int" where
  "py_find s p = (case find_str p s of None \<Rightarrow> -1 | Some n \<Rightarrow> int n)"

definition py_find_from :: "string \<Rightarrow> string \<Rightarrow> nat \<Rightarrow> int" where
  "py_find_from s p start =
     (if length s < start then -1
      else (case find_str p (drop start s) of None \<Rightarrow> -1 | Some n \<Rightarrow> int (start + n)))"

fun rfind_char :: "char \<Rightarrow> string \<Rightarrow> nat option" where
  "rfind_char x [] = None"
| "rfind_char x (c # cs) =
     (case rfind_char x cs of Some n \<Rightarrow> Some (Suc n) | None \<Rightarrow> if c = x then Some 0 else None)"

definition py_rfind :: "string \<Rightarrow> char \<Rightarrow> int" where
  "py_rfind s x = (case rfind_char x s of None \<Rightarrow> -1 | Some n \<Rightarrow> int n)"

definition contains :: "string \<Rightarrow> string \<Rightarrow> bool" where
  "contains s p \<longleftrightarrow> find_str p s \<noteq> None"

lemma find_str_Some:
  "find_str p s = Some n \<Longrightarrow> n + length p \<le> length s \<and> s = take n s @ p @ drop (n + length p) s"
proof (induction s arbitrary: n)
  case Nil
  then show ?case by (simp split: if_splits)
next
  case (Cons c cs)
  show ?case
  proof (cases "startswith (c # cs) p")
    case True
    with Cons.prems have "n = 0" by simp
    with True show ?thesis
      by (metis add_0 append_Nil drop_eq_Nil linorder_not_less nat_le_linear length_append le_add1
          append_eq_conv_conj startswith_iff take0)
  next
    case False
    with Cons.prems obtain m where "find_str p cs = Some m" "n = Suc m" by auto
    with Cons.IH show ?thesis by simp
  qed
qed

lemma find_str_None: "find_str p s = None \<Longrightarrow> s \<noteq> u @ p @ v"
proof (induction s arbitrary: u)
  case Nil
  then show ?case by (simp split: if_splits)
next
  case (Cons c cs)
  then have n: "\<not> startswith (c # cs) p" and r: "find_str p cs = None"
    by (simp_all split: if_splits)
  show ?case
  proof (cases u)
    case Nil
    with n show ?thesis by (auto simp: startswith_iff)
  next
    case (Cons d ds)
    with Cons.IH [OF r, of ds] show ?thesis by simp
  qed
qed

lemma contains_iff: "contains s p \<longleftrightarrow> (\<exists>u v. s = u @ p @ v)"
proof
  assume "contains s p"
  then obtain n where "find_str p s = Some n" by (auto simp: contains_def)
  then show "\<exists>u v. s = u @ p @ v" by (blast dest: find_str_Some)
next
  assume "\<exists>u v. s = u @ p @ v"
  then have "find_str p s \<noteq> None" using find_str_None by blast
  then show "contains s p" by (simp add: contains_def)
qed

lemma py_find_nonneg_iff: "0 \<le> py_find s p \<longleftrightarrow> contains s p"
  by (auto simp: py_find_def contains_def split: option.splits)

lemma py_find_ge: "-1 \<le> py_find s p"
  by (auto simp: py_find_def split: option.splits)

lemma py_find_bound: "py_find s p = int n \<Longrightarrow> n + length p \<le> length s"
  using find_str_Some by (fastforce simp: py_find_def split: option.splits)

lemma rfind_char_Some: "rfind_char x s = Some n \<Longrightarrow> n < length s \<and> s ! n = x"
  by (induction s arbitrary: n) (auto split: option.splits if_splits)

lemma rfind_char_None: "rfind_char x s = None \<longleftrightarrow> x \<notin> set s"
  by (induction s) (auto split: option.splits)

text \<open>\<open>s.split(x)\<close> for a one-character separator, and \<open>x.join(ws)\<close>.\<close>

fun split_on :: "char \<Rightarrow> string \<Rightarrow> string list" where
  "split_on x [] = [[]]"
| "split_on x (c # cs) =
     (if c = x then [] # split_on x cs
      else (case split_on x cs of [] \<Rightarrow> [[c]] | w # ws \<Rightarrow> (c # w) # ws))"

fun join_with :: "string \<Rightarrow> string list \<Rightarrow> string" where
  "join_with sep [] = []"
| "join_with sep [w] = w"
| "join_with sep (w # v # ws) = w @ sep @ join_with sep (v # ws)"

lemma split_on_ne [simp]: "split_on x s \<noteq> []"
  by (induction s) (auto split: list.splits)

lemma join_split: "join_with [x] (split_on x s) = s"
proof (induction s)
  case (Cons c cs)
  then show ?case by (cases "split_on x cs") (auto, (metis append_Cons join_with.simps list.exhaust)+)
qed simp

lemma split_on_notin: "w \<in> set (split_on x s) \<Longrightarrow> x \<notin> set w"
  by (induction s arbitrary: w) (auto split: list.splits if_splits)

text \<open>\<open>strip\<close>, \<open>lstrip\<close>, \<open>rstrip\<close> and \<open>isspace\<close> of white space; \<open>split()\<close> at white space.\<close>

definition py_lstrip :: "string \<Rightarrow> string" where
  "py_lstrip s = dropWhile is_space s"

definition py_rstrip :: "string \<Rightarrow> string" where
  "py_rstrip s = rev (dropWhile is_space (rev s))"

definition py_strip :: "string \<Rightarrow> string" where
  "py_strip s = py_rstrip (py_lstrip s)"

definition py_isspace :: "string \<Rightarrow> bool" where
  "py_isspace s \<longleftrightarrow> s \<noteq> [] \<and> list_all is_space s"

definition rstrip_char :: "char \<Rightarrow> string \<Rightarrow> string" where
  "rstrip_char x s = rev (dropWhile (\<lambda>c. c = x) (rev s))"

definition lstrip_char :: "char \<Rightarrow> string \<Rightarrow> string" where
  "lstrip_char x s = dropWhile (\<lambda>c. c = x) s"

definition strip_set :: "string \<Rightarrow> string \<Rightarrow> string" where
  "strip_set cs s = rev (dropWhile (\<lambda>c. c \<in> set cs) (rev (dropWhile (\<lambda>c. c \<in> set cs) s)))"

text \<open>\<open>str.splitlines(True)\<close>: the lines of a text with their ends.\<close>

definition is_line_end :: "char \<Rightarrow> bool" where
  "is_line_end c \<longleftrightarrow> in_range 10 13 c \<or> in_range 28 30 c \<or> c = CHR 0x85"

fun splitlines_from :: "string \<Rightarrow> string \<Rightarrow> string list" where
  "splitlines_from [] w = (if w = [] then [] else [w])"
| "splitlines_from (c # cs) w =
     (if c = CHR 0x0D \<and> startswith cs [CHR 0x0A] then splitlines_from cs (w @ [c])
      else if is_line_end c then (w @ [c]) # splitlines_from cs []
      else splitlines_from cs (w @ [c]))"

definition py_splitlines :: "string \<Rightarrow> string list" where
  "py_splitlines s = splitlines_from s []"

fun words_from :: "string \<Rightarrow> string \<Rightarrow> string list" where
  "words_from [] w = (if w = [] then [] else [w])"
| "words_from (c # cs) w =
     (if is_space c then (if w = [] then words_from cs [] else w # words_from cs [])
      else words_from cs (w @ [c]))"

definition py_words :: "string \<Rightarrow> string list" where
  "py_words s = words_from s []"

lemma words_from_nonempty: "w' \<in> set (words_from s w) \<Longrightarrow> w' \<noteq> []"
  by (induction s w rule: words_from.induct) (auto split: if_splits)

lemma words_from_ne: "w \<noteq> [] \<or> (\<exists>c \<in> set s. \<not> is_space c) \<Longrightarrow> words_from s w \<noteq> []"
  by (induction s w rule: words_from.induct) auto

text \<open>\<open>count\<close> and \<open>replace\<close> of a non-empty text, without overlap, from the left.\<close>

fun count_from :: "string \<Rightarrow> string \<Rightarrow> nat \<Rightarrow> nat" where
  "count_from p [] k = 0"
| "count_from p (c # cs) (Suc k) = count_from p cs k"
| "count_from p (c # cs) 0 =
     (if startswith (c # cs) p then Suc (count_from p cs (length p - 1)) else count_from p cs 0)"

definition py_count :: "string \<Rightarrow> string \<Rightarrow> int" where
  "py_count s p = int (count_from p s 0)"

fun replace_from :: "string \<Rightarrow> string \<Rightarrow> string \<Rightarrow> nat \<Rightarrow> string" where
  "replace_from p t [] k = []"
| "replace_from p t (c # cs) (Suc k) = replace_from p t cs k"
| "replace_from p t (c # cs) 0 =
     (if startswith (c # cs) p then t @ replace_from p t cs (length p - 1)
      else c # replace_from p t cs 0)"

definition py_replace :: "string \<Rightarrow> string \<Rightarrow> string \<Rightarrow> string" where
  "py_replace s p t = replace_from p t s 0"

lemma count_single: "count_from [x] s 0 = count_list s x"
  by (induction s) (auto simp: startswith_def)

lemma py_count_single: "py_count s [x] = int (count_list s x)"
  by (simp add: py_count_def count_single)

lemma py_replace_single: "py_replace s [x] [y] = map (\<lambda>c. if c = x then y else c) s"
proof -
  have "replace_from [x] [y] s 0 = map (\<lambda>c. if c = x then y else c) s"
    by (induction s) (auto simp: startswith_def)
  then show ?thesis by (simp add: py_replace_def)
qed

text \<open>The lines of a text file, as iterating over the file gives them, without their ends.\<close>

definition text_lines :: "string \<Rightarrow> string list" where
  "text_lines t =
     (let ls = split_on (CHR 0x0A) (py_replace (py_replace t [CHR 0x0D, CHR 0x0A] [CHR 0x0A]) [CHR 0x0D] [CHR 0x0A])
      in if last ls = [] then butlast ls else ls)"

definition py_lower :: "string \<Rightarrow> string" where
  "py_lower s = map char_lower s"

definition py_upper :: "string \<Rightarrow> string" where
  "py_upper s = map char_upper s"

section \<open>Numbers as text\<close>

fun str_nat :: "nat \<Rightarrow> string" where
  "str_nat n = (if n < 10 then [char_of (48 + n)] else str_nat (n div 10) @ [char_of (48 + n mod 10)])"

declare str_nat.simps [simp del]

definition str_int :: "int \<Rightarrow> string" where
  "str_int i = (if i < 0 then ''-'' @ str_nat (nat (- i)) else str_nat (nat i))"

text \<open>\<open>int(s)\<close>: white space around an optional sign and decimal digits, in groups separated by single
  underscores; \<open>None\<close> is a \<open>ValueError\<close>.\<close>

definition nat_of_digits :: "string \<Rightarrow> nat option" where
  "nat_of_digits s =
     (let groups = split_on (CHR ''_'') s in
      if list_all (\<lambda>g. g \<noteq> [] \<and> list_all is_digit g) groups
      then Some (foldl (\<lambda>n c. 10 * n + (of_char c - 48)) 0 (concat groups)) else None)"

definition py_int :: "string \<Rightarrow> int option" where
  "py_int s =
     (case py_strip s of
        [] \<Rightarrow> None
      | c # cs \<Rightarrow>
          if c = CHR ''-'' then map_option (\<lambda>n. - int n) (nat_of_digits cs)
          else if c = CHR ''+'' then map_option int (nat_of_digits cs)
          else map_option int (nat_of_digits (c # cs)))"

lemma is_digit_char_of: "n < 10 \<Longrightarrow> is_digit (char_of (48 + n)) \<and> (of_char (char_of (48 + n)) :: nat) = 48 + n"
  by (simp add: is_digit_def in_range_def)

lemma str_nat_digits: "str_nat n \<noteq> [] \<and> list_all is_digit (str_nat n)"
proof (induction n rule: str_nat.induct)
  case (1 n)
  then show ?case
    by (subst (1 2) str_nat.simps) (auto simp: is_digit_char_of)
qed

lemma foldl_str_nat: "foldl (\<lambda>n c. 10 * n + (of_char c - 48)) 0 (str_nat n) = n"
proof (induction n rule: str_nat.induct)
  case (1 n)
  then show ?case
    by (subst str_nat.simps) (auto simp: is_digit_char_of)
qed

lemma split_on_absent: "x \<notin> set w \<Longrightarrow> split_on x w = [w]"
  by (induction w) auto

lemma nat_of_str_nat: "nat_of_digits (str_nat n) = Some n"
proof -
  have "CHR ''_'' \<notin> set (str_nat n)"
    using str_nat_digits [of n] by (auto simp: list_all_iff is_digit_def in_range_def)
  then show ?thesis by (simp add: nat_of_digits_def split_on_absent str_nat_digits foldl_str_nat)
qed

section \<open>Dictionaries that remember insertion order\<close>

fun dict_set :: "'k \<Rightarrow> 'v \<Rightarrow> ('k \<times> 'v) list \<Rightarrow> ('k \<times> 'v) list" where
  "dict_set k v [] = [(k, v)]"
| "dict_set k v ((k', v') # d) = (if k' = k then (k, v) # d else (k', v') # dict_set k v d)"

lemma map_of_dict_set: "map_of (dict_set k v d) = (map_of d)(k \<mapsto> v)"
  by (induction d) (auto simp: fun_eq_iff)

lemma keys_dict_set: "set (map fst (dict_set k v d)) = insert k (set (map fst d))"
  by (induction k v d rule: dict_set.induct) (simp_all add: insert_commute)

lemma distinct_dict_set: "distinct (map fst d) \<Longrightarrow> distinct (map fst (dict_set k v d))"
proof (induction k v d rule: dict_set.induct)
  case (2 k v k' v' d)
  then show ?case using keys_dict_set [of k v d] by (auto simp del: set_map)
qed simp

section \<open>Sequences in phases\<close>

text \<open>\<open>phase P Q xs\<close>: some elements with \<open>P\<close>, then a rest with \<open>Q\<close>.\<close>

definition phase :: "('a \<Rightarrow> bool) \<Rightarrow> ('a list \<Rightarrow> bool) \<Rightarrow> 'a list \<Rightarrow> bool" where
  "phase P Q xs \<longleftrightarrow> (\<exists>as bs. xs = as @ bs \<and> list_all P as \<and> Q bs)"

lemma phase_Nil: "phase P Q [] \<longleftrightarrow> Q []"
  by (simp add: phase_def)

lemma phase_Cons: "phase P Q (x # xs) \<longleftrightarrow> P x \<and> phase P Q xs \<or> Q (x # xs)"
proof
  assume "phase P Q (x # xs)"
  then obtain as bs where *: "x # xs = as @ bs" "list_all P as" "Q bs" by (auto simp: phase_def)
  show "P x \<and> phase P Q xs \<or> Q (x # xs)"
  proof (cases as)
    case Nil
    with * have "Q (x # xs)" by simp
    then show ?thesis ..
  next
    case (Cons a as')
    with * have "P x" "xs = as' @ bs \<and> list_all P as' \<and> Q bs" by simp_all
    then show ?thesis unfolding phase_def by blast
  qed
next
  assume "P x \<and> phase P Q xs \<or> Q (x # xs)"
  then show "phase P Q (x # xs)"
  proof
    assume "P x \<and> phase P Q xs"
    then obtain as bs where "xs = as @ bs" "list_all P as" "Q bs" "P x" by (auto simp: phase_def)
    then have "x # xs = (x # as) @ bs \<and> list_all P (x # as) \<and> Q bs" by simp
    then show ?thesis unfolding phase_def by blast
  next
    assume "Q (x # xs)"
    then have "x # xs = [] @ (x # xs) \<and> list_all P [] \<and> Q (x # xs)" by simp
    then show ?thesis unfolding phase_def by blast
  qed
qed

section \<open>Simulation\<close>

text \<open>
  The contract of a refinement between step relations: every step keeps an invariant and is, seen
  through an abstraction, no step or one of the specification.
\<close>

locale simulation =
  fixes step :: "'s \<Rightarrow> 's \<Rightarrow> bool" and spec_step :: "'a \<Rightarrow> 'a \<Rightarrow> bool"
    and abs :: "'s \<Rightarrow> 'a" and inv :: "'s \<Rightarrow> bool"
  assumes inv_step: "inv s \<Longrightarrow> step s t \<Longrightarrow> inv t"
    and simulates: "inv s \<Longrightarrow> step s t \<Longrightarrow> abs s = abs t \<or> spec_step (abs s) (abs t)"
begin

lemma inv_steps: "step\<^sup>*\<^sup>* s t \<Longrightarrow> inv s \<Longrightarrow> inv t"
  by (induction rule: rtranclp_induct) (auto intro: inv_step)

lemma simulates_steps: "step\<^sup>*\<^sup>* s t \<Longrightarrow> inv s \<Longrightarrow> spec_step\<^sup>*\<^sup>* (abs s) (abs t)"
proof (induction rule: rtranclp_induct)
  case (step t u)
  then have "inv t" by (blast intro: inv_steps)
  from simulates [OF this step.hyps(2)] have "spec_step\<^sup>*\<^sup>* (abs t) (abs u)" by auto
  with step show ?case by (meson rtranclp_trans)
qed simp

end

end
