(* ===== verification/PyRegex.thy ===== *)
theory PyRegex
  imports Prelude
begin

text \<open>
  The fragment of Python's \<open>re\<close> module the sources use, and the three wrappers \<open>Match\<close>,
  \<open>Search\<close> and \<open>ReplaceAll\<close> of \<open>cpplint.py\<close> with their cache of compiled patterns. A pattern is
  parsed from its text (so the theories quote the patterns of the source literally) into the
  syntax tree \<open>re\<close>; \<open>mt\<close> is the backtracking matcher in continuation-passing style, which tries
  alternatives and repetitions in Python's order and stops at the first success. \<open>runs\<close> is the
  reference semantics: the list of all ways to match, in order of preference. The lemmas show
  that the matcher returns the first of these (\<open>mt_first_run\<close>), that a match is a segment of
  the subject (\<open>seg_runs\<close>), that escaping a text gives the pattern of exactly that text
  (\<open>re_escape_exact\<close>) and that the cache never changes a result.

  As in Python, an optional round of a repetition may match the empty text, and then it is the last.
\<close>

section \<open>Syntax\<close>

datatype citem = One char | Range char char | Space bool | Word bool | Digit bool

datatype re =
  Eps
| Cls bool "citem list"              \<comment> \<open>\<open>[...]\<close>; \<open>True\<close> when negated\<close>
| AnyC
| Seq re re
| Alt re re
| Rep nat "nat option" bool re       \<comment> \<open>bounds, \<open>True\<close> when greedy\<close>
| Grp nat re
| Bol
| Eol
| WordB bool                         \<comment> \<open>\<open>\b\<close> for \<open>True\<close>, \<open>\B\<close> for \<open>False\<close>\<close>
| Look bool re                       \<comment> \<open>\<open>(?=\<close> for \<open>True\<close>, \<open>(?!\<close> for \<open>False\<close>\<close>
| Backref nat

record flags =
  ignore_case :: bool
  multi_line :: bool
  dot_all :: bool

definition no_flags :: flags where
  "no_flags = \<lparr>ignore_case = False, multi_line = False, dot_all = False\<rparr>"

section \<open>Matching\<close>

text \<open>
  A point in the subject: the character before it, the text after it, its position, and the
  groups captured so far (number, start, text; the latest first).
\<close>

datatype mst = MS (mst_before: "char option") (mst_rest: string) (mst_pos: nat) (mst_caps: "(nat \<times> nat \<times> string) list")

fun in_citem :: "citem \<Rightarrow> char \<Rightarrow> bool" where
  "in_citem (One d) c = (c = d)"
| "in_citem (Range a b) c = in_range (of_char a) (of_char b) c"
| "in_citem (Space b) c = (is_space c = b)"
| "in_citem (Word b) c = (is_word c = b)"
| "in_citem (Digit b) c = (is_digit c = b)"

fun in_items :: "citem list \<Rightarrow> char \<Rightarrow> bool" where
  "in_items [] c = False"
| "in_items (i # is) c = (in_citem i c \<or> in_items is c)"

definition in_cls :: "flags \<Rightarrow> bool \<Rightarrow> citem list \<Rightarrow> char \<Rightarrow> bool" where
  "in_cls f neg is c \<longleftrightarrow>
     (in_items is c \<or> (ignore_case f \<and> (in_items is (char_lower c) \<or> in_items is (char_upper c)))) \<noteq> neg"

fun at_bol :: "flags \<Rightarrow> mst \<Rightarrow> bool" where
  "at_bol f (MS p r i cs) =
     (case p of None \<Rightarrow> True | Some c \<Rightarrow> multi_line f \<and> c = CHR 0x0A)"

fun at_eol :: "flags \<Rightarrow> mst \<Rightarrow> bool" where
  "at_eol f (MS p r i cs) =
     (case r of [] \<Rightarrow> True | c # r' \<Rightarrow> c = CHR 0x0A \<and> (multi_line f \<or> r' = []))"

fun at_word_boundary :: "mst \<Rightarrow> bool" where
  "at_word_boundary (MS p r i cs) =
     ((case p of None \<Rightarrow> False | Some c \<Rightarrow> is_word c) \<noteq>
      (case r of [] \<Rightarrow> False | c # r' \<Rightarrow> is_word c))"

fun step_char :: "(char \<Rightarrow> bool) \<Rightarrow> mst \<Rightarrow> mst option" where
  "step_char P (MS p r i cs) =
     (case r of [] \<Rightarrow> None | c # r' \<Rightarrow> if P c then Some (MS (Some c) r' (Suc i) cs) else None)"

fun set_group :: "nat \<Rightarrow> mst \<Rightarrow> mst \<Rightarrow> mst" where
  "set_group n (MS p r i cs) (MS p' r' i' cs') = MS p' r' i' ((n, i, take (i' - i) r) # cs')"

fun with_caps :: "mst \<Rightarrow> mst \<Rightarrow> mst" where
  "with_caps (MS p r i cs) (MS p' r' i' cs') = MS p r i cs'"

fun skip_text :: "string \<Rightarrow> mst \<Rightarrow> mst option" where
  "skip_text [] s = Some s"
| "skip_text (c # cs) s = (case step_char (\<lambda>d. d = c) s of None \<Rightarrow> None | Some s' \<Rightarrow> skip_text cs s')"

definition step_backref :: "nat \<Rightarrow> mst \<Rightarrow> mst option" where
  "step_backref n s =
     (case map_of (mst_caps s) n of None \<Rightarrow> None | Some (i, t) \<Rightarrow> skip_text t s)"

definition dec_bound :: "nat option \<Rightarrow> nat option" where
  "dec_bound hi = map_option (\<lambda>n. n - 1) hi"

definition or_else :: "'a option \<Rightarrow> 'a option \<Rightarrow> 'a option" where
  "or_else x y = (case x of None \<Rightarrow> y | Some z \<Rightarrow> Some z)"

text \<open>
  Repetition: first the mandatory rounds, then the optional ones. All but the last of these consume
  text, so one more than the length of the rest of the subject bounds their number.
\<close>

fun rep :: "(mst \<Rightarrow> (mst \<Rightarrow> mst option) \<Rightarrow> mst option) \<Rightarrow> nat \<Rightarrow> nat option \<Rightarrow> bool \<Rightarrow> nat \<Rightarrow>
    mst \<Rightarrow> (mst \<Rightarrow> mst option) \<Rightarrow> mst option" where
  "rep m (Suc lo) hi g n s k = m s (\<lambda>s'. rep m lo hi g n s' k)"
| "rep m 0 hi g 0 s k = k s"
| "rep m 0 hi g (Suc n) s k =
     (if hi = Some 0 then k s
      else if g then
        (case m s (\<lambda>s'. if mst_pos s' = mst_pos s then k s' else rep m 0 (dec_bound hi) g n s' k)
         of None \<Rightarrow> k s | Some x \<Rightarrow> Some x)
      else
        (case k s of
           None \<Rightarrow> m s (\<lambda>s'. if mst_pos s' = mst_pos s then k s' else rep m 0 (dec_bound hi) g n s' k)
         | Some x \<Rightarrow> Some x))"

primrec mt :: "flags \<Rightarrow> re \<Rightarrow> mst \<Rightarrow> (mst \<Rightarrow> mst option) \<Rightarrow> mst option" where
  "mt f Eps s k = k s"
| "mt f (Cls neg is) s k =
     (case step_char (in_cls f neg is) s of None \<Rightarrow> None | Some s' \<Rightarrow> k s')"
| "mt f AnyC s k =
     (case step_char (\<lambda>c. dot_all f \<or> c \<noteq> CHR 0x0A) s of None \<Rightarrow> None | Some s' \<Rightarrow> k s')"
| "mt f (Seq a b) s k = mt f a s (\<lambda>s'. mt f b s' k)"
| "mt f (Alt a b) s k = (case mt f a s k of None \<Rightarrow> mt f b s k | Some x \<Rightarrow> Some x)"
| "mt f (Rep lo hi g a) s k = rep (mt f a) lo (map_option (\<lambda>h. h - lo) hi) g (Suc (length (mst_rest s))) s k"
| "mt f (Grp n a) s k = mt f a s (\<lambda>s'. k (set_group n s s'))"
| "mt f Bol s k = (if at_bol f s then k s else None)"
| "mt f Eol s k = (if at_eol f s then k s else None)"
| "mt f (WordB b) s k = (if at_word_boundary s = b then k s else None)"
| "mt f (Look b a) s k =
     (case mt f a s Some of
        None \<Rightarrow> if b then None else k s
      | Some s' \<Rightarrow> if b then k (with_caps s s') else None)"
| "mt f (Backref n) s k = (case step_backref n s of None \<Rightarrow> None | Some s' \<Rightarrow> k s')"

section \<open>Reference semantics: all matches in order of preference\<close>

fun rep_runs :: "(mst \<Rightarrow> mst list) \<Rightarrow> nat \<Rightarrow> nat option \<Rightarrow> bool \<Rightarrow> nat \<Rightarrow> mst \<Rightarrow> mst list" where
  "rep_runs m (Suc lo) hi g n s = concat (map (rep_runs m lo hi g n) (m s))"
| "rep_runs m 0 hi g 0 s = [s]"
| "rep_runs m 0 hi g (Suc n) s =
     (if hi = Some 0 then [s]
      else let more = concat (map (\<lambda>s'. if mst_pos s' = mst_pos s then [s'] else rep_runs m 0 (dec_bound hi) g n s')
                               (m s))
           in if g then more @ [s] else s # more)"

primrec runs :: "flags \<Rightarrow> re \<Rightarrow> mst \<Rightarrow> mst list" where
  "runs f Eps s = [s]"
| "runs f (Cls neg is) s = (case step_char (in_cls f neg is) s of None \<Rightarrow> [] | Some s' \<Rightarrow> [s'])"
| "runs f AnyC s =
     (case step_char (\<lambda>c. dot_all f \<or> c \<noteq> CHR 0x0A) s of None \<Rightarrow> [] | Some s' \<Rightarrow> [s'])"
| "runs f (Seq a b) s = concat (map (runs f b) (runs f a s))"
| "runs f (Alt a b) s = runs f a s @ runs f b s"
| "runs f (Rep lo hi g a) s = rep_runs (runs f a) lo (map_option (\<lambda>h. h - lo) hi) g (Suc (length (mst_rest s))) s"
| "runs f (Grp n a) s = map (set_group n s) (runs f a s)"
| "runs f Bol s = (if at_bol f s then [s] else [])"
| "runs f Eol s = (if at_eol f s then [s] else [])"
| "runs f (WordB b) s = (if at_word_boundary s = b then [s] else [])"
| "runs f (Look b a) s =
     (case runs f a s of
        [] \<Rightarrow> if b then [] else [s]
      | s' # _ \<Rightarrow> if b then [with_caps s s'] else [])"
| "runs f (Backref n) s = (case step_backref n s of None \<Rightarrow> [] | Some s' \<Rightarrow> [s'])"

fun first_some :: "('a \<Rightarrow> 'b option) \<Rightarrow> 'a list \<Rightarrow> 'b option" where
  "first_some k [] = None"
| "first_some k (x # xs) = (case k x of None \<Rightarrow> first_some k xs | Some y \<Rightarrow> Some y)"

lemma first_some_append:
  "first_some k (xs @ ys) = (case first_some k xs of None \<Rightarrow> first_some k ys | Some y \<Rightarrow> Some y)"
  by (induction xs) (auto split: option.splits)

lemma first_some_concat_map:
  "first_some k (concat (map g xs)) = first_some (\<lambda>x. first_some k (g x)) xs"
  by (induction xs) (auto simp: first_some_append split: option.splits)

lemma first_some_map: "first_some k (map g xs) = first_some (\<lambda>x. k (g x)) xs"
  by (induction xs) (auto split: option.splits)

lemma first_some_filter:
  "first_some k (filter P xs) = first_some (\<lambda>x. if P x then k x else None) xs"
  by (induction xs) (auto split: option.splits)

lemma first_some_Some: "first_some Some xs = (case xs of [] \<Rightarrow> None | x # _ \<Rightarrow> Some x)"
  by (cases xs) auto

lemma first_some_None_iff: "first_some k xs = None \<longleftrightarrow> (\<forall>x \<in> set xs. k x = None)"
  by (induction xs) (auto split: option.splits)

lemma first_some_in: "first_some k xs = Some y \<Longrightarrow> \<exists>x \<in> set xs. k x = Some y"
  by (induction xs) (auto split: option.splits)

lemmas first_some_simps =
  first_some_append first_some_concat_map first_some_map first_some_filter first_some_Some

lemma opt_rounds_first_run:
  assumes m: "\<And>s k. m s k = first_some k (r s)"
  shows "rep m 0 hi g n s k = first_some k (rep_runs r 0 hi g n s)"
proof (induction n arbitrary: hi g s k)
  case 0
  show ?case by (simp split: option.splits)
next
  case (Suc n)
  have eq: "(\<lambda>s'. if mst_pos s' = mst_pos s then k s' else rep m 0 (dec_bound hi) b n s' k)
      = (\<lambda>s'. first_some k (if mst_pos s' = mst_pos s then [s'] else rep_runs r 0 (dec_bound hi) b n s'))"
    for b by (auto simp: Suc.IH fun_eq_iff split: option.split)
  have round: "m s (\<lambda>s'. if mst_pos s' = mst_pos s then k s' else rep m 0 (dec_bound hi) b n s' k)
      = first_some (\<lambda>s'. first_some k (if mst_pos s' = mst_pos s then [s'] else rep_runs r 0 (dec_bound hi) b n s')) (r s)"
    for b by (subst m) (simp only: eq)
  show ?case
    by (cases g) (simp_all add: round Let_def first_some_simps split: option.split)
qed

lemma rep_first_run:
  assumes m: "\<And>s k. m s k = first_some k (r s)"
  shows "rep m lo hi g n s k = first_some k (rep_runs r lo hi g n s)"
proof (induction lo arbitrary: s k)
  case 0
  show ?case by (rule opt_rounds_first_run [OF m])
next
  case (Suc lo)
  then show ?case by (simp add: m first_some_simps)
qed

theorem mt_first_run: "mt f r s k = first_some k (runs f r s)"
proof (induction r arbitrary: s k)
  case (Rep lo hi g a)
  then show ?case by (simp add: rep_first_run)
qed (auto simp: first_some_simps split: option.splits list.splits)

section \<open>A match is a segment of the subject\<close>

text \<open>\<open>seg s s'\<close>: \<open>s'\<close> is reached from \<open>s\<close> by reading text of the subject.\<close>

definition seg :: "mst \<Rightarrow> mst \<Rightarrow> bool" where
  "seg s s' \<longleftrightarrow> (\<exists>t. mst_rest s = t @ mst_rest s' \<and> mst_pos s' = mst_pos s + length t
     \<and> mst_before s' = (if t = [] then mst_before s else Some (last t)))"

lemma seg_refl [simp, intro]: "seg s s"
  by (simp add: seg_def)

lemma seg_trans [trans]: "seg s u \<Longrightarrow> seg u v \<Longrightarrow> seg s v"
proof -
  assume su: "seg s u" and uv: "seg u v"
  from su obtain t where t: "mst_rest s = t @ mst_rest u \<and> mst_pos u = mst_pos s + length t
      \<and> mst_before u = (if t = [] then mst_before s else Some (last t))"
    unfolding seg_def by (rule exE)
  from uv obtain t' where t': "mst_rest u = t' @ mst_rest v \<and> mst_pos v = mst_pos u + length t'
      \<and> mst_before v = (if t' = [] then mst_before u else Some (last t'))"
    unfolding seg_def by (rule exE)
  have "mst_rest s = (t @ t') @ mst_rest v" using t t' by simp
  moreover have "mst_pos v = mst_pos s + length (t @ t')" using t t' by simp
  moreover have "mst_before v = (if t @ t' = [] then mst_before s else Some (last (t @ t')))"
    using t t' by (cases "t' = []") simp_all
  ultimately show "seg s v" unfolding seg_def by (intro exI conjI)
qed

lemma step_char_Some:
  "step_char P (MS p r i cs) = Some s' \<longleftrightarrow> (\<exists>c r'. r = c # r' \<and> P c \<and> s' = MS (Some c) r' (Suc i) cs)"
  by (cases r) auto

lemma seg_step: "seg (MS p (c # r) i cs) (MS (Some c) r (Suc i) cs')"
  unfolding seg_def by (rule exI [of _ "[c]"]) simp

lemma seg_step_char: "step_char P s = Some s' \<Longrightarrow> seg s s'"
  by (cases s) (auto simp: step_char_Some seg_step simp del: step_char.simps)

lemma seg_skip_text: "skip_text t s = Some s' \<Longrightarrow> seg s s'"
proof (induction t arbitrary: s)
  case Nil
  then show ?case by simp
next
  case (Cons c cs)
  then obtain u where "step_char (\<lambda>d. d = c) s = Some u" "skip_text cs u = Some s'"
    by (auto split: option.splits)
  with Cons.IH show ?case by (blast dest: seg_step_char intro: seg_trans)
qed

lemma seg_step_backref: "step_backref n s = Some s' \<Longrightarrow> seg s s'"
  by (auto simp: step_backref_def split: option.splits dest: seg_skip_text)

lemma seg_set_group: "seg s s' \<Longrightarrow> seg s (set_group n s s')"
  by (cases s; cases s') (auto simp: seg_def)

lemma seg_with_caps: "seg s (with_caps s s')"
  by (cases s; cases s') (auto simp: seg_def)

lemma seg_rep_runs:
  assumes "\<And>s s'. s' \<in> set (r s) \<Longrightarrow> seg s s'"
  shows "s' \<in> set (rep_runs r lo hi g n s) \<Longrightarrow> seg s s'"
proof (induction lo arbitrary: s)
  case 0
  then show ?case
  proof (induction n arbitrary: hi s)
    case 0
    then show ?case by simp
  next
    case (Suc n)
    then show ?case by (simp add: Let_def split: if_splits) (blast intro: seg_trans dest: assms)+
  qed
next
  case (Suc lo)
  then show ?case by simp (blast intro: seg_trans dest: assms)
qed

lemma seg_runs: "s' \<in> set (runs f r s) \<Longrightarrow> seg s s'"
proof (induction r arbitrary: s s')
  case (Rep lo hi g a)
  then show ?case using seg_rep_runs [of "runs f a"] by simp
next
  case (Seq a b)
  then show ?case by simp (blast intro: seg_trans)
qed (auto intro: seg_set_group seg_with_caps dest: seg_step_char [OF sym] seg_step_backref [OF sym]
       split: option.splits if_splits list.splits)

lemma seg_length: "seg s s' \<Longrightarrow> mst_pos s' + length (mst_rest s') = mst_pos s + length (mst_rest s)"
  by (auto simp: seg_def)

lemma seg_text: "seg s s' \<Longrightarrow> mst_rest s = take (mst_pos s' - mst_pos s) (mst_rest s) @ mst_rest s'"
  by (auto simp: seg_def)

section \<open>Parsing patterns\<close>

definition special_chars :: string where
  "special_chars = ''.^$*+?{}[]|()'' @ [CHR 0x5C]"

definition esc_class :: "char \<Rightarrow> citem option" where
  "esc_class c =
     (if c = CHR ''s'' then Some (Space True) else if c = CHR ''S'' then Some (Space False)
      else if c = CHR ''w'' then Some (Word True) else if c = CHR ''W'' then Some (Word False)
      else if c = CHR ''d'' then Some (Digit True) else if c = CHR ''D'' then Some (Digit False)
      else if c = CHR ''n'' then Some (One (CHR 0x0A)) else if c = CHR ''r'' then Some (One (CHR 0x0D))
      else if c = CHR ''t'' then Some (One (CHR 0x09))
      else if is_lower_ascii c \<or> is_upper_ascii c \<or> is_digit c then None
      else Some (One c))"

fun digits_val :: "string \<Rightarrow> nat \<Rightarrow> nat" where
  "digits_val [] n = n"
| "digits_val (c # cs) n = digits_val cs (10 * n + (of_char c - 48))"

text \<open>\<open>{m}\<close>, \<open>{m,}\<close> and \<open>{m,n}\<close>; any other text after a brace makes the brace a literal.\<close>

definition parse_braces :: "string \<Rightarrow> (nat \<times> nat option \<times> string) option" where
  "parse_braces s =
     (let d = takeWhile is_digit s; r = dropWhile is_digit s in
      if d = [] then None
      else (case r of
          [] \<Rightarrow> None
        | c # r' \<Rightarrow>
            if c = CHR ''}'' then Some (digits_val d 0, Some (digits_val d 0), r')
            else if c = CHR '','' then
              (let e = takeWhile is_digit r'; q = dropWhile is_digit r' in
               case q of
                 [] \<Rightarrow> None
               | c' # q' \<Rightarrow>
                   if c' = CHR ''}''
                   then Some (digits_val d 0, if e = [] then None else Some (digits_val e 0), q')
                   else None)
            else None))"

definition parse_quant :: "string \<Rightarrow> (nat \<times> nat option \<times> string) option" where
  "parse_quant s =
     (case s of
        [] \<Rightarrow> None
      | c # r \<Rightarrow>
          if c = CHR ''*'' then Some (0, None, r)
          else if c = CHR ''+'' then Some (1, None, r)
          else if c = CHR ''?'' then Some (0, Some 1, r)
          else if c = CHR ''{'' then parse_braces r
          else None)"

definition quantify :: "re \<Rightarrow> string \<Rightarrow> re \<times> string" where
  "quantify a s =
     (case parse_quant s of
        None \<Rightarrow> (a, s)
      | Some (lo, hi, r) \<Rightarrow>
          (case r of
             [] \<Rightarrow> (Rep lo hi True a, r)
           | c # r' \<Rightarrow> if c = CHR ''?'' then (Rep lo hi False a, r') else (Rep lo hi True a, r)))"

text \<open>The inside of \<open>[...]\<close>; a closing bracket in the first place is a member.\<close>

definition next_citem :: "string \<Rightarrow> (citem \<times> string) option" where
  "next_citem s =
     (case s of
        [] \<Rightarrow> None
      | c # cs \<Rightarrow>
          if c = CHR 0x5C
          then (case cs of [] \<Rightarrow> None | d # ds \<Rightarrow> map_option (\<lambda>i. (i, ds)) (esc_class d))
          else (case cs of
                  x # y # r \<Rightarrow>
                    if x = CHR ''-'' \<and> y \<noteq> CHR '']'' \<and> y \<noteq> CHR 0x5C
                    then Some (Range c y, r) else Some (One c, cs)
                | _ \<Rightarrow> Some (One c, cs)))"

fun parse_items :: "nat \<Rightarrow> bool \<Rightarrow> string \<Rightarrow> (citem list \<times> string) option" where
  "parse_items 0 first s = None"
| "parse_items (Suc n) first s =
     (if \<not> first \<and> startswith s '']'' then Some ([], drop 1 s)
      else (case next_citem s of
              None \<Rightarrow> None
            | Some (i, r) \<Rightarrow> map_option (\<lambda>(is, q). (i # is, q)) (parse_items n False r)))"

text \<open>
  Alternatives, sequences and atoms. The number threaded through is that of the last group
  opened; the first argument bounds the depth and is started at the length of the text.
\<close>

fun parse_alt :: "nat \<Rightarrow> nat \<Rightarrow> string \<Rightarrow> (re \<times> nat \<times> string) option"
  and parse_seq :: "nat \<Rightarrow> nat \<Rightarrow> string \<Rightarrow> (re \<times> nat \<times> string) option"
  and parse_atom :: "nat \<Rightarrow> nat \<Rightarrow> string \<Rightarrow> (re \<times> nat \<times> string) option" where
  "parse_alt 0 g s = None"
| "parse_alt (Suc n) g s =
     (case parse_seq n g s of
        None \<Rightarrow> None
      | Some (a, g', r) \<Rightarrow>
          (case r of
             [] \<Rightarrow> Some (a, g', [])
           | c # r' \<Rightarrow>
               if c = CHR ''|''
               then map_option (\<lambda>(b, g'', q). (Alt a b, g'', q)) (parse_alt n g' r')
               else Some (a, g', r)))"
| "parse_seq 0 g s = None"
| "parse_seq (Suc n) g s =
     (case s of
        [] \<Rightarrow> Some (Eps, g, [])
      | c # cs \<Rightarrow>
          if c = CHR ''|'' \<or> c = CHR '')'' then Some (Eps, g, s)
          else (case parse_atom n g s of
                  None \<Rightarrow> None
                | Some (a, g', r) \<Rightarrow>
                    (let (a', r') = quantify a r in
                     map_option (\<lambda>(b, g'', q). (if b = Eps then a' else Seq a' b, g'', q))
                       (parse_seq n g' r'))))"
| "parse_atom 0 g s = None"
| "parse_atom (Suc n) g s =
     (case s of
        [] \<Rightarrow> None
      | c # cs \<Rightarrow>
          if c = CHR ''('' then
            (let k = (if startswith cs ''?:'' then 2 else if startswith cs ''?='' then 2
                      else if startswith cs ''?!'' then 2 else 0) in
             (case parse_alt n (if k = 0 then Suc g else g) (drop k cs) of
                Some (a, g', d # r) \<Rightarrow>
                  if d \<noteq> CHR '')'' then None
                  else if startswith cs ''?:'' then Some (a, g', r)
                  else if startswith cs ''?='' then Some (Look True a, g', r)
                  else if startswith cs ''?!'' then Some (Look False a, g', r)
                  else Some (Grp (Suc g) a, g', r)
              | _ \<Rightarrow> None))
          else if c = CHR ''['' then
            (let neg = startswith cs ''^''; body = (if neg then drop 1 cs else cs) in
             map_option (\<lambda>(is, r). (Cls neg is, g, r)) (parse_items (Suc (length body)) True body))
          else if c = CHR 0x5C then
            (case cs of
               [] \<Rightarrow> None
             | d # r \<Rightarrow>
                 if d = CHR ''b'' then Some (WordB True, g, r)
                 else if d = CHR ''B'' then Some (WordB False, g, r)
                 else if is_digit d \<and> d \<noteq> CHR ''0'' then Some (Backref (of_char d - 48), g, r)
                 else map_option (\<lambda>i. (Cls False [i], g, r)) (esc_class d))
          else if c = CHR ''.'' then Some (AnyC, g, cs)
          else if c = CHR ''^'' then Some (Bol, g, cs)
          else if c = CHR ''$'' then Some (Eol, g, cs)
          else if c = CHR ''*'' \<or> c = CHR ''+'' \<or> c = CHR ''?'' then None
          else Some (Cls False [One c], g, cs))"

text \<open>\<open>re.compile\<close>; \<open>None\<close> is \<open>re.error\<close>. A leading \<open>(?i)\<close> sets the flag.\<close>

definition re_compile :: "flags \<Rightarrow> string \<Rightarrow> (flags \<times> re) option" where
  "re_compile f p =
     (let (f', p') = (if startswith p ''(?i)'' then (f\<lparr>ignore_case := True\<rparr>, drop 4 p) else (f, p)) in
      case parse_alt (3 * length p' + 3) 0 p' of
        Some (a, g, []) \<Rightarrow> Some (f', a)
      | _ \<Rightarrow> None)"

section \<open>Match objects and the operations of the module\<close>

record pymatch =
  m_start :: nat
  m_end :: nat
  m_text :: string
  m_groups :: "(nat \<times> nat \<times> string) list"

definition mk_match :: "mst \<Rightarrow> mst \<Rightarrow> pymatch" where
  "mk_match s s' = \<lparr>m_start = mst_pos s, m_end = mst_pos s',
     m_text = take (mst_pos s' - mst_pos s) (mst_rest s), m_groups = mst_caps s'\<rparr>"

definition group :: "pymatch \<Rightarrow> nat \<Rightarrow> string option" where
  "group m n = (if n = 0 then Some (m_text m) else map_option snd (map_of (m_groups m) n))"

text \<open>The text of a group; the empty text for a group that took no part in the match.\<close>

definition grp :: "pymatch \<Rightarrow> nat \<Rightarrow> string" where
  "grp m n = (case group m n of None \<Rightarrow> [] | Some t \<Rightarrow> t)"

definition group_start :: "pymatch \<Rightarrow> nat \<Rightarrow> int" where
  "group_start m n =
     (if n = 0 then int (m_start m)
      else (case map_of (m_groups m) n of None \<Rightarrow> -1 | Some (i, t) \<Rightarrow> int i))"

definition match_at :: "flags \<Rightarrow> re \<Rightarrow> mst \<Rightarrow> pymatch option" where
  "match_at f r s = map_option (mk_match s) (mt f r s Some)"

fun search_from :: "flags \<Rightarrow> re \<Rightarrow> char option \<Rightarrow> string \<Rightarrow> nat \<Rightarrow> pymatch option" where
  "search_from f r p [] i = match_at f r (MS p [] i [])"
| "search_from f r p (c # cs) i =
     (case match_at f r (MS p (c # cs) i []) of
        None \<Rightarrow> search_from f r (Some c) cs (Suc i)
      | Some m \<Rightarrow> Some m)"

text \<open>All matches from left to right without overlap; \<open>k\<close> is the text still to be skipped.\<close>

fun finditer_from :: "flags \<Rightarrow> re \<Rightarrow> char option \<Rightarrow> string \<Rightarrow> nat \<Rightarrow> nat \<Rightarrow> pymatch list" where
  "finditer_from f r p [] i k =
     (if k = 0 then (case match_at f r (MS p [] i []) of None \<Rightarrow> [] | Some m \<Rightarrow> [m]) else [])"
| "finditer_from f r p (c # cs) i (Suc k) = finditer_from f r (Some c) cs (Suc i) k"
| "finditer_from f r p (c # cs) i 0 =
     (case match_at f r (MS p (c # cs) i []) of
        None \<Rightarrow> finditer_from f r (Some c) cs (Suc i) 0
      | Some m \<Rightarrow> m # finditer_from f r (Some c) cs (Suc i) (length (m_text m) - 1))"

fun sub_from :: "flags \<Rightarrow> re \<Rightarrow> (pymatch \<Rightarrow> string) \<Rightarrow> char option \<Rightarrow> string \<Rightarrow> nat \<Rightarrow> nat \<Rightarrow> string" where
  "sub_from f r h p [] i k =
     (if k = 0 then (case match_at f r (MS p [] i []) of None \<Rightarrow> [] | Some m \<Rightarrow> h m) else [])"
| "sub_from f r h p (c # cs) i (Suc k) = sub_from f r h (Some c) cs (Suc i) k"
| "sub_from f r h p (c # cs) i 0 =
     (case match_at f r (MS p (c # cs) i []) of
        None \<Rightarrow> c # sub_from f r h (Some c) cs (Suc i) 0
      | Some m \<Rightarrow>
          if m_text m = [] then h m @ c # sub_from f r h (Some c) cs (Suc i) 0
          else h m @ sub_from f r h (Some c) cs (Suc i) (length (m_text m) - 1))"

text \<open>A replacement text: a backslash and a digit stand for the group, all else for itself.\<close>

fun expand_template :: "string \<Rightarrow> pymatch \<Rightarrow> string" where
  "expand_template [] m = []"
| "expand_template (c # cs) m =
     (case cs of
        d # ds \<Rightarrow> if c = CHR 0x5C \<and> is_digit d then grp m (of_char d - 48) @ expand_template ds m
                  else c # expand_template cs m
      | [] \<Rightarrow> [c])"

section \<open>Match, Search and ReplaceAll\<close>

definition re_match :: "flags \<times> re \<Rightarrow> string \<Rightarrow> pymatch option" where
  "re_match fr s = match_at (fst fr) (snd fr) (MS None s 0 [])"

definition re_search :: "flags \<times> re \<Rightarrow> string \<Rightarrow> pymatch option" where
  "re_search fr s = search_from (fst fr) (snd fr) None s 0"

definition re_sub :: "flags \<times> re \<Rightarrow> string \<Rightarrow> string \<Rightarrow> string" where
  "re_sub fr t s = sub_from (fst fr) (snd fr) (expand_template t) None s 0 0"

definition re_finditer :: "flags \<times> re \<Rightarrow> string \<Rightarrow> pymatch list" where
  "re_finditer fr s = finditer_from (fst fr) (snd fr) None s 0 0"

text \<open>
  The wrappers on a pattern text, without the cache: what every check of the sources calls.
  A text that does not compile gives no match here; the cached versions below raise on it.
\<close>

definition Match :: "string \<Rightarrow> string \<Rightarrow> pymatch option" where
  "Match p s = (case re_compile no_flags p of None \<Rightarrow> None | Some fr \<Rightarrow> re_match fr s)"

definition Search :: "string \<Rightarrow> string \<Rightarrow> pymatch option" where
  "Search p s = (case re_compile no_flags p of None \<Rightarrow> None | Some fr \<Rightarrow> re_search fr s)"

definition ReplaceAll :: "string \<Rightarrow> string \<Rightarrow> string \<Rightarrow> string" where
  "ReplaceAll p t s = (case re_compile no_flags p of None \<Rightarrow> s | Some fr \<Rightarrow> re_sub fr t s)"

definition SearchF :: "flags \<Rightarrow> string \<Rightarrow> string \<Rightarrow> pymatch option" where
  "SearchF f p s = (case re_compile f p of None \<Rightarrow> None | Some fr \<Rightarrow> re_search fr s)"

definition is_match :: "string \<Rightarrow> string \<Rightarrow> bool" where
  "is_match p s \<longleftrightarrow> Match p s \<noteq> None"

definition is_found :: "string \<Rightarrow> string \<Rightarrow> bool" where
  "is_found p s \<longleftrightarrow> Search p s \<noteq> None"

type_synonym regexp_cache = "string \<rightharpoonup> flags \<times> re"

definition with_compiled ::
    "regexp_cache \<Rightarrow> string \<Rightarrow> (flags \<times> re \<Rightarrow> 'a) \<Rightarrow> ('a \<times> regexp_cache) result" where
  "with_compiled c p use =
     (case c p of
        Some fr \<Rightarrow> Inr (use fr, c)
      | None \<Rightarrow> (case re_compile no_flags p of
           None \<Rightarrow> Inl (ValueError ''re.error'')
         | Some fr \<Rightarrow> Inr (use fr, c(p \<mapsto> fr))))"

definition Match_cached :: "regexp_cache \<Rightarrow> string \<Rightarrow> string \<Rightarrow> (pymatch option \<times> regexp_cache) result" where
  "Match_cached c p s = with_compiled c p (\<lambda>fr. re_match fr s)"

definition ReplaceAll_cached ::
    "regexp_cache \<Rightarrow> string \<Rightarrow> string \<Rightarrow> string \<Rightarrow> (string \<times> regexp_cache) result" where
  "ReplaceAll_cached c p t s = with_compiled c p (\<lambda>fr. re_sub fr t s)"

definition Search_cached :: "regexp_cache \<Rightarrow> string \<Rightarrow> string \<Rightarrow> (pymatch option \<times> regexp_cache) result" where
  "Search_cached c p s = with_compiled c p (\<lambda>fr. re_search fr s)"

text \<open>The invariant of the cache: an entry is the compiled form of its key.\<close>

definition cache_ok :: "regexp_cache \<Rightarrow> bool" where
  "cache_ok c \<longleftrightarrow> (\<forall>p fr. c p = Some fr \<longrightarrow> re_compile no_flags p = Some fr)"

lemma cache_ok_empty: "cache_ok Map.empty"
  by (simp add: cache_ok_def)

lemma with_compiled_ok:
  assumes "cache_ok c" and "re_compile no_flags p = Some fr"
  shows "\<exists>c'. with_compiled c p use = Inr (use fr, c') \<and> cache_ok c'"
  using assms by (auto simp: with_compiled_def cache_ok_def split: option.splits)

datatype re_call = CallMatch string string | CallSearch string string | CallReplace string string string
datatype re_value = MatchValue "pymatch option" | TextValue string

fun call_pattern :: "re_call \<Rightarrow> string" where
  "call_pattern (CallMatch p s) = p"
| "call_pattern (CallSearch p s) = p"
| "call_pattern (CallReplace p t s) = p"

fun call_pure :: "re_call \<Rightarrow> re_value" where
  "call_pure (CallMatch p s) = MatchValue (Match p s)"
| "call_pure (CallSearch p s) = MatchValue (Search p s)"
| "call_pure (CallReplace p t s) = TextValue (ReplaceAll p t s)"

fun call_cached :: "regexp_cache \<Rightarrow> re_call \<Rightarrow> (re_value \<times> regexp_cache) result" where
  "call_cached c (CallMatch p s) = map_sum id (map_prod MatchValue id) (Match_cached c p s)"
| "call_cached c (CallSearch p s) = map_sum id (map_prod MatchValue id) (Search_cached c p s)"
| "call_cached c (CallReplace p t s) = map_sum id (map_prod TextValue id) (ReplaceAll_cached c p t s)"

fun run_calls :: "regexp_cache \<Rightarrow> re_call list \<Rightarrow> re_value list result" where
  "run_calls c [] = Inr []"
| "run_calls c (x # xs) =
     bind_result (call_cached c x) (\<lambda>(v, c'). bind_result (run_calls c' xs) (\<lambda>vs. Inr (v # vs)))"

lemma call_cached_pure:
  assumes "cache_ok c" and "re_compile no_flags (call_pattern x) \<noteq> None"
  shows "\<exists>c'. call_cached c x = Inr (call_pure x, c') \<and> cache_ok c'"
proof -
  from assms(2) obtain fr where fr: "re_compile no_flags (call_pattern x) = Some fr" by auto
  have hit: "c (call_pattern x) = Some y \<Longrightarrow> y = fr" for y
    using assms(1) fr unfolding cache_ok_def by (metis option.inject)
  show ?thesis
    using assms(1) fr hit
    by (cases x; cases "c (call_pattern x)")
       (auto simp: with_compiled_def Match_cached_def Search_cached_def ReplaceAll_cached_def
          Match_def Search_def ReplaceAll_def cache_ok_def)
qed

text \<open>Sharing compiled patterns between calls never changes the value of a call.\<close>

lemma run_calls_from:
  assumes "cache_ok c" and "\<forall>x \<in> set xs. re_compile no_flags (call_pattern x) \<noteq> None"
  shows "run_calls c xs = Inr (map call_pure xs)"
  using assms
proof (induction xs arbitrary: c)
  case Nil
  then show ?case by simp
next
  case (Cons x xs)
  then obtain c' where "call_cached c x = Inr (call_pure x, c')" "cache_ok c'"
    using call_cached_pure [of c x] by auto
  with Cons show ?case by simp
qed

section \<open>Facts about match results\<close>

lemma mt_Some: "mt f r s Some = (case runs f r s of [] \<Rightarrow> None | x # _ \<Rightarrow> Some x)"
  by (simp add: mt_first_run first_some_Some)

lemma match_at_SomeD:
  assumes "match_at f r s = Some m"
  shows "\<exists>s'. s' \<in> set (runs f r s) \<and> seg s s' \<and> m = mk_match s s'"
proof -
  from assms obtain x xs where x: "runs f r s = x # xs" "m = mk_match s x"
    by (auto simp: match_at_def mt_Some split: list.splits)
  then have "x \<in> set (runs f r s)" by simp
  with x(2) show ?thesis by (blast intro: seg_runs)
qed

text \<open>The text of a match is the segment of the subject between its two positions.\<close>

definition match_in :: "pymatch \<Rightarrow> string \<Rightarrow> bool" where
  "match_in m s \<longleftrightarrow> m_start m \<le> m_end m \<and> m_end m \<le> length s
     \<and> m_text m = take (m_end m - m_start m) (drop (m_start m) s)"

lemma match_at_in:
  assumes "match_at f r (MS p (drop i s) i cs) = Some m" and "i \<le> length s"
  shows "match_in m s \<and> m_start m = i"
proof -
  from match_at_SomeD [OF assms(1)] obtain s' where
    sg: "seg (MS p (drop i s) i cs) s'" and m: "m = mk_match (MS p (drop i s) i cs) s'" by blast
  from sg have "\<exists>t. drop i s = t @ mst_rest s' \<and> mst_pos s' = i + length t"
    by (auto simp: seg_def)
  then obtain t where t: "drop i s = t @ mst_rest s'" "mst_pos s' = i + length t" by blast
  from t(1) have "length t \<le> length s - i" by (metis length_append length_drop le_add1)
  with t m assms(2) show ?thesis by (simp add: match_in_def mk_match_def)
qed

lemma search_from_in:
  assumes "search_from f r p (drop i s) i = Some m" and "i \<le> length s"
  shows "match_in m s"
  using assms
proof (induction "length s - i" arbitrary: i p)
  case 0
  then have "drop i s = []" by simp
  with 0 show ?case using match_at_in [of f r p i s "[]" m] by simp
next
  case (Suc n)
  then obtain c where c: "drop i s = c # drop (Suc i) s" and i: "i < length s"
    by (metis Cons_nth_drop_Suc zero_less_Suc zero_less_diff)
  show ?case
  proof (cases "match_at f r (MS p (drop i s) i [])")
    case None
    with Suc.prems c have "search_from f r (Some c) (drop (Suc i) s) (Suc i) = Some m" by simp
    with Suc i show ?thesis by (metis Suc_leI diff_Suc_1 diff_Suc_eq_diff_pred diff_diff_left plus_1_eq_Suc add.commute)
  next
    case (Some m')
    with Suc.prems c have "m' = m" by simp
    with Some Suc.prems show ?thesis using match_at_in by blast
  qed
qed

lemma Search_in: "Search p s = Some m \<Longrightarrow> match_in m s"
  using search_from_in [where i = 0]
  by (auto simp: Search_def re_search_def split: option.splits)

lemma Match_in: "Match p s = Some m \<Longrightarrow> match_in m s \<and> m_start m = 0"
  using match_at_in [where i = 0]
  by (auto simp: Match_def re_match_def split: option.splits)

section \<open>Escaping\<close>

definition escaped_chars :: string where
  "escaped_chars = ''()[]{}?*+-|^$.&~# '' @ [CHR 0x5C, CHR 0x09, CHR 0x0A, CHR 0x0D, CHR 0x0B, CHR 0x0C]"

definition re_escape :: "string \<Rightarrow> string" where
  "re_escape s = concat (map (\<lambda>c. if c \<in> set escaped_chars then [CHR 0x5C, c] else [c]) s)"

text \<open>The expression that matches exactly the text \<open>s\<close>.\<close>

fun lits :: "string \<Rightarrow> re" where
  "lits [] = Eps"
| "lits (c # cs) = (if cs = [] then Cls False [One c] else Seq (Cls False [One c]) (lits cs))"

lemma lits_Eps_iff [simp]: "lits s = Eps \<longleftrightarrow> s = []"
  by (cases s) auto

lemma escaped_not_alnum_all:
  "list_all (\<lambda>c. esc_class c = Some (One c) \<and> c \<noteq> CHR ''b'' \<and> c \<noteq> CHR ''B'' \<and> \<not> is_digit c) escaped_chars"
  by code_simp

lemma escaped_not_alnum:
  "c \<in> set escaped_chars \<Longrightarrow> esc_class c = Some (One c) \<and> c \<noteq> CHR ''b'' \<and> c \<noteq> CHR ''B'' \<and> \<not> is_digit c"
  using escaped_not_alnum_all unfolding list_all_iff by blast

lemma parse_quant_escape: "parse_quant (re_escape s) = None"
  by (cases s) (auto simp: re_escape_def parse_quant_def escaped_chars_def)

lemma parse_atom_escape:
  assumes "0 < n"
  shows "parse_atom n g (re_escape (c # cs)) = Some (Cls False [One c], g, re_escape cs)"
proof (cases "c \<in> set escaped_chars")
  case True
  then show ?thesis using assms escaped_not_alnum [OF True]
    by (cases n) (simp_all add: re_escape_def)
next
  case False
  then show ?thesis using assms
    by (cases n) (simp_all add: re_escape_def escaped_chars_def)
qed

lemma hd_escape: "re_escape (c # cs) = d # q \<Longrightarrow> d \<noteq> CHR ''|'' \<and> d \<noteq> CHR '')''"
  by (auto simp: re_escape_def escaped_chars_def split: if_splits)

lemma re_escape_Cons_ne: "re_escape (c # cs) \<noteq> []"
  by (simp add: re_escape_def)

lemma parse_seq_escape:
  "length s + 1 < n \<Longrightarrow> parse_seq n g (re_escape s) = Some (lits s, g, [])"
proof (induction s arbitrary: n)
  case Nil
  then show ?case by (cases n) (simp_all add: re_escape_def)
next
  case (Cons c cs)
  then obtain m where n: "n = Suc m" "length cs + 1 < m" by (cases n) auto
  obtain d q where dq: "re_escape (c # cs) = d # q" using re_escape_Cons_ne by (cases "re_escape (c # cs)") auto
  have "parse_atom m g (re_escape (c # cs)) = Some (Cls False [One c], g, re_escape cs)"
    using n by (intro parse_atom_escape) simp
  with Cons.IH [OF n(2)] hd_escape [OF dq] show ?case
    by (simp add: n dq quantify_def parse_quant_escape)
qed

lemma length_le_escape: "length s \<le> length (re_escape s)"
  by (induction s) (auto simp: re_escape_def)

lemma startswith_escape: "\<not> startswith (re_escape s) ''(?i)''"
  by (cases s) (auto simp: re_escape_def startswith_def escaped_chars_def)

theorem re_compile_escape: "re_compile no_flags (re_escape s) = Some (no_flags, lits s)"
proof -
  obtain k where k: "3 * length (re_escape s) + 3 = Suc k" by simp
  then have "length s + 1 < k" using length_le_escape [of s] by simp
  then show ?thesis
    by (simp add: re_compile_def startswith_escape k parse_seq_escape del: parse_alt.simps)
       (simp add: parse_seq_escape)
qed

lemma mt_lits_Cons: "mt f (lits (c # s)) st k = mt f (Cls False [One c]) st (\<lambda>st'. mt f (lits s) st' k)"
  by (cases s) simp_all

lemma startswith_Cons: "startswith t (c # s) \<longleftrightarrow> (\<exists>t'. t = c # t' \<and> startswith t' s)"
  by (cases t) (auto simp: startswith_def)

lemma startswith_Nil [simp]: "startswith t []"
  by (simp add: startswith_def)

lemma mt_lits:
  "mt no_flags (lits s) (MS p t i cs) k =
     (if startswith t s
      then k (MS (if s = [] then p else Some (last s)) (drop (length s) t) (i + length s) cs) else None)"
proof (induction s arbitrary: p t i)
  case Nil
  then show ?case by simp
next
  case (Cons c s)
  show ?case
  proof (cases t)
    case Nil
    then show ?thesis by (simp add: mt_lits_Cons startswith_Cons del: lits.simps)
  next
    case (Cons d t')
    then show ?thesis
      by (simp add: mt_lits_Cons startswith_Cons Cons.IH in_cls_def no_flags_def [symmetric] del: lits.simps)
         (auto simp: no_flags_def)
  qed
qed

text \<open>An escaped text is the pattern of exactly that text.\<close>

lemma re_escape_exact:
  "Match (re_escape t) s =
     (if startswith s t then Some \<lparr>m_start = 0, m_end = length t, m_text = t, m_groups = []\<rparr> else None)"
  by (auto simp: Match_def re_compile_escape re_match_def match_at_def mt_lits mk_match_def startswith_def)

declare runs.simps [simp del]

section \<open>Properties\<close>

text \<open>C28. The cache of compiled patterns is transparent: any sequence of calls of the three
  wrappers that starts with the empty cache returns, call by call, the values of the uncached
  calls, when every pattern compiles.\<close>

theorem regexp_cache_transparent:
  assumes "\<forall>x \<in> set calls. re_compile no_flags (call_pattern x) \<noteq> None"
  shows "run_calls Map.empty calls = Inr (map call_pure calls)"
  using cache_ok_empty assms by (rule run_calls_from)

theorem regexp_cache_transparent_witness:
  "run_calls Map.empty [CallMatch ''a*b'' ''aab'', CallSearch ''b'' ''cab'', CallMatch ''a*b'' ''c''] =
     Inr (map call_pure [CallMatch ''a*b'' ''aab'', CallSearch ''b'' ''cab'', CallMatch ''a*b'' ''c''])"
proof -
  have "re_compile no_flags ''a*b'' \<noteq> None" by code_simp
  moreover have "re_compile no_flags ''b'' \<noteq> None" by code_simp
  ultimately show ?thesis by (intro regexp_cache_transparent) simp
qed

end
