(* ===== verification/Tables.thy ===== *)
theory Tables
  imports PyRegex
begin

text \<open>
  The constant tables of \<open>cpplint.py\<close>: error categories, default filters, C++ headers, assertion
  macros and their replacements, alternative tokens, thread-unsafe functions, and the pattern
  texts built from them.
\<close>

definition ERROR_CATEGORIES :: "string list" where
  \<open>ERROR_CATEGORIES =
  [''build/class'', ''build/c++11'', ''build/c++14'', ''build/c++tr1'', ''build/deprecated'',
   ''build/endif_comment'', ''build/explicit_make_pair'', ''build/forward_decl'',
   ''build/header_guard'', ''build/include'', ''build/include_subdir'',
   ''build/include_alpha'', ''build/include_order'', ''build/include_what_you_use'',
   ''build/namespaces_literals'', ''build/namespaces'', ''build/printf_format'',
   ''build/storage_class'', ''legal/copyright'', ''readability/alt_tokens'',
   ''readability/braces'', ''readability/casting'', ''readability/check'',
   ''readability/constructors'', ''readability/fn_size'', ''readability/inheritance'',
   ''readability/multiline_comment'', ''readability/multiline_string'',
   ''readability/namespace'', ''readability/nolint'', ''readability/nul'',
   ''readability/strings'', ''readability/todo'', ''readability/utf8'', ''runtime/arrays'',
   ''runtime/casting'', ''runtime/explicit'', ''runtime/int'', ''runtime/init'',
   ''runtime/invalid_increment'', ''runtime/member_string_references'', ''runtime/memset'',
   ''runtime/indentation_namespace'', ''runtime/operator'', ''runtime/printf'',
   ''runtime/printf_format'', ''runtime/references'', ''runtime/string'',
   ''runtime/threadsafe_fn'', ''runtime/vlog'', ''whitespace/blank_line'',
   ''whitespace/braces'', ''whitespace/comma'', ''whitespace/comments'',
   ''whitespace/empty_conditional_body'', ''whitespace/empty_if_body'',
   ''whitespace/empty_loop_body'', ''whitespace/end_of_line'', ''whitespace/ending_newline'',
   ''whitespace/forcolon'', ''whitespace/indent'', ''whitespace/line_length'',
   ''whitespace/newline'', ''whitespace/operators'', ''whitespace/parens'',
   ''whitespace/semicolon'', ''whitespace/tab'', ''whitespace/todo'']\<close>

definition LEGACY_ERROR_CATEGORIES :: "string list" where
  \<open>LEGACY_ERROR_CATEGORIES =
  [''readability/streams'', ''readability/function'']\<close>

definition DEFAULT_FILTERS :: "string list" where
  \<open>DEFAULT_FILTERS =
  [''-build/include_alpha'']\<close>

definition DEFAULT_C_SUPPRESSED_CATEGORIES :: "string list" where
  \<open>DEFAULT_C_SUPPRESSED_CATEGORIES =
  [''readability/casting'']\<close>

definition DEFAULT_KERNEL_SUPPRESSED_CATEGORIES :: "string list" where
  \<open>DEFAULT_KERNEL_SUPPRESSED_CATEGORIES =
  [''whitespace/tab'']\<close>

definition CPP_HEADERS :: "string list" where
  \<open>CPP_HEADERS =
  [''algobase.h'', ''algo.h'', ''alloc.h'', ''builtinbuf.h'', ''bvector.h'', ''complex.h'',
   ''defalloc.h'', ''deque.h'', ''editbuf.h'', ''fstream.h'', ''function.h'', ''hash_map'',
   ''hash_map.h'', ''hash_set'', ''hash_set.h'', ''hashtable.h'', ''heap.h'', ''indstream.h'',
   ''iomanip.h'', ''iostream.h'', ''istream.h'', ''iterator.h'', ''list.h'', ''map.h'',
   ''multimap.h'', ''multiset.h'', ''ostream.h'', ''pair.h'', ''parsestream.h'',
   ''pfstream.h'', ''procbuf.h'', ''pthread_alloc'', ''pthread_alloc.h'', ''rope'',
   ''rope.h'', ''ropeimpl.h'', ''set.h'', ''slist'', ''slist.h'', ''stack.h'',
   ''stdiostream.h'', ''stl_alloc.h'', ''stl_relops.h'', ''streambuf.h'', ''stream.h'',
   ''strfile.h'', ''strstream.h'', ''tempbuf.h'', ''tree.h'', ''type_traits.h'', ''vector.h'',
   ''algorithm'', ''array'', ''atomic'', ''bitset'', ''chrono'', ''codecvt'', ''complex'',
   ''condition_variable'', ''deque'', ''exception'', ''forward_list'', ''fstream'',
   ''functional'', ''future'', ''initializer_list'', ''iomanip'', ''ios'', ''iosfwd'',
   ''iostream'', ''istream'', ''iterator'', ''limits'', ''list'', ''locale'', ''map'',
   ''memory'', ''mutex'', ''new'', ''numeric'', ''ostream'', ''queue'', ''random'', ''ratio'',
   ''regex'', ''scoped_allocator'', ''set'', ''sstream'', ''stack'', ''stdexcept'',
   ''streambuf'', ''string'', ''strstream'', ''system_error'', ''thread'', ''tuple'',
   ''typeindex'', ''typeinfo'', ''type_traits'', ''unordered_map'', ''unordered_set'',
   ''utility'', ''valarray'', ''vector'', ''shared_mutex'', ''any'', ''charconv'',
   ''codecvt'', ''execution'', ''filesystem'', ''memory_resource'', ''optional'',
   ''string_view'', ''variant'', ''cassert'', ''ccomplex'', ''cctype'', ''cerrno'', ''cfenv'',
   ''cfloat'', ''cinttypes'', ''ciso646'', ''climits'', ''clocale'', ''cmath'', ''csetjmp'',
   ''csignal'', ''cstdalign'', ''cstdarg'', ''cstdbool'', ''cstddef'', ''cstdint'',
   ''cstdio'', ''cstdlib'', ''cstring'', ''ctgmath'', ''ctime'', ''cuchar'', ''cwchar'',
   ''cwctype'']\<close>

definition TEST_SUFFIXES :: "string list" where
  \<open>TEST_SUFFIXES =
  [''_test'', ''_regtest'', ''_unittest'']\<close>

definition CHECK_MACROS :: "string list" where
  \<open>CHECK_MACROS =
  [''DCHECK'', ''CHECK'', ''EXPECT_TRUE'', ''ASSERT_TRUE'', ''EXPECT_FALSE'', ''ASSERT_FALSE'']\<close>


text \<open>\<open>_CHECK_REPLACEMENT\<close> is filled by two loops over operators; a missing key is \<open>None\<close>.\<close>

definition check_ops :: "(string \<times> string) list" where
  "check_ops = [(''=='', ''EQ''), (''!='', ''NE''), (''>='', ''GE''), (''>'', ''GT''),
     (''<='', ''LE''), (''<'', ''LT'')]"

definition check_inv_ops :: "(string \<times> string) list" where
  "check_inv_ops = [(''=='', ''NE''), (''!='', ''EQ''), (''>='', ''LT''), (''>'', ''LE''),
     (''<='', ''GT''), (''<'', ''GE'')]"

definition CHECK_REPLACEMENT :: "string \<Rightarrow> string \<Rightarrow> string option" where
  "CHECK_REPLACEMENT macro oper =
     (if macro = ''DCHECK'' then map_option (\<lambda>r. ''DCHECK_'' @ r) (map_of check_ops oper)
      else if macro = ''CHECK'' then map_option (\<lambda>r. ''CHECK_'' @ r) (map_of check_ops oper)
      else if macro = ''EXPECT_TRUE'' then map_option (\<lambda>r. ''EXPECT_'' @ r) (map_of check_ops oper)
      else if macro = ''ASSERT_TRUE'' then map_option (\<lambda>r. ''ASSERT_'' @ r) (map_of check_ops oper)
      else if macro = ''EXPECT_FALSE'' then map_option (\<lambda>r. ''EXPECT_'' @ r) (map_of check_inv_ops oper)
      else if macro = ''ASSERT_FALSE'' then map_option (\<lambda>r. ''ASSERT_'' @ r) (map_of check_inv_ops oper)
      else None)"

definition ALT_TOKEN_REPLACEMENT :: "(string \<times> string) list" where
  "ALT_TOKEN_REPLACEMENT =
     [(''and'', ''&&''), (''bitor'', ''|''), (''or'', ''||''), (''xor'', ''^''), (''compl'', ''~''),
      (''bitand'', ''&''), (''and_eq'', ''&=''), (''or_eq'', ''|=''), (''xor_eq'', ''^=''),
      (''not'', ''!''), (''not_eq'', ''!='')]"

definition ALT_TOKEN_REPLACEMENT_PATTERN :: string where
  \<open>ALT_TOKEN_REPLACEMENT_PATTERN =
     ''[ =()]('' @ join_with ''|'' (map fst ALT_TOKEN_REPLACEMENT) @ '')(?=[ (]|$)''\<close>

definition TYPES :: string where
  \<open>TYPES = ''^(?:(char(16_t|32_t)?)|wchar_t|bool|short|int|long|signed|unsigned|float|double|''
     @ ''(ptrdiff_t|size_t|max_align_t|nullptr_t)|(u?int(_fast|_least)?(8|16|32|64)_t)|''
     @ ''(u?int(max|ptr)_t)|)$''\<close>

definition THIRD_PARTY_HEADERS_PATTERN :: string where
  \<open>THIRD_PARTY_HEADERS_PATTERN = rx ''^(?:[^/]*[A-Z][^/]*`.h|lua`.h|lauxlib`.h|lualib`.h)$''\<close>

definition TEST_FILE_SUFFIX :: string where
  \<open>TEST_FILE_SUFFIX = ''('' @ join_with ''|'' TEST_SUFFIXES @ '')$''\<close>

definition EMPTY_CONDITIONAL_BODY_PATTERN :: string where
  \<open>EMPTY_CONDITIONAL_BODY_PATTERN = rx ''^`s*$''\<close>

definition MATCH_ASM :: string where
  \<open>MATCH_ASM = rx ''^`s*(?:asm|_asm|__asm|__asm__)(?:`s+(volatile|__volatile__))?`s*[{(]''\<close>

definition SEARCH_C_FILE :: string where
  \<open>SEARCH_C_FILE = rx ''`b(?:LINT_C_FILE|vim?:`s*.*(`s*|:)filetype=c(`s*|:|$))''\<close>

definition SEARCH_KERNEL_FILE :: string where
  \<open>SEARCH_KERNEL_FILE = rx ''`b(?:LINT_KERNEL_FILE)''\<close>

definition RE_PATTERN_INCLUDE :: string where
  \<open>RE_PATTERN_INCLUDE = rx ''^`s*#`s*include`s*([<"])([^>"]*)[>"].*$''\<close>

definition RE_FIRST_COMPONENT :: string where
  \<open>RE_FIRST_COMPONENT = ''^[^-_.]+''\<close>

definition UNSAFE_FUNC_PREFIX :: string where
  \<open>UNSAFE_FUNC_PREFIX = rx ''(?:[-+*/=%^&|(<]`s*|>`s+)''\<close>

definition THREADING_LIST :: "(string \<times> string \<times> string) list" where
  \<open>THREADING_LIST =
     map (\<lambda>(single_thread_func, args).
            (single_thread_func @ ''('', single_thread_func @ ''_r('',
             UNSAFE_FUNC_PREFIX @ single_thread_func @ args))
       [(''asctime'', rx ''`([^)]+`)''), (''ctime'', rx ''`([^)]+`)''), (''getgrgid'', rx ''`([^)]+`)''),
        (''getgrnam'', rx ''`([^)]+`)''), (''getlogin'', rx ''`(`)''), (''getpwnam'', rx ''`([^)]+`)''),
        (''getpwuid'', rx ''`([^)]+`)''), (''gmtime'', rx ''`([^)]+`)''), (''localtime'', rx ''`([^)]+`)''),
        (''rand'', rx ''`(`)''), (''strtok'', rx ''`([^)]+`)''), (''ttyname'', rx ''`([^)]+`)'')]\<close>

definition RE_PATTERN_INVALID_INCREMENT :: string where
  \<open>RE_PATTERN_INVALID_INCREMENT = rx ''^`s*`*`w+(`+`+|--);''\<close>

definition RE_PATTERN_CLEANSE_LINE_ESCAPES :: string where
  \<open>RE_PATTERN_CLEANSE_LINE_ESCAPES = rx ''``([abfnrtv?"```\']|`d+|x[0-9a-fA-F]+)''\<close>

definition RE_PATTERN_C_COMMENTS :: string where
  \<open>RE_PATTERN_C_COMMENTS = rx ''/`*(?:[^*]|`*(?!/))*`*/''\<close>

definition RE_PATTERN_CLEANSE_LINE_C_COMMENTS :: string where
  \<open>RE_PATTERN_CLEANSE_LINE_C_COMMENTS =
     rx ''(`s*'' @ RE_PATTERN_C_COMMENTS @ rx ''`s*$|''
     @ RE_PATTERN_C_COMMENTS @ rx ''`s+|''
     @ rx ''`s+'' @ RE_PATTERN_C_COMMENTS @ rx ''(?=`W)|''
     @ RE_PATTERN_C_COMMENTS @ '')''\<close>

text \<open>The compiled patterns of the module compile.\<close>

lemma module_patterns_compile:
  "list_all (\<lambda>p. re_compile no_flags p \<noteq> None)
     [ALT_TOKEN_REPLACEMENT_PATTERN, TYPES, THIRD_PARTY_HEADERS_PATTERN, TEST_FILE_SUFFIX,
      EMPTY_CONDITIONAL_BODY_PATTERN, MATCH_ASM, SEARCH_C_FILE, SEARCH_KERNEL_FILE,
      RE_PATTERN_INCLUDE, RE_FIRST_COMPONENT, UNSAFE_FUNC_PREFIX, RE_PATTERN_INVALID_INCREMENT,
      RE_PATTERN_CLEANSE_LINE_ESCAPES, RE_PATTERN_C_COMMENTS, RE_PATTERN_CLEANSE_LINE_C_COMMENTS]"
  by code_simp

lemma check_macros_complete:
  "list_all (\<lambda>m. list_all (\<lambda>oper. CHECK_REPLACEMENT m (fst oper) \<noteq> None) check_ops) CHECK_MACROS"
  by code_simp

end
