(* ===== verification/LintState.thy ===== *)
theory LintState
  imports Tables "HOL-Library.List_Lexorder" "HOL-Library.Char_ord"
begin

text \<open>
  The module state of \<open>cpplint.py\<close>: the class \<open>_CppLintState\<close> with all its operations, the NOLINT
  suppressions (\<open>_error_suppressions\<close> and \<open>_global_error_suppressions\<close>), the option globals
  (\<open>_valid_extensions\<close>, \<open>_hpp_headers\<close>, \<open>_root\<close>, \<open>_line_length\<close>, \<open>_quiet\<close>, \<open>_excludes\<close>) and the
  text written to the two output streams. An operation is a function on the record; one that can
  raise returns a result. Sets of extensions are lists without repetition (Python gives them no
  order); \<open>sys.stdout.write\<close> and \<open>sys.stderr.write\<close> append to \<open>out\<close> and \<open>err\<close>.

  The lemmas: every filter in force starts with a plus or a minus sign (\<open>filters_ok\<close>, which makes
  the assertion of \<open>_ShouldPrintError\<close> unreachable), the last matching filter decides, the counts
  by category add up to the total, and printing an error changes nothing but the reports.
\<close>

section \<open>State\<close>

record failure =
  fl_file :: string
  fl_line :: "int option"            \<comment> \<open>\<open>None\<close> is Python's \<open>None\<close>\<close>
  fl_message :: string
  fl_category :: string
  fl_confidence :: int

record lint =
  verbose_level :: int
  error_count :: int
  filters :: "string list"
  filters_backup :: "string list"
  counting :: string
  errors_by_category :: "(string \<times> int) list"
  quiet :: bool
  output_format :: string
  junit_errors :: "string list"
  junit_failures :: "failure list"
  error_suppressions :: "string option \<Rightarrow> int set"
  global_error_suppressions :: "string \<rightharpoonup> bool"
  valid_extensions :: "string list"
  hpp_headers :: "string list"
  root_dir :: "string option"
  repository :: "string option"
  excludes :: "string list option"
  quiet_flag :: bool                     \<comment> \<open>the module variable \<open>_quiet\<close>\<close>
  line_length :: int
  out :: string
  err :: string

definition CppLintState_init :: lint where
  "CppLintState_init =
     \<lparr>verbose_level = 1, error_count = 0, filters = DEFAULT_FILTERS, filters_backup = DEFAULT_FILTERS,
      counting = ''total'', errors_by_category = [], quiet = False, output_format = ''emacs'',
      junit_errors = [], junit_failures = [],
      error_suppressions = (\<lambda>_. {}), global_error_suppressions = Map.empty,
      valid_extensions = [], hpp_headers = [], root_dir = None, repository = None, excludes = None,
      quiet_flag = False, line_length = 80, out = [], err = []\<rparr>"

definition stdout_write :: "string \<Rightarrow> lint \<Rightarrow> lint" where
  "stdout_write t s = s\<lparr>out := out s @ t\<rparr>"

definition stderr_write :: "string \<Rightarrow> lint \<Rightarrow> lint" where
  "stderr_write t s = s\<lparr>err := err s @ t\<rparr>"

section \<open>Settings\<close>

definition SetOutputFormat :: "string \<Rightarrow> lint \<Rightarrow> lint" where
  "SetOutputFormat f s = s\<lparr>output_format := f\<rparr>"

definition SetQuiet :: "bool \<Rightarrow> lint \<Rightarrow> bool \<times> lint" where
  "SetQuiet q s = (let last_quiet = quiet s in (last_quiet, s\<lparr>quiet := q\<rparr>))"

definition SetVerboseLevel :: "int \<Rightarrow> lint \<Rightarrow> int \<times> lint" where
  "SetVerboseLevel level s =
     (let last_verbose_level = verbose_level s in (last_verbose_level, s\<lparr>verbose_level := level\<rparr>))"

definition SetCountingStyle :: "string \<Rightarrow> lint \<Rightarrow> lint" where
  "SetCountingStyle c s = s\<lparr>counting := c\<rparr>"

section \<open>Filters\<close>

definition signed_filter :: "string \<Rightarrow> bool" where
  "signed_filter f \<longleftrightarrow> startswith f ''+'' \<or> startswith f ''-''"

definition bad_filter_message :: "string \<Rightarrow> string" where
  "bad_filter_message f =
     ''Every filter in --filters must start with + or - ('' @ f @ '' does not)''"

text \<open>The first loop of \<open>AddFilters\<close> appends the stripped non-empty parts; the second validates.\<close>

fun append_filters :: "string list \<Rightarrow> string list \<Rightarrow> string list" where
  "append_filters [] fs = fs"
| "append_filters (filt # filts) fs =
     (let clean_filt = py_strip filt in
      append_filters filts (if clean_filt \<noteq> [] then fs @ [clean_filt] else fs))"

fun first_unsigned :: "string list \<Rightarrow> string option" where
  "first_unsigned [] = None"
| "first_unsigned (f # fs) = (if signed_filter f then first_unsigned fs else Some f)"

definition AddFilters :: "string \<Rightarrow> lint \<Rightarrow> lint result" where
  "AddFilters fs s =
     (let s' = s\<lparr>filters := append_filters (split_on (CHR '','') fs) (filters s)\<rparr> in
      case first_unsigned (filters s') of
        None \<Rightarrow> Inr s'
      | Some f \<Rightarrow> Inl (ValueError (bad_filter_message f)))"

definition SetFilters :: "string \<Rightarrow> lint \<Rightarrow> lint result" where
  "SetFilters fs s = AddFilters fs (s\<lparr>filters := DEFAULT_FILTERS\<rparr>)"

definition BackupFilters :: "lint \<Rightarrow> lint" where
  "BackupFilters s = s\<lparr>filters_backup := filters s\<rparr>"

definition RestoreFilters :: "lint \<Rightarrow> lint" where
  "RestoreFilters s = s\<lparr>filters := filters_backup s\<rparr>"

section \<open>Counting and printing\<close>

definition ResetErrorCounts :: "lint \<Rightarrow> lint" where
  "ResetErrorCounts s = s\<lparr>error_count := 0, errors_by_category := []\<rparr>"

definition count_key :: "lint \<Rightarrow> string \<Rightarrow> string" where
  "count_key s category =
     (if counting s \<noteq> ''detailed'' then hd (split_on (CHR ''/'') category) else category)"

definition IncrementErrorCount :: "string \<Rightarrow> lint \<Rightarrow> lint" where
  "IncrementErrorCount category s =
     (let s = s\<lparr>error_count := error_count s + 1\<rparr> in
      if counting s \<in> {''toplevel'', ''detailed''} then
        (let key = count_key s category;
             d = errors_by_category s;
             d = (if map_of d key = None then dict_set key 0 d else d)
         in s\<lparr>errors_by_category := dict_set key (the (map_of d key) + 1) d\<rparr>)
      else s)"

definition PrintInfo :: "string \<Rightarrow> lint \<Rightarrow> lint" where
  "PrintInfo message s =
     (if \<not> quiet_flag s \<and> output_format s \<noteq> ''junit'' then stdout_write message s else s)"

definition PrintError :: "string \<Rightarrow> lint \<Rightarrow> lint" where
  "PrintError message s =
     (if output_format s = ''junit'' then s\<lparr>junit_errors := junit_errors s @ [message]\<rparr>
      else stderr_write message s)"

definition AddJUnitFailure :: "string \<Rightarrow> int option \<Rightarrow> string \<Rightarrow> string \<Rightarrow> int \<Rightarrow> lint \<Rightarrow> lint" where
  "AddJUnitFailure filename linenum message category confidence s =
     s\<lparr>junit_failures := junit_failures s @
        [\<lparr>fl_file = filename, fl_line = linenum, fl_message = message,
          fl_category = category, fl_confidence = confidence\<rparr>]\<rparr>"

definition nl :: string where
  "nl = [CHR 0x0A]"

definition quote1 :: string where
  "quote1 = [CHR 0x27]"

definition category_line :: "string \<times> int \<Rightarrow> string" where
  "category_line ci =
     ''Category '' @ quote1 @ fst ci @ quote1 @ '' errors found: '' @ str_int (snd ci) @ nl"

definition PrintErrorCounts :: "lint \<Rightarrow> lint" where
  "PrintErrorCounts s =
     (let s = fold (\<lambda>ci. PrintInfo (category_line ci)) (sort_key fst (errors_by_category s)) s in
      if error_count s > 0
      then PrintInfo (''Total errors found: '' @ str_int (error_count s) @ nl) s else s)"

section \<open>JUnit output\<close>

text \<open>An element tree and its serialisation by \<open>xml.etree.ElementTree.tostring\<close>.\<close>

datatype xml = Elem (tag: string) (attrib: "(string \<times> string) list") (xtext: string) (children: "xml list")

definition xml_escape_text :: "string \<Rightarrow> string" where
  "xml_escape_text t = concat (map (\<lambda>c.
     if c = CHR ''&'' then ''&amp;'' else if c = CHR ''<'' then ''&lt;''
     else if c = CHR ''>'' then ''&gt;'' else [c]) t)"

definition xml_escape_attrib :: "string \<Rightarrow> string" where
  "xml_escape_attrib t = concat (map (\<lambda>c.
     if c = CHR ''&'' then ''&amp;'' else if c = CHR ''<'' then ''&lt;''
     else if c = CHR ''>'' then ''&gt;'' else if c = CHR 0x22 then ''&quot;''
     else if c = CHR 0x0A then ''&#10;'' else [c]) t)"

fun xml_string :: "xml \<Rightarrow> string" where
  "xml_string (Elem t as x cs) =
     ''<'' @ t @ concat (map (\<lambda>(k, v). '' '' @ k @ ''='' @ [CHR 0x22] @ xml_escape_attrib v @ [CHR 0x22]) as)
     @ (if x = [] \<and> cs = [] then '' />''
        else ''>'' @ xml_escape_text x @ concat (map xml_string cs) @ ''</'' @ t @ ''>'')"

text \<open>
  The loop that groups the failures by file: the order in which files are first seen, and a
  dictionary from file to its failures.
\<close>

definition group_step :: "failure \<Rightarrow> string list \<times> (string \<times> failure list) list \<Rightarrow>
    string list \<times> (string \<times> failure list) list" where
  "group_step f = (\<lambda>(ord, d).
     let file = fl_file f;
         (ord, d) = (if file \<notin> set ord then (ord @ [file], dict_set file [] d) else (ord, d))
     in (ord, dict_set file (the (map_of d file) @ [f]) d))"

definition junit_group :: "failure list \<Rightarrow> (string \<times> failure list) list" where
  "junit_group fs = (let (ord, d) = fold group_step fs ([], []) in map (\<lambda>n. (n, the (map_of d n))) ord)"

definition line_text :: "int option \<Rightarrow> string" where
  "line_text linenum = (case linenum of None \<Rightarrow> ''None'' | Some n \<Rightarrow> str_int n)"

definition failure_text :: "failure \<Rightarrow> string" where
  "failure_text f =
     line_text (fl_line f) @ '': '' @ fl_message f @ '' ['' @ fl_category f @ ''] ['' @
     str_int (fl_confidence f) @ '']''"

definition junit_tree :: "lint \<Rightarrow> xml" where
  "junit_tree s =
     (let num_errors = length (junit_errors s); num_failures = length (junit_failures s);
          head = [(''name'', ''cpplint''), (''errors'', str_nat num_errors),
                  (''failures'', str_nat num_failures)] in
      if num_errors = 0 \<and> num_failures = 0
      then Elem ''testsuite'' (head @ [(''tests'', ''1'')]) []
             [Elem ''testcase'' [(''name'', ''passed'')] [] []]
      else Elem ''testsuite'' (head @ [(''tests'', str_nat (num_errors + num_failures))]) []
             ((if num_errors > 0
               then [Elem ''testcase'' [(''name'', ''errors'')] []
                       [Elem ''error'' [] (join_with nl (junit_errors s)) []]]
               else []) @
              map (\<lambda>(n, fs). Elem ''testcase'' [(''name'', n)] []
                       [Elem ''failure'' [] (join_with nl (map failure_text fs)) []])
                  (junit_group (junit_failures s))))"

definition FormatJUnitXML :: "lint \<Rightarrow> string" where
  \<open>FormatJUnitXML s =
     ''<?xml version="1.0" encoding="UTF-8" ?>'' @ nl @ xml_string (junit_tree s)\<close>

section \<open>Suppressions\<close>

definition add_suppression :: "string option \<Rightarrow> int \<Rightarrow> lint \<Rightarrow> lint" where
  "add_suppression key line s =
     s\<lparr>error_suppressions := (error_suppressions s)(key := insert line (error_suppressions s key))\<rparr>"

definition ResetNolintSuppressions :: "lint \<Rightarrow> lint" where
  "ResetNolintSuppressions s =
     s\<lparr>error_suppressions := (\<lambda>_. {}), global_error_suppressions := Map.empty\<rparr>"

definition suppress_all :: "string list \<Rightarrow> lint \<Rightarrow> lint" where
  "suppress_all cats s =
     fold (\<lambda>c s. s\<lparr>global_error_suppressions := (global_error_suppressions s)(c \<mapsto> True)\<rparr>) cats s"

fun ProcessGlobalSuppresions :: "string list \<Rightarrow> lint \<Rightarrow> lint" where
  "ProcessGlobalSuppresions [] s = s"
| "ProcessGlobalSuppresions (line # lines) s =
     (let s = (if is_found SEARCH_C_FILE line then suppress_all DEFAULT_C_SUPPRESSED_CATEGORIES s else s);
          s = (if is_found SEARCH_KERNEL_FILE line
               then suppress_all DEFAULT_KERNEL_SUPPRESSED_CATEGORIES s else s)
      in ProcessGlobalSuppresions lines s)"

definition IsErrorSuppressedByNolint :: "string \<Rightarrow> int option \<Rightarrow> lint \<Rightarrow> bool" where
  "IsErrorSuppressedByNolint category linenum s \<longleftrightarrow>
     global_error_suppressions s category = Some True
     \<or> (case linenum of
          None \<Rightarrow> False
        | Some n \<Rightarrow> n \<in> error_suppressions s (Some category) \<or> n \<in> error_suppressions s None)"

section \<open>Reporting\<close>

text \<open>The loop over the filters: the verdict so far is overwritten by every filter that matches.\<close>

fun filter_verdict :: "string list \<Rightarrow> string \<Rightarrow> bool \<Rightarrow> bool result" where
  "filter_verdict [] category is_filtered = Inr is_filtered"
| "filter_verdict (one_filter # fs) category is_filtered =
     (if startswith one_filter ''-'' then
        filter_verdict fs category (if startswith category (drop 1 one_filter) then True else is_filtered)
      else if startswith one_filter ''+'' then
        filter_verdict fs category (if startswith category (drop 1 one_filter) then False else is_filtered)
      else Inl AssertionError)"

definition ShouldPrintError :: "string \<Rightarrow> int \<Rightarrow> int option \<Rightarrow> lint \<Rightarrow> bool result" where
  "ShouldPrintError category confidence linenum s =
     (if IsErrorSuppressedByNolint category linenum s then Inr False
      else if confidence < verbose_level s then Inr False
      else bind_result (filter_verdict (filters s) category False) (\<lambda>is_filtered. Inr (\<not> is_filtered)))"

definition Error :: "string \<Rightarrow> int option \<Rightarrow> string \<Rightarrow> int \<Rightarrow> string \<Rightarrow> lint \<Rightarrow> lint result" where
  "Error filename linenum category confidence message s =
     bind_result (ShouldPrintError category confidence linenum s) (\<lambda>p.
       if p then
         (let s = IncrementErrorCount category s in
          if output_format s = ''vs7'' then
            Inr (PrintError (filename @ ''('' @ line_text linenum @ ''): error cpplint: ['' @ category @
              ''] '' @ message @ '' ['' @ str_int confidence @ '']'' @ nl) s)
          else if output_format s = ''eclipse'' then
            Inr (stderr_write (filename @ '':'' @ line_text linenum @ '': warning: '' @ message @ ''  ['' @
              category @ ''] ['' @ str_int confidence @ '']'' @ nl) s)
          else if output_format s = ''junit'' then
            Inr (AddJUnitFailure filename linenum message category confidence s)
          else
            Inr (stderr_write (filename @ '':'' @ line_text linenum @ '':  '' @ message @ ''  ['' @
              category @ ''] ['' @ str_int confidence @ '']'' @ nl) s))
       else Inr s)"

definition ParseNolintSuppressions :: "string \<Rightarrow> string \<Rightarrow> int \<Rightarrow> lint \<Rightarrow> lint result" where
  \<open>ParseNolintSuppressions filename raw_line linenum s =
     (case Search (rx ''`bNOLINT(NEXTLINE)?`b(`([^)]+`))?'') raw_line of
        None \<Rightarrow> Inr s
      | Some matched \<Rightarrow>
          (let suppressed_line = (if grp matched 1 \<noteq> [] then linenum + 1 else linenum) in
           case group matched 2 of
             None \<Rightarrow> Inr (add_suppression None suppressed_line s)
           | Some category \<Rightarrow>
               if category = ''(*)'' then Inr (add_suppression None suppressed_line s)
               else if startswith category ''('' \<and> endswith category '')'' then
                 (let category = py_slice category 1 (-1) in
                  if category \<in> set ERROR_CATEGORIES
                  then Inr (add_suppression (Some category) suppressed_line s)
                  else if category \<notin> set LEGACY_ERROR_CATEGORIES
                  then Error filename (Some linenum) ''readability/nolint'' 5
                         (''Unknown NOLINT error category: '' @ category) s
                  else Inr s)
               else Inr s))\<close>

section \<open>The filters\<close>

definition filters_ok :: "lint \<Rightarrow> bool" where
  "filters_ok s \<longleftrightarrow> list_all signed_filter (filters s) \<and> list_all signed_filter (filters_backup s)"

lemma first_unsigned_None: "first_unsigned fs = None \<longleftrightarrow> list_all signed_filter fs"
  by (induction fs) auto

lemma filters_ok_init [keeps_inv]: "filters_ok CppLintState_init"
  by (simp add: filters_ok_def CppLintState_init_def DEFAULT_FILTERS_def signed_filter_def startswith_def)

lemma filters_ok_Backup [keeps_inv]: "filters_ok s \<Longrightarrow> filters_ok (BackupFilters s)"
  by (simp add: filters_ok_def BackupFilters_def)

lemma filters_ok_Restore [keeps_inv]: "filters_ok s \<Longrightarrow> filters_ok (RestoreFilters s)"
  by (simp add: filters_ok_def RestoreFilters_def)

lemma filters_ok_Add [keeps_inv]: "filters_ok s \<Longrightarrow> AddFilters fs s = Inr s' \<Longrightarrow> filters_ok s'"
  by (auto simp: AddFilters_def filters_ok_def Let_def first_unsigned_None split: option.splits)

lemma filters_ok_Set [keeps_inv]: "filters_ok s \<Longrightarrow> SetFilters fs s = Inr s' \<Longrightarrow> filters_ok s'"
  by (auto simp: SetFilters_def AddFilters_def filters_ok_def Let_def first_unsigned_None
      split: option.splits)

lemma append_filters_eq:
  "append_filters fs acc = acc @ filter (\<lambda>f. f \<noteq> []) (map py_strip fs)"
  by (induction fs arbitrary: acc) (auto simp: Let_def)

text \<open>The filter that decides: the last one that the category starts with.\<close>

definition decisive_filter :: "string list \<Rightarrow> string \<Rightarrow> string option" where
  "decisive_filter fs category = find (\<lambda>f. startswith category (drop 1 f)) (rev fs)"

lemma find_append: "find P (xs @ ys) = (case find P xs of None \<Rightarrow> find P ys | Some x \<Rightarrow> Some x)"
  by (induction xs) auto

lemma filter_verdict_last:
  "list_all signed_filter fs \<Longrightarrow>
   filter_verdict fs category b =
     Inr (case decisive_filter fs category of None \<Rightarrow> b | Some f \<Rightarrow> startswith f ''-'')"
proof (induction fs arbitrary: b)
  case Nil
  then show ?case by (simp add: decisive_filter_def)
next
  case (Cons f fs)
  have "decisive_filter (f # fs) category =
      (case decisive_filter fs category of
         None \<Rightarrow> if startswith category (drop 1 f) then Some f else None | Some g \<Rightarrow> Some g)"
    by (auto simp: decisive_filter_def find_append split: option.splits)
  moreover have "startswith f ''+'' \<Longrightarrow> \<not> startswith f ''-''"
    by (auto simp: startswith_iff)
  ultimately show ?case using Cons
    by (auto simp: signed_filter_def split: option.splits)
qed

lemma ShouldPrintError_total:
  "filters_ok s \<Longrightarrow> \<exists>b. ShouldPrintError category confidence linenum s = Inr b"
  by (auto simp: ShouldPrintError_def filters_ok_def filter_verdict_last)

section \<open>Reporting changes only the reports\<close>

definition same_settings :: "lint \<Rightarrow> lint \<Rightarrow> bool" where
  "same_settings s s' \<longleftrightarrow>
     filters s' = filters s \<and> filters_backup s' = filters_backup s \<and> verbose_level s'
     = verbose_level s \<and> counting s' = counting s \<and> quiet s' = quiet s \<and>
     output_format s' = output_format s \<and> error_suppressions s' = error_suppressions s
     \<and> global_error_suppressions s' = global_error_suppressions s \<and> valid_extensions
     s' = valid_extensions s \<and> hpp_headers s' = hpp_headers s \<and> root_dir s' =
     root_dir s \<and> repository s' = repository s \<and> excludes s' = excludes s \<and>
     quiet_flag s' = quiet_flag s \<and> line_length s' = line_length s"

lemma same_settings_refl [simp]: "same_settings s s"
  by (simp add: same_settings_def)

lemmas same_settings_fields = same_settings_def [THEN iffD1]

lemma same_settings_trans: "same_settings s t \<Longrightarrow> same_settings t u \<Longrightarrow> same_settings s u"
  by (simp add: same_settings_def)

lemma same_settings_output:
  assumes "same_settings s t"
  shows "same_settings s (t\<lparr>err := x\<rparr>)" "same_settings s (t\<lparr>junit_errors := y\<rparr>)"
    "same_settings s (t\<lparr>junit_failures := z\<rparr>)"
  using assms by (simp_all add: same_settings_def)

lemma IncrementErrorCount_settings: "same_settings s (IncrementErrorCount c s)"
  by (simp add: same_settings_def IncrementErrorCount_def Let_def)

lemma IncrementErrorCount_count: "error_count (IncrementErrorCount c s) = error_count s + 1"
  by (simp add: IncrementErrorCount_def Let_def)

lemma Error_cases:
  assumes "ShouldPrintError c k l s = Inr p"
  shows "\<exists>s'. Error f l c k m s = Inr s' \<and> same_settings s s'
     \<and> error_count s' = error_count s + (if p then 1 else 0)
     \<and> errors_by_category s' = (if p then errors_by_category (IncrementErrorCount c s) else errors_by_category s)
     \<and> (\<not> p \<longrightarrow> s' = s)"
  using assms same_settings_output [OF IncrementErrorCount_settings [of s c]]
  by (auto simp: Error_def Let_def PrintError_def stderr_write_def AddJUnitFailure_def
      IncrementErrorCount_count IncrementErrorCount_settings)

lemma Error_total:
  assumes "filters_ok s"
  shows "\<exists>s'. Error f l c k m s = Inr s' \<and> same_settings s s' \<and> filters_ok s'
     \<and> error_count s \<le> error_count s' \<and> error_count s' \<le> error_count s + 1"
proof -
  from ShouldPrintError_total [OF assms] obtain p where "ShouldPrintError c k l s = Inr p" by blast
  from Error_cases [OF this, of f m] obtain s' where "Error f l c k m s = Inr s'" "same_settings s s'"
    "error_count s' = error_count s + (if p then 1 else 0)" by blast
  then show ?thesis using assms same_settings_fields [of s s']
    by (auto simp: filters_ok_def)
qed

section \<open>The counts by category\<close>

definition counts_ok :: "lint \<Rightarrow> bool" where
  "counts_ok s \<longleftrightarrow> distinct (map fst (errors_by_category s))
     \<and> (counting s \<in> {''toplevel'', ''detailed''} \<longrightarrow> sum_list (map snd (errors_by_category s)) = error_count s)
     \<and> (counting s \<notin> {''toplevel'', ''detailed''} \<longrightarrow> errors_by_category s = [])"

lemma sum_dict_set_new: "map_of d k = None \<Longrightarrow> sum_list (map snd (dict_set k v d)) = sum_list (map snd d) + (v :: int)"
  by (induction k v d rule: dict_set.induct) (auto split: if_splits)

lemma sum_dict_set_old:
  "distinct (map fst d) \<Longrightarrow> map_of d k = Some u \<Longrightarrow>
   sum_list (map snd (dict_set k v d)) = sum_list (map snd d) - u + (v :: int)"
  by (induction k v d rule: dict_set.induct) (auto split: if_splits)

lemma counts_ok_Reset [keeps_inv]: "counts_ok (ResetErrorCounts s)"
  by (simp add: counts_ok_def ResetErrorCounts_def)

lemma counts_ok_Increment [keeps_inv]:
  assumes "counts_ok s"
  shows "counts_ok (IncrementErrorCount c s)"
proof (cases "counting s \<in> {''toplevel'', ''detailed''}")
  case False
  with assms show ?thesis by (auto simp: counts_ok_def IncrementErrorCount_def Let_def)
next
  case True
  define key where "key = count_key (s\<lparr>error_count := error_count s + 1\<rparr>) c"
  let ?d = "errors_by_category s"
  define d where "d = (if map_of ?d key = None then dict_set key 0 ?d else ?d)"
  from assms have dist: "distinct (map fst ?d)" and sum: "sum_list (map snd ?d) = error_count s"
    using True by (auto simp: counts_ok_def)
  have d1: "distinct (map fst d)" using dist by (simp add: d_def distinct_dict_set)
  have d2: "sum_list (map snd d) = error_count s" using sum by (simp add: d_def sum_dict_set_new)
  have d3: "\<exists>u. map_of d key = Some u" by (auto simp: d_def map_of_dict_set)
  then obtain u where u: "map_of d key = Some u" by blast
  have "IncrementErrorCount c s =
      s\<lparr>error_count := error_count s + 1, errors_by_category := dict_set key (u + 1) d\<rparr>"
    using True u by (auto simp: IncrementErrorCount_def Let_def key_def [symmetric] d_def [symmetric])
  then show ?thesis
    using True d1 sum_dict_set_old [OF d1 u, of "u + 1"] d2
    by (simp add: counts_ok_def distinct_dict_set)
qed

lemma counts_ok_Error [keeps_inv]:
  assumes "counts_ok s" and "Error f l c k m s = Inr s'"
  shows "counts_ok s'"
proof -
  from assms(2) obtain p where p: "ShouldPrintError c k l s = Inr p"
    by (auto simp: Error_def bind_result_eq_Inr)
  from Error_cases [OF p, of f m] assms(2) have *: "same_settings s s'"
    "error_count s' = error_count s + (if p then 1 else 0)"
    "errors_by_category s' = (if p then errors_by_category (IncrementErrorCount c s) else errors_by_category s)"
    by auto
  have "counts_ok (IncrementErrorCount c s)" by (rule counts_ok_Increment [OF assms(1)])
  then show ?thesis
    using assms(1) * same_settings_fields [OF *(1)] same_settings_fields [OF IncrementErrorCount_settings [of s c]]
      IncrementErrorCount_count [of c s]
    by (cases p) (simp_all add: counts_ok_def)
qed

section \<open>Grouping the failures\<close>

text \<open>The files in the order of their first failure.\<close>

definition files_in_order :: "failure list \<Rightarrow> string list" where
  "files_in_order fs = rev (remdups (rev (map fl_file fs)))"

definition grouped :: "failure list \<Rightarrow> string list \<times> (string \<times> failure list) list \<Rightarrow> bool" where
  "grouped fs od \<longleftrightarrow> fst od = files_in_order fs
     \<and> (\<forall>n \<in> set (fst od). map_of (snd od) n = Some (filter (\<lambda>f. fl_file f = n) fs))"

lemma set_files_in_order: "set (files_in_order fs) = fl_file ` set fs"
  by (simp add: files_in_order_def)

lemma grouped_step: "grouped fs od \<Longrightarrow> grouped (fs @ [f]) (group_step f od)"
  by (cases od)
     (auto simp: grouped_def group_step_def Let_def map_of_dict_set filter_empty_conv image_iff
        set_files_in_order files_in_order_def)

lemma grouped_fold: "grouped fs od \<Longrightarrow> grouped (fs @ gs) (fold group_step gs od)"
proof (induction gs arbitrary: fs od)
  case (Cons g gs)
  from Cons.IH [OF grouped_step [OF Cons.prems, of g]] show ?case by simp
qed simp

lemma grouped_all: "grouped fs (fold group_step fs ([], []))"
  using grouped_fold [of "[]" "([], [])" fs] by (simp add: grouped_def files_in_order_def)

section \<open>Runs of operations\<close>

datatype filter_op = OpSetFilters string | OpAddFilters string | OpBackup | OpRestore

fun apply_filter_op :: "filter_op \<Rightarrow> lint \<Rightarrow> lint result" where
  "apply_filter_op (OpSetFilters fs) s = SetFilters fs s"
| "apply_filter_op (OpAddFilters fs) s = AddFilters fs s"
| "apply_filter_op OpBackup s = Inr (BackupFilters s)"
| "apply_filter_op OpRestore s = Inr (RestoreFilters s)"

fun run_filter_ops :: "filter_op list \<Rightarrow> lint \<Rightarrow> lint result" where
  "run_filter_ops [] s = Inr s"
| "run_filter_ops (x # xs) s = bind_result (apply_filter_op x s) (run_filter_ops xs)"

lemma filters_ok_op: "filters_ok s \<Longrightarrow> apply_filter_op x s = Inr s' \<Longrightarrow> filters_ok s'"
  by (cases x) (auto intro: keeps_inv)

lemma filters_ok_run: "filters_ok s \<Longrightarrow> run_filter_ops xs s = Inr s' \<Longrightarrow> filters_ok s'"
  by (induction xs arbitrary: s) (auto simp: bind_result_eq_Inr dest: filters_ok_op)

text \<open>The calls of the error callback a check makes, in order.\<close>

record report =
  r_line :: "int option"
  r_category :: string
  r_confidence :: int
  r_message :: string

definition report :: "int \<Rightarrow> string \<Rightarrow> int \<Rightarrow> string \<Rightarrow> report" where
  "report l c k m = \<lparr>r_line = Some l, r_category = c, r_confidence = k, r_message = m\<rparr>"

fun emit :: "string \<Rightarrow> report list \<Rightarrow> lint \<Rightarrow> lint result" where
  "emit filename [] s = Inr s"
| "emit filename (r # rs) s =
     bind_result (Error filename (r_line r) (r_category r) (r_confidence r) (r_message r) s)
       (emit filename rs)"

lemma emit_append: "emit f (rs @ rs') s = bind_result (emit f rs s) (emit f rs')"
  by (induction rs arbitrary: s) (auto simp: bind_result_def split: sum.splits)

text \<open>
  The contract a check relies on when it reports: the callback does not raise in a good state,
  leaves a good state, and counts at most one error.
\<close>

locale error_sink =
  fixes sink :: "report \<Rightarrow> 's \<Rightarrow> 's result"
    and good :: "'s \<Rightarrow> bool"
    and errors :: "'s \<Rightarrow> int"
  assumes sink_total: "good s \<Longrightarrow> \<exists>s'. sink r s = Inr s' \<and> good s'
    \<and> errors s \<le> errors s' \<and> errors s' \<le> errors s + 1"
begin

primrec sink_all :: "report list \<Rightarrow> 's \<Rightarrow> 's result" where
  "sink_all [] s = Inr s"
| "sink_all (r # rs) s = bind_result (sink r s) (sink_all rs)"

lemma sink_all_total:
  "good s \<Longrightarrow> \<exists>s'. sink_all rs s = Inr s' \<and> good s'
     \<and> errors s \<le> errors s' \<and> errors s' \<le> errors s + int (length rs)"
proof (induction rs arbitrary: s)
  case Nil
  then show ?case by simp
next
  case (Cons r rs)
  from sink_total [OF Cons.prems, of r] obtain t where t: "sink r s = Inr t" "good t"
    "errors s \<le> errors t" "errors t \<le> errors s + 1" by blast
  from Cons.IH [OF t(2)] t show ?case by force
qed

end

definition error_callback :: "string \<Rightarrow> report \<Rightarrow> lint \<Rightarrow> lint result" where
  "error_callback filename r s =
     Error filename (r_line r) (r_category r) (r_confidence r) (r_message r) s"

interpretation lint_sink: error_sink "error_callback filename" filters_ok error_count
  by unfold_locales (use Error_total in \<open>auto simp: error_callback_def, blast\<close>)

lemma emit_sink_all: "emit f rs s = lint_sink.sink_all f rs s"
  by (induction rs arbitrary: s) (auto simp: error_callback_def bind_result_def split: sum.splits)

lemma emit_total:
  "filters_ok s \<Longrightarrow> \<exists>s'. emit f rs s = Inr s' \<and> filters_ok s'
     \<and> error_count s \<le> error_count s' \<and> error_count s' \<le> error_count s + int (length rs)"
  by (simp add: emit_sink_all lint_sink.sink_all_total)

lemma emit_counts_ok: "counts_ok s \<Longrightarrow> emit f rs s = Inr s' \<Longrightarrow> counts_ok s'"
  by (induction rs arbitrary: s) (auto simp: bind_result_eq_Inr dest: counts_ok_Error)

lemma Error_settings: "Error f l c k m s = Inr s' \<Longrightarrow> same_settings s s'"
  using Error_cases [of c k l s _ f m] by (auto simp: Error_def bind_result_eq_Inr)

lemma emit_settings: "emit f rs s = Inr s' \<Longrightarrow> same_settings s s'"
  by (induction rs arbitrary: s)
     (auto simp: bind_result_eq_Inr intro: same_settings_trans dest: Error_settings)

lemma decisive_filter_in: "decisive_filter fs category = Some f \<Longrightarrow> f \<in> set fs"
  by (metis decisive_filter_def find_Some_iff nth_mem set_rev)

section \<open>Properties\<close>

text \<open>C27. In every state with well-formed filters, and after any run of filter operations from one
  that does not raise, whatever the verbosity and the suppressions: the decision to print an error is
  total (the assertion in the filter loop is unreachable), and it is that no NOLINT of the file, of the
  line for this category, or of the line for all categories suppresses the error, that it is confident
  enough, and that the last filter the category starts with, if there is one, begins with a plus sign.\<close>

theorem ShouldPrintError_decides:
  assumes "filters_ok s0" and "run_filter_ops ops s0 = Inr s"
  shows "ShouldPrintError category confidence linenum s =
    Inr (global_error_suppressions s category \<noteq> Some True
      \<and> (case linenum of None \<Rightarrow> True
          | Some n \<Rightarrow> n \<notin> error_suppressions s (Some category) \<and> n \<notin> error_suppressions s None)
      \<and> verbose_level s \<le> confidence
      \<and> (case decisive_filter (filters s) category of None \<Rightarrow> True | Some f \<Rightarrow> startswith f ''+''))"
proof -
  have ok: "filters_ok s" by (rule filters_ok_run [OF assms])
  then have signs: "startswith f ''+'' \<longleftrightarrow> \<not> startswith f ''-''" if "decisive_filter (filters s) category = Some f" for f
    using that decisive_filter_in [OF that] by (auto simp: filters_ok_def list_all_iff signed_filter_def startswith_def)
  show ?thesis
    using ok signs
    by (auto simp: ShouldPrintError_def IsErrorSuppressedByNolint_def filters_ok_def filter_verdict_last
        split: option.splits)
qed

theorem ShouldPrintError_decides_witness:
  "\<exists>s. run_filter_ops [OpSetFilters ''-build, +build/include''] (add_suppression None 7 (CppLintState_init\<lparr>verbose_level := 3\<rparr>)) = Inr s
     \<and> ShouldPrintError ''build/include'' 4 (Some 8) s = Inr True \<and> ShouldPrintError ''build/include'' 4 (Some 7) s = Inr False
     \<and> ShouldPrintError ''build/include'' 2 (Some 8) s = Inr False \<and> ShouldPrintError ''build/class'' 4 (Some 8) s = Inr False"
proof -
  let ?s0 = "add_suppression None 7 (CppLintState_init\<lparr>verbose_level := 3\<rparr>)"
  have ok: "filters_ok ?s0"
    using filters_ok_init by (simp add: filters_ok_def add_suppression_def)
  have run: "run_filter_ops [OpSetFilters ''-build, +build/include''] ?s0 =
      Inr (?s0\<lparr>filters := [''-build/include_alpha'', ''-build'', ''+build/include'']\<rparr>)"
    by (simp add: SetFilters_def AddFilters_def Let_def DEFAULT_FILTERS_def py_strip_def py_rstrip_def
        py_lstrip_def is_space_def in_range_def signed_filter_def startswith_def add_suppression_def)
  show ?thesis
    using ShouldPrintError_decides [OF ok run] run
    by (simp add: decisive_filter_def startswith_def add_suppression_def CppLintState_init_def)
qed

text \<open>C30. Once the counts are reset, in the styles that count by category the counts of all
  categories add up to the total number of errors, whatever is reported and suppressed; in the
  other styles no category is counted.\<close>

theorem error_counts_add_up:
  assumes "emit filename rs (ResetErrorCounts s) = Inr s'"
  shows "distinct (map fst (errors_by_category s')) \<and>
    (if counting s \<in> {''toplevel'', ''detailed''}
     then sum_list (map snd (errors_by_category s')) = error_count s' else errors_by_category s' = [])"
proof -
  have "counts_ok s'" by (rule emit_counts_ok [OF counts_ok_Reset assms])
  moreover have "counting s' = counting s"
    using same_settings_fields [OF emit_settings [OF assms]] by (simp add: ResetErrorCounts_def)
  ultimately show ?thesis by (simp add: counts_ok_def)
qed

theorem error_counts_add_up_witness:
  "\<exists>s'. emit ''a.cc'' [report 3 ''build/include'' 4 ''m'', report 4 ''runtime/int'' 4 ''n'']
      (ResetErrorCounts (CppLintState_init\<lparr>counting := ''toplevel''\<rparr>)) = Inr s'
    \<and> distinct (map fst (errors_by_category s'))
    \<and> sum_list (map snd (errors_by_category s')) = error_count s'"
proof -
  have "filters_ok (ResetErrorCounts (CppLintState_init\<lparr>counting := ''toplevel''\<rparr>))"
    using filters_ok_init by (simp add: filters_ok_def ResetErrorCounts_def)
  from emit_total [OF this, of "''a.cc''" "[report 3 ''build/include'' 4 ''m'', report 4 ''runtime/int'' 4 ''n'']"]
  obtain s' where s': "emit ''a.cc'' [report 3 ''build/include'' 4 ''m'', report 4 ''runtime/int'' 4 ''n'']
      (ResetErrorCounts (CppLintState_init\<lparr>counting := ''toplevel''\<rparr>)) = Inr s'" by blast
  from error_counts_add_up [OF s'] s' show ?thesis by auto
qed

text \<open>Grouping by file for the JUnit report loses, invents and reorders nothing: there is one
  test case for each file, in the order of the first failures, and it holds exactly that file's
  failures in the order they were reported.\<close>

theorem junit_group_partition:
  "junit_group fs = map (\<lambda>n. (n, filter (\<lambda>f. fl_file f = n) fs)) (files_in_order fs)"
proof -
  obtain ord d where od: "fold group_step fs ([], []) = (ord, d)" by (cases "fold group_step fs ([], [])")
  with grouped_all [of fs] show ?thesis
    by (auto simp: grouped_def junit_group_def)
qed

text \<open>A NOLINT comment works on its own line or, as NOLINTNEXTLINE, on the next: parsing a
  line changes the verdict of no other line, and never withdraws a suppression.\<close>

theorem nolint_only_its_line:
  assumes "ParseNolintSuppressions filename raw_line n s = Inr s'"
  shows "(IsErrorSuppressedByNolint c l s \<longrightarrow> IsErrorSuppressedByNolint c l s')
    \<and> (IsErrorSuppressedByNolint c l s' \<longrightarrow> IsErrorSuppressedByNolint c l s \<or> l = Some n \<or> l = Some (n + 1))"
  using assms
  by (auto simp: ParseNolintSuppressions_def Let_def add_suppression_def IsErrorSuppressedByNolint_def
      split: option.splits if_splits dest!: Error_settings same_settings_fields)

theorem nolint_only_its_line_witness:
  "\<exists>s'. ParseNolintSuppressions ''a.cc'' ''int x;  // NOLINT(runtime/int)'' 7 CppLintState_init = Inr s'
     \<and> IsErrorSuppressedByNolint ''runtime/int'' (Some 7) s' \<and> \<not> IsErrorSuppressedByNolint ''runtime/int'' (Some 6) s'"
proof -
  have m: "Search (rx ''`bNOLINT(NEXTLINE)?`b(`([^)]+`))?'') ''int x;  // NOLINT(runtime/int)''
      = Some \<lparr>m_start = 11, m_end = 30, m_text = ''NOLINT(runtime/int)'',
          m_groups = [(2, 17, ''(runtime/int)'')]\<rparr>"
    by code_simp
  let ?s' = "add_suppression (Some ''runtime/int'') 7 CppLintState_init"
  have p: "ParseNolintSuppressions ''a.cc'' ''int x;  // NOLINT(runtime/int)'' 7 CppLintState_init = Inr ?s'"
    by (simp add: ParseNolintSuppressions_def m grp_def group_def startswith_def endswith_def
        py_slice_def py_pos_def ERROR_CATEGORIES_def)
  show ?thesis
    using p nolint_only_its_line [OF p, of "''runtime/int''" "Some 6"]
    by (auto simp: add_suppression_def IsErrorSuppressedByNolint_def CppLintState_init_def)
qed

text \<open>The quiet setting that the command line turns on has no effect on \<open>PrintInfo\<close>: it
  consults another variable, which nothing sets, so information messages are still written.\<close>

theorem PrintInfo_ignores_SetQuiet:
  "out (PrintInfo message (snd (SetQuiet q s))) = out (PrintInfo message s)"
  by (simp add: PrintInfo_def SetQuiet_def stdout_write_def)

end
