(* ===== verification/FunctionState.thy ===== *)
theory FunctionState
  imports LintState
begin

text \<open>
  The class \<open>_FunctionState\<close>: whether the line is inside a function body, the name of the function
  and the number of its lines. \<open>Check\<close> reports a body that is longer than the trigger, which
  doubles with every verbosity level. Python's \<open>base_trigger * 2**level\<close> is an integer for a
  level of zero and above and an exact float below; \<open>int(math.log(n / base, 2))\<close> truncates
  towards zero. Both are modelled on integers (\<open>over_trigger\<close>, \<open>trigger_value\<close>, \<open>log2_trunc\<close>): the
  quotient of two line counts is far enough from a power of two for the float to be on the same
  side of it.
\<close>

record function_state =
  in_a_function :: bool
  lines_in_function :: int
  current_function :: string

definition NORMAL_TRIGGER :: int where "NORMAL_TRIGGER = 250"
definition TEST_TRIGGER :: int where "TEST_TRIGGER = 400"

definition FunctionState_init :: function_state where
  "FunctionState_init = \<lparr>in_a_function = False, lines_in_function = 0, current_function = []\<rparr>"

definition Begin :: "string \<Rightarrow> function_state \<Rightarrow> function_state" where
  "Begin function_name s =
     s\<lparr>in_a_function := True, lines_in_function := 0, current_function := function_name\<rparr>"

definition Count :: "function_state \<Rightarrow> function_state" where
  "Count s = (if in_a_function s then s\<lparr>lines_in_function := lines_in_function s + 1\<rparr> else s)"

definition End_function :: "function_state \<Rightarrow> function_state" where
  "End_function s = s\<lparr>in_a_function := False\<rparr>"

definition over_trigger :: "int \<Rightarrow> int \<Rightarrow> int \<Rightarrow> bool" where
  "over_trigger n base level \<longleftrightarrow>
     (if 0 \<le> level then base * 2 ^ nat level < n else base < n * 2 ^ nat (- level))"

definition trigger_value :: "int \<Rightarrow> int \<Rightarrow> int" where
  "trigger_value base level = (if 0 \<le> level then base * 2 ^ nat level else base div 2 ^ nat (- level))"

text \<open>The largest \<open>k\<close> up to the bound with \<open>base * 2 ^ k \<le> n\<close>; from the bound on, the bound.\<close>

fun log2_from :: "nat \<Rightarrow> int \<Rightarrow> int \<Rightarrow> int" where
  "log2_from 0 n base = 0"
| "log2_from (Suc k) n base = (if 2 * base \<le> n then 1 + log2_from k n (2 * base) else 0)"

definition log2_trunc :: "int \<Rightarrow> int \<Rightarrow> int" where
  "log2_trunc n base =
     (if base \<le> n then log2_from (nat n) n base else - log2_from (nat base) base n)"

definition base_trigger :: "string \<Rightarrow> int" where
  \<open>base_trigger function_name =
     (if is_match ''T(EST|est)'' function_name then TEST_TRIGGER else NORMAL_TRIGGER)\<close>

definition Check :: "int \<Rightarrow> int \<Rightarrow> function_state \<Rightarrow> report list" where
  "Check linenum level s =
     (if \<not> in_a_function s then []
      else
        let base = base_trigger (current_function s);
            trigger = trigger_value base level
        in if over_trigger (lines_in_function s) base level then
             let error_level = log2_trunc (lines_in_function s) base;
                 error_level = (if error_level > 5 then 5 else error_level)
             in [report linenum ''readability/fn_size'' error_level
                  (''Small and focused functions are preferred: '' @ current_function s @ '' has '' @
                   str_int (lines_in_function s) @ '' non-comment lines (error triggered by exceeding '' @
                   str_int trigger @ '' lines).'')]
           else [])"

section \<open>Lemmas\<close>

lemma log2_from_nonneg: "0 \<le> log2_from k n base"
  by (induction k arbitrary: base) auto

lemma log2_from_le: "0 < base \<Longrightarrow> base \<le> n \<Longrightarrow> base * 2 ^ nat (log2_from k n base) \<le> n"
proof (induction k arbitrary: base)
  case (Suc k)
  show ?case
  proof (cases "2 * base \<le> n")
    case True
    with Suc.IH [of "2 * base"] Suc.prems log2_from_nonneg [of k n "2 * base"] show ?thesis
      by (simp add: nat_add_distrib algebra_simps)
  qed (use Suc.prems in simp)
qed simp

lemma log2_from_gt:
  "0 < base \<Longrightarrow> n < base * 2 ^ k \<Longrightarrow> n < base * 2 ^ Suc (nat (log2_from k n base))"
proof (induction k arbitrary: base)
  case (Suc k)
  show ?case
  proof (cases "2 * base \<le> n")
    case True
    with Suc.IH [of "2 * base"] Suc.prems log2_from_nonneg [of k n "2 * base"] show ?thesis
      by (simp add: nat_add_distrib algebra_simps)
  qed (use Suc.prems in simp)
qed simp

lemma log2_trunc_bounds:
  assumes "0 < base" and "base \<le> n"
  shows "0 \<le> log2_trunc n base \<and> base * 2 ^ nat (log2_trunc n base) \<le> n
    \<and> n < base * 2 ^ Suc (nat (log2_trunc n base))"
proof -
  have "n < 2 ^ nat n" using assms by (metis le_less_trans less_exp of_nat_less_iff of_nat_numeral
      of_nat_power int_nat_eq order_less_le_trans zero_le_numeral less_imp_le max.absorb1 nat_0_le)
  also have "\<dots> \<le> base * 2 ^ nat n" using assms by simp
  finally show ?thesis
    using assms log2_from_nonneg [of "nat n" n base] log2_from_le [of base n "nat n"]
      log2_from_gt [of base n "nat n"]
    by (simp add: log2_trunc_def)
qed

lemma base_trigger_pos: "250 \<le> base_trigger f"
  by (simp add: base_trigger_def TEST_TRIGGER_def NORMAL_TRIGGER_def)

text \<open>The lines counted since \<open>Begin\<close>, along a run of the other operations.\<close>

datatype fn_op = FnCount | FnEnd

fun apply_fn_op :: "fn_op \<Rightarrow> function_state \<Rightarrow> function_state" where
  "apply_fn_op FnCount s = Count s"
| "apply_fn_op FnEnd s = End_function s"

lemma counts_before_end:
  "FnEnd \<notin> set ops \<Longrightarrow> in_a_function s \<Longrightarrow>
   fold apply_fn_op ops s = s\<lparr>lines_in_function := lines_in_function s + int (length ops)\<rparr>"
proof (induction ops arbitrary: s)
  case (Cons x xs)
  then show ?case by (cases x) (simp_all add: Count_def)
qed simp

lemma ended_stays_ended:
  "\<not> in_a_function s \<Longrightarrow> fold apply_fn_op ops s = s"
proof (induction ops arbitrary: s)
  case (Cons x xs)
  then show ?case by (cases x) (simp_all add: Count_def End_function_def)
qed simp

section \<open>Properties\<close>

text \<open>C31. A function body of \<open>n\<close> lines, checked at a verbosity of zero or more before it ended, is
  reported exactly when \<open>n\<close> exceeds the base trigger doubled once per verbosity level, and then
  with the number of times the base trigger can be doubled within \<open>n\<close>, capped at five. (The comment
  in \<open>Check\<close> gives the levels for a base trigger of 50; with the trigger of 250 in the code, 800
  lines have level 1 and not 4.)\<close>

theorem Check_reports_long_bodies:
  assumes "0 \<le> level" and base_def: "base = base_trigger name"
  shows "map r_confidence (Check linenum level (fold apply_fn_op (replicate n FnCount) (Begin name s))) =
    (if base * 2 ^ nat level < int n then [min 5 (log2_trunc (int n) base)] else [])
    \<and> (base * 2 ^ nat level < int n \<longrightarrow>
         level \<le> log2_trunc (int n) base
         \<and> base * 2 ^ nat (log2_trunc (int n) base) \<le> int n
         \<and> int n < base * 2 ^ Suc (nat (log2_trunc (int n) base)))"
proof -
  have st: "fold apply_fn_op (replicate n FnCount) (Begin name s) =
      (Begin name s)\<lparr>lines_in_function := int n\<rparr>"
    using counts_before_end [of "replicate n FnCount" "Begin name s"] by (simp add: Begin_def)
  have base: "0 < base" using base_trigger_pos [of name] by (simp add: base_def)
  have over: "over_trigger (int n) base level \<longleftrightarrow> base * 2 ^ nat level < int n"
    using assms(1) by (simp add: over_trigger_def)
  have b: "level \<le> log2_trunc (int n) base \<and> base * 2 ^ nat (log2_trunc (int n) base) \<le> int n
         \<and> int n < base * 2 ^ Suc (nat (log2_trunc (int n) base))"
    if long: "base * 2 ^ nat level < int n"
  proof -
    have "base * 1 \<le> base * 2 ^ nat level" using base by (intro mult_left_mono) auto
    with long have "base \<le> int n" by simp
    from log2_trunc_bounds [OF base this] have
      l: "0 \<le> log2_trunc (int n) base" "base * 2 ^ nat (log2_trunc (int n) base) \<le> int n"
        "int n < base * 2 ^ Suc (nat (log2_trunc (int n) base))" by auto
    from long l(3) have "base * 2 ^ nat level < base * 2 ^ Suc (nat (log2_trunc (int n) base))" by simp
    then have "nat level < Suc (nat (log2_trunc (int n) base))"
      using base by (simp only: mult_less_cancel_left_pos power_strict_increasing_iff)
    with l assms(1) show ?thesis by simp
  qed
  show ?thesis
    unfolding st using b by (auto simp: Check_def Let_def over Begin_def report_def base_def [symmetric] min_def)
qed

theorem Check_reports_long_bodies_witness:
  "map r_confidence (Check 9 1 (fold apply_fn_op (replicate 501 FnCount) (Begin ''f'' FunctionState_init))) = [1]
   \<and> map r_confidence (Check 9 1 (fold apply_fn_op (replicate 500 FnCount) (Begin ''f'' FunctionState_init))) = []"
proof -
  have b: "base_trigger ''f'' = 250"
  proof -
    have "is_match ''T(EST|est)'' ''f'' = False" by code_simp
    then show ?thesis by (simp add: base_trigger_def NORMAL_TRIGGER_def)
  qed
  have l: "log2_trunc 501 250 = 1"
    by (simp add: log2_trunc_def eval_nat_numeral)
  show ?thesis
    using Check_reports_long_bodies [of 1 250 "''f''" 9 501 FunctionState_init]
      Check_reports_long_bodies [of 1 250 "''f''" 9 500 FunctionState_init]
    by (simp add: b l)
qed

end
