(* ===== verification/RegexFacts.thy ===== *)
theory RegexFacts
  imports PyRegex
begin

text \<open>
  How to reason about a pattern of the sources: what a match means for the subject. \<open>adv k s\<close> is
  the point \<open>k\<close> characters further on; a starred character class reaches the points within the
  longest prefix of its characters (\<open>runs_cls_star\<close>); a part without groups keeps the groups
  captured so far (\<open>caps_runs\<close>). A match exists exactly when the reference semantics has a run
  (\<open>match_None_iff\<close>), which gives both the shape of a match and, from one exhibited run, that a
  match exists.
\<close>

declare runs.simps [simp]

definition adv :: "nat \<Rightarrow> mst \<Rightarrow> mst" where
  "adv k s = MS (if k = 0 then mst_before s else Some (mst_rest s ! (k - 1)))
     (drop k (mst_rest s)) (mst_pos s + k) (mst_caps s)"

lemma adv_0 [simp]: "adv 0 s = s"
  by (cases s) (simp add: adv_def)

lemma adv_sel [simp]:
  "mst_rest (adv k s) = drop k (mst_rest s)" "mst_pos (adv k s) = mst_pos s + k" "mst_caps (adv k s) = mst_caps s"
  by (simp_all add: adv_def)

lemma adv_adv: "j + k \<le> length (mst_rest s) \<Longrightarrow> adv j (adv k s) = adv (k + j) s"
  by (cases s) (auto simp: adv_def add.commute)

lemma step_char_adv:
  "step_char P s = (case mst_rest s of [] \<Rightarrow> None | c # r \<Rightarrow> if P c then Some (adv 1 s) else None)"
  by (cases s) (auto simp: adv_def split: list.splits)

text \<open>Single characters and their repetition.\<close>

definition char_runs :: "(char \<Rightarrow> bool) \<Rightarrow> mst \<Rightarrow> mst list" where
  "char_runs P s = (case step_char P s of None \<Rightarrow> [] | Some s' \<Rightarrow> [s'])"

lemma runs_Cls: "runs f (Cls neg is) = char_runs (in_cls f neg is)"
  by (rule ext) (simp add: char_runs_def)

lemma runs_AnyC: "runs f AnyC = char_runs (\<lambda>c. dot_all f \<or> c \<noteq> CHR 0x0A)"
  by (rule ext) (simp add: char_runs_def)

lemma char_runs_set:
  "s' \<in> set (char_runs P s) \<longleftrightarrow> (\<exists>c r. mst_rest s = c # r \<and> P c \<and> s' = adv 1 s)"
  by (auto simp: char_runs_def step_char_adv split: list.splits option.splits if_splits)

lemma char_star_set:
  "length (mst_rest s) \<le> n \<Longrightarrow>
   set (rep_runs (char_runs P) 0 None g n s) = (\<lambda>k. adv k s) ` {0..length (takeWhile P (mst_rest s))}"
proof (induction n arbitrary: s)
  case 0
  then show ?case by simp
next
  case (Suc n)
  show ?case
  proof (cases "mst_rest s")
    case Nil
    then show ?thesis by (auto simp: Let_def char_runs_def step_char_adv dec_bound_def)
  next
    case (Cons c r)
    show ?thesis
    proof (cases "P c")
      case False
      with Cons show ?thesis by (auto simp: Let_def char_runs_def step_char_adv dec_bound_def)
    next
      case True
      let ?t = "adv 1 s"
      have IH: "set (rep_runs (char_runs P) 0 None g n ?t) = (\<lambda>k. adv k ?t) ` {0..length (takeWhile P r)}"
        using Suc.IH [of ?t] Suc.prems Cons by simp
      have "(\<lambda>k. adv k ?t) ` {0..length (takeWhile P r)} = (\<lambda>k. adv k s) ` (Suc ` {0..length (takeWhile P r)})"
        unfolding image_image
      proof (rule image_cong [OF refl])
        fix k assume "k \<in> {0..length (takeWhile P r)}"
        then have "k \<le> length r" using length_takeWhile_le [of P r] by simp
        then show "adv k ?t = adv (Suc k) s" using adv_adv [of k 1 s] Cons by simp
      qed
      moreover have "set (rep_runs (char_runs P) 0 None g (Suc n) s)
          = insert s (set (rep_runs (char_runs P) 0 None g n ?t))"
        using Cons True by (simp add: Let_def char_runs_def step_char_adv dec_bound_def)
      moreover have "{0..Suc m} = insert 0 (Suc ` {0..m})" for m
        by auto
      ultimately show ?thesis using IH Cons True by simp
    qed
  qed
qed

lemma runs_cls_star:
  "set (runs f (Rep 0 None g (Cls neg is)) s) =
     (\<lambda>k. adv k s) ` {0..length (takeWhile (in_cls f neg is) (mst_rest s))}"
  by (simp only: runs.simps(6) runs_Cls option.map char_star_set le_SucI order_refl)

lemma runs_any_star:
  "set (runs f (Rep 0 None g AnyC) s) =
     (\<lambda>k. adv k s) ` {0..length (takeWhile (\<lambda>c. dot_all f \<or> c \<noteq> CHR 0x0A) (mst_rest s))}"
  by (simp only: runs.simps(6) runs_AnyC option.map char_star_set le_SucI order_refl)

text \<open>Zero rounds are always among the ways to repeat.\<close>

lemma rep_runs_zero: "s \<in> set (rep_runs m 0 hi g n s)"
  by (cases n) (auto simp: Let_def)

lemma runs_star_zero: "s \<in> set (runs f (Rep 0 hi g a) s)"
  by (simp add: rep_runs_zero del: rep_runs.simps)

lemma runs_Seq_set: "s' \<in> set (runs f (Seq a b) s) \<longleftrightarrow> (\<exists>u \<in> set (runs f a s). s' \<in> set (runs f b u))"
  by auto

lemma runs_SeqI: "u \<in> set (runs f a s) \<Longrightarrow> s' \<in> set (runs f b u) \<Longrightarrow> s' \<in> set (runs f (Seq a b) s)"
  by auto

lemma runs_Grp_set: "s' \<in> set (runs f (Grp n a) s) \<longleftrightarrow> (\<exists>u \<in> set (runs f a s). s' = set_group n s u)"
  by auto

lemma set_group_sel [simp]:
  "mst_rest (set_group n s u) = mst_rest u" "mst_pos (set_group n s u) = mst_pos u"
  "mst_before (set_group n s u) = mst_before u"
  "mst_caps (set_group n s u) = (n, mst_pos s, take (mst_pos u - mst_pos s) (mst_rest s)) # mst_caps u"
  by (cases s; cases u; simp)+

lemma with_caps_sel [simp]: "mst_caps (with_caps s u) = mst_caps u"
  by (cases s; cases u) simp

section \<open>Parts without groups\<close>

fun groups_of :: "re \<Rightarrow> nat set" where
  "groups_of (Seq a b) = groups_of a \<union> groups_of b"
| "groups_of (Alt a b) = groups_of a \<union> groups_of b"
| "groups_of (Rep lo hi g a) = groups_of a"
| "groups_of (Grp n a) = insert n (groups_of a)"
| "groups_of (Look b a) = groups_of a"
| "groups_of _ = {}"

definition same_group :: "nat \<Rightarrow> mst \<Rightarrow> mst \<Rightarrow> bool" where
  "same_group n s s' \<longleftrightarrow> map_of (mst_caps s') n = map_of (mst_caps s) n"

lemma same_group_refl [simp]: "same_group n s s"
  by (simp add: same_group_def)

lemma same_group_trans: "same_group n s u \<Longrightarrow> same_group n u v \<Longrightarrow> same_group n s v"
  by (simp add: same_group_def)

lemma same_group_skip: "skip_text t s = Some s' \<Longrightarrow> mst_caps s' = mst_caps s"
  by (induction t arbitrary: s) (auto simp: step_char_adv split: option.splits list.splits if_splits)

lemma same_group_rep:
  assumes "\<And>s s'. s' \<in> set (m s) \<Longrightarrow> same_group k s s'"
  shows "s' \<in> set (rep_runs m lo hi g n s) \<Longrightarrow> same_group k s s'"
proof (induction lo arbitrary: s)
  case 0
  then show ?case
  proof (induction n arbitrary: hi s)
    case (Suc n)
    from Suc.prems have "s' = s \<or> s' \<in> set (m s) \<or> (\<exists>x \<in> set (m s). s' \<in> set (rep_runs m 0 (dec_bound hi) g n x))"
      by (auto simp: Let_def split: if_splits)
    then show ?case
    proof (elim disjE bexE)
      fix x assume "x \<in> set (m s)" "s' \<in> set (rep_runs m 0 (dec_bound hi) g n x)"
      then show ?thesis using same_group_trans [OF assms Suc.IH] by blast
    qed (simp_all add: assms)
  qed simp
next
  case (Suc lo)
  then show ?case by simp (blast intro: same_group_trans dest: assms)
qed

lemma caps_runs: "k \<notin> groups_of r \<Longrightarrow> s' \<in> set (runs f r s) \<Longrightarrow> same_group k s s'"
proof (induction r arbitrary: s s')
  case (Rep lo hi g a)
  then show ?case using same_group_rep [of "runs f a" k] by simp
next
  case (Seq a b)
  then show ?case by simp (blast intro: same_group_trans)
next
  case (Look b a)
  then have "same_group k s x" if "x \<in> set (runs f a s)" for x using that by simp
  with Look.prems(2) show ?case
    by (auto simp: same_group_def split: list.splits if_splits)
next
  case (Grp n a)
  then show ?case by (auto simp: same_group_def)
qed (auto simp: step_char_adv same_group_def step_backref_def
       split: option.splits list.splits if_splits dest!: same_group_skip [OF sym])

section \<open>Matches and runs\<close>

lemma match_at_None_iff: "match_at f r s = None \<longleftrightarrow> runs f r s = []"
  by (auto simp: match_at_def mt_Some split: list.splits)

lemma Match_None_iff:
  "re_compile no_flags p = Some (f, r) \<Longrightarrow> Match p s = None \<longleftrightarrow> runs f r (MS None s 0 []) = []"
  by (simp add: Match_def re_match_def match_at_None_iff)

lemma Match_exists:
  "re_compile no_flags p = Some (f, r) \<Longrightarrow> s' \<in> set (runs f r (MS None s 0 [])) \<Longrightarrow> \<exists>m. Match p s = Some m"
  using Match_None_iff [of p f r s] by fastforce

lemma Match_runD:
  assumes "re_compile no_flags p = Some (f, r)" and "Match p s = Some m"
  obtains s' where "s' \<in> set (runs f r (MS None s 0 []))" and "m = mk_match (MS None s 0 []) s'"
  using assms match_at_SomeD [of f r "MS None s 0 []" m] by (auto simp: Match_def re_match_def)

lemma group_mk_match: "0 < n \<Longrightarrow> group (mk_match s s') n = map_option snd (map_of (mst_caps s') n)"
  by (simp add: group_def mk_match_def)

lemma grp_mk_match:
  "0 < n \<Longrightarrow> map_of (mst_caps s') n = Some (i, t) \<Longrightarrow> grp (mk_match s s') n = t"
  by (simp add: grp_def group_mk_match)

section \<open>Walking through a sequence\<close>

lemma runs_SeqE:
  assumes "s' \<in> set (runs f (Seq a b) s)"
  obtains u where "u \<in> set (runs f a s)" "s' \<in> set (runs f b u)" "mst_pos s \<le> mst_pos u"
    "mst_pos u + length (mst_rest u) = mst_pos s + length (mst_rest s)"
proof -
  from assms obtain u where u: "u \<in> set (runs f a s)" "s' \<in> set (runs f b u)" by auto
  moreover from u(1) have "seg s u" by (rule seg_runs)
  then have "mst_pos s \<le> mst_pos u" "mst_pos u + length (mst_rest u) = mst_pos s + length (mst_rest s)"
    using seg_length [of s u] by (auto simp: seg_def)
  ultimately show thesis by (rule that)
qed

lemma runs_Seq_GrpE:
  assumes "s' \<in> set (runs f (Seq (Grp n a) b) s)" and "n \<notin> groups_of b"
  obtains u t where "u \<in> set (runs f a s)" "s' \<in> set (runs f b (set_group n s u))"
    "mst_rest s = t @ mst_rest u" "mst_pos u = mst_pos s + length t"
    "map_of (mst_caps s') n = Some (mst_pos s, t)"
proof -
  from assms(1) obtain u where u: "u \<in> set (runs f a s)" "s' \<in> set (runs f b (set_group n s u))" by auto
  from u(1) have "seg s u" by (rule seg_runs)
  then have "\<exists>t. mst_rest s = t @ mst_rest u \<and> mst_pos u = mst_pos s + length t"
    unfolding seg_def by blast
  then obtain t where t: "mst_rest s = t @ mst_rest u" "mst_pos u = mst_pos s + length t" by blast
  have "map_of (mst_caps s') n = Some (mst_pos s, t)"
    using caps_runs [OF assms(2) u(2)] t by (simp add: same_group_def)
  with u t show thesis by (rule that)
qed

lemma runs_ClsE:
  assumes "s' \<in> set (runs f (Cls neg is) s)"
  obtains c where "mst_rest s = c # mst_rest s'" "in_cls f neg is c" "mst_pos s' = mst_pos s + 1"
  using assms unfolding runs_Cls char_runs_set by auto

lemma runs_Seq_ClsE:
  assumes "s' \<in> set (runs f (Seq (Cls neg is) b) s)"
  obtains u c where "s' \<in> set (runs f b u)" "mst_rest s = c # mst_rest u" "in_cls f neg is c"
    "mst_pos u = mst_pos s + 1" "mst_caps u = mst_caps s"
proof -
  from assms obtain u where u: "u \<in> set (char_runs (in_cls f neg is) s)" "s' \<in> set (runs f b u)"
    by (auto simp: runs_Cls)
  from u(1) obtain c where "mst_rest s = c # mst_rest u" "in_cls f neg is c" "mst_pos u = mst_pos s + 1"
      "mst_caps u = mst_caps s"
    by (auto simp: char_runs_set)
  with u(2) show thesis by (rule that)
qed

lemma runs_cls_starE:
  assumes "s' \<in> set (runs f (Rep 0 None g (Cls neg is)) s)"
  obtains t where "mst_rest s = t @ mst_rest s'" "list_all (in_cls f neg is) t" "mst_pos s' = mst_pos s + length t"
proof -
  from assms obtain k where k: "k \<le> length (takeWhile (in_cls f neg is) (mst_rest s))" "s' = adv k s"
    unfolding runs_cls_star by auto
  let ?t = "take k (takeWhile (in_cls f neg is) (mst_rest s))"
  from k(1) have t: "?t = take k (mst_rest s)"
    by (metis takeWhile_eq_take take_take min.absorb1)
  have "list_all (in_cls f neg is) ?t"
    by (auto simp: list_all_iff dest: set_takeWhileD in_set_takeD)
  moreover have "mst_rest s = ?t @ mst_rest s'" "mst_pos s' = mst_pos s + length ?t"
    using k t length_takeWhile_le [of "in_cls f neg is" "mst_rest s"] by simp_all
  ultimately show thesis by (intro that)
qed

lemma runs_any_starE:
  assumes "s' \<in> set (runs no_flags (Rep 0 None g AnyC) s)"
  obtains t where "mst_rest s = t @ mst_rest s'" "CHR 0x0A \<notin> set t" "mst_pos s' = mst_pos s + length t"
proof -
  let ?P = "\<lambda>c. c \<noteq> CHR 0x0A"
  from assms obtain k where k: "k \<le> length (takeWhile ?P (mst_rest s))" "s' = adv k s"
    unfolding runs_any_star by (auto simp: no_flags_def)
  let ?t = "take k (takeWhile ?P (mst_rest s))"
  from k(1) have t: "?t = take k (mst_rest s)"
    by (metis takeWhile_eq_take take_take min.absorb1)
  have "CHR 0x0A \<notin> set ?t" by (auto dest: set_takeWhileD in_set_takeD)
  moreover have "mst_rest s = ?t @ mst_rest s'" "mst_pos s' = mst_pos s + length ?t"
    using k t length_takeWhile_le [of ?P "mst_rest s"] by simp_all
  ultimately show thesis by (intro that)
qed

lemma at_eol_iff: "at_eol no_flags s \<longleftrightarrow> mst_rest s = [] \<or> mst_rest s = [CHR 0x0A]"
  by (cases s) (auto simp: no_flags_def split: list.splits)

lemma runs_EolE:
  assumes "s' \<in> set (runs no_flags Eol s)"
  shows "s' = s" "mst_rest s = [] \<or> mst_rest s = [CHR 0x0A]"
  using assms at_eol_iff [of s] by (simp_all split: if_splits)

lemma runs_BolE:
  assumes "s' \<in> set (runs f Bol s)" shows "s' = s"
  using assms by (auto split: if_splits)

lemma runs_Bol_start: "set (runs f (Seq Bol r) (MS None t i cs)) = set (runs f r (MS None t i cs))"
  by simp

text \<open>The points that the tails \<open>(.*)$\<close> of the patterns reach.\<close>

lemma runs_tailE:
  assumes "s' \<in> set (runs no_flags (Seq (Grp n (Rep 0 None True AnyC)) Eol) s)"
  obtains t where "mst_rest s = t \<or> mst_rest s = t @ [CHR 0x0A]" "CHR 0x0A \<notin> set t"
    "map_of (mst_caps s') n = Some (mst_pos s, t)" "mst_pos s' = mst_pos s + length t"
proof -
  from assms have "n \<notin> groups_of Eol" by simp
  with assms obtain u t where u: "u \<in> set (runs no_flags (Rep 0 None True AnyC) s)"
      "s' \<in> set (runs no_flags Eol (set_group n s u))" and t: "mst_rest s = t @ mst_rest u"
      "mst_pos u = mst_pos s + length t" "map_of (mst_caps s') n = Some (mst_pos s, t)"
    by (rule runs_Seq_GrpE)
  from runs_any_starE [OF u(1)] obtain t' where "mst_rest s = t' @ mst_rest u" "CHR 0x0A \<notin> set t'"
    by blast
  with t(1) have "CHR 0x0A \<notin> set t" by simp
  moreover from runs_EolE [OF u(2)] have "s' = set_group n s u" "mst_rest u = [] \<or> mst_rest u = [CHR 0x0A]"
    by simp_all
  ultimately show thesis using t by (intro that) auto
qed

lemma runs_tail_exists:
  assumes "CHR 0x0A \<notin> set (mst_rest s)"
  shows "\<exists>s'. s' \<in> set (runs no_flags (Seq (Grp n (Rep 0 None True AnyC)) Eol) s)"
proof -
  let ?u = "adv (length (mst_rest s)) s"
  have "takeWhile (\<lambda>c. dot_all no_flags \<or> c \<noteq> CHR 0x0A) (mst_rest s) = mst_rest s"
    using assms by (auto simp: takeWhile_eq_all_conv no_flags_def)
  then have "?u \<in> set (runs no_flags (Rep 0 None True AnyC) s)"
    unfolding runs_any_star by (simp only: image_iff) (intro bexI [of _ "length (mst_rest s)"], simp_all)
  moreover have "set_group n s ?u \<in> set (runs no_flags Eol (set_group n s ?u))"
    by (simp add: at_eol_iff)
  moreover have "set_group n s ?u \<in> set (runs no_flags (Grp n (Rep 0 None True AnyC)) s)"
    using calculation(1) unfolding runs_Grp_set by blast
  ultimately show ?thesis using runs_SeqI by blast
qed

declare runs.simps [simp del]

section \<open>The end of a pattern\<close>

abbreviation any_tail :: "nat \<Rightarrow> re" where
  "any_tail n \<equiv> Seq (Grp n (Rep 0 None True AnyC)) Eol"

fun literal :: "string \<Rightarrow> re \<Rightarrow> re" where
  "literal [] r = r"
| "literal (c # cs) r = Seq (Cls False [One c]) (literal cs r)"

lemma runs_literalE:
  assumes "s' \<in> set (runs f (literal cs r) s)"
  obtains u where "s' \<in> set (runs f r u)" "mst_pos u = mst_pos s + length cs"
    "mst_pos u + length (mst_rest u) = mst_pos s + length (mst_rest s)"
proof -
  have "\<exists>u. s' \<in> set (runs f r u) \<and> mst_pos u = mst_pos s + length cs
      \<and> mst_pos u + length (mst_rest u) = mst_pos s + length (mst_rest s)"
    using assms
  proof (induction cs arbitrary: s)
    case (Cons c cs)
    from Cons.prems obtain v where v: "s' \<in> set (runs f (literal cs r) v)" "mst_pos v = mst_pos s + 1"
        "mst_rest s = c # mst_rest v \<or> (\<exists>d. mst_rest s = d # mst_rest v)"
      by (auto elim!: runs_Seq_ClsE)
    from Cons.IH [OF v(1)] v(2,3) show ?case by auto
  qed auto
  then show thesis using that by blast
qed

text \<open>How much text a part of a pattern takes at least.\<close>

fun min_width :: "re \<Rightarrow> nat" where
  "min_width (Cls neg is) = 1"
| "min_width AnyC = 1"
| "min_width (Seq a b) = min_width a + min_width b"
| "min_width (Alt a b) = min (min_width a) (min_width b)"
| "min_width (Rep lo hi g a) = lo * min_width a"
| "min_width (Grp n a) = min_width a"
| "min_width _ = 0"

lemma rep_runs_min_width:
  assumes "\<And>s s'. s' \<in> set (m s) \<Longrightarrow> seg s s' \<and> mst_pos s + w \<le> mst_pos s'"
  shows "s' \<in> set (rep_runs m lo hi g n s) \<Longrightarrow> mst_pos s + lo * w \<le> mst_pos s'"
proof (induction lo arbitrary: s)
  case 0
  have "seg s s'" using seg_rep_runs [of m] assms 0 by blast
  then show ?case by (auto simp: seg_def)
next
  case (Suc lo)
  then obtain u where "u \<in> set (m s)" "s' \<in> set (rep_runs m lo hi g n u)" by auto
  with Suc.IH [of u] assms [of u s] show ?case by simp
qed

lemma runs_min_width: "s' \<in> set (runs f r s) \<Longrightarrow> mst_pos s + min_width r \<le> mst_pos s'"
proof (induction r arbitrary: s s')
  case (Seq a b)
  from Seq.prems obtain u where u: "u \<in> set (runs f a s)" "s' \<in> set (runs f b u)" by (auto simp: runs.simps)
  from Seq.IH(1) [OF u(1)] Seq.IH(2) [OF u(2)] show ?case by simp
next
  case (Alt a b)
  then consider "s' \<in> set (runs f a s)" | "s' \<in> set (runs f b s)" by (auto simp: runs.simps)
  then show ?case using Alt.IH [of s' s] by cases auto
next
  case (Rep lo hi g a)
  then show ?case using rep_runs_min_width [of "runs f a" "min_width a"] seg_runs by (simp add: runs.simps)
next
  case (Cls neg cs)
  then show ?case by (auto simp: runs_Cls char_runs_set)
next
  case AnyC
  then show ?case by (auto simp: runs_AnyC char_runs_set)
next
  case (Grp n a)
  then show ?case by (auto simp: runs_Grp_set)
qed (auto simp: seg_def dest!: seg_runs)

text \<open>The text before the tail: at least the sum of the widths of the parts before it.\<close>

fun width_before :: "nat \<Rightarrow> re \<Rightarrow> nat option" where
  "width_before n (Seq a b) =
     (if Seq a b = any_tail n then Some 0 else map_option (\<lambda>k. min_width a + k) (width_before n b))"
| "width_before n r = None"

lemma runs_tail_bound:
  "width_before n r = Some k \<Longrightarrow> s' \<in> set (runs no_flags r s) \<Longrightarrow>
   \<exists>i t. map_of (mst_caps s') n = Some (i, t) \<and> k + length t \<le> length (mst_rest s)"
proof (induction n r arbitrary: k s rule: width_before.induct)
  case (1 n a b)
  show ?case
  proof (cases "Seq a b = any_tail n")
    case True
    with 1(2) have "k = 0" by simp
    moreover from 1(3) True obtain t where "mst_rest s = t \<or> mst_rest s = t @ [CHR 0x0A]"
        "map_of (mst_caps s') n = Some (mst_pos s, t)"
      by (metis runs_tailE)
    ultimately show ?thesis by auto
  next
    case False
    with 1(2) obtain j where j: "width_before n b = Some j" "k = min_width a + j"
      by (auto split: if_splits)
    from 1(3) obtain u where u: "u \<in> set (runs no_flags a s)" "s' \<in> set (runs no_flags b u)"
      by (auto simp: runs_Seq_set)
    from 1(1) [OF False j(1) u(2)] obtain i t where
      t: "map_of (mst_caps s') n = Some (i, t)" "j + length t \<le> length (mst_rest u)" by blast
    have "mst_pos s + min_width a \<le> mst_pos u" using u(1) by (rule runs_min_width)
    moreover have "mst_pos u + length (mst_rest u) = mst_pos s + length (mst_rest s)"
      using seg_length [OF seg_runs [OF u(1)]] .
    ultimately show ?thesis using t j(2) by (intro exI [of _ i] exI [of _ t]) simp
  qed
qed simp_all

lemma tail_group_bound:
  assumes "re_compile no_flags p = Some (no_flags, r)" and "width_before n r = Some k" and "Match p line = Some m"
    and "0 < n"
  shows "length (grp m n) + k \<le> length line"
proof -
  from Match_runD [OF assms(1,3)] obtain s' where
    s': "s' \<in> set (runs no_flags r (MS None line 0 []))" "m = mk_match (MS None line 0 []) s'" by blast
  from runs_tail_bound [OF assms(2) s'(1)] s'(2) assms(4) show ?thesis by (auto simp: grp_mk_match)
qed

text \<open>The same for the text of a pattern, so that the bound is found by evaluation.\<close>

definition tail_width :: "string \<Rightarrow> nat \<Rightarrow> nat option" where
  "tail_width p n =
     (case re_compile no_flags p of
        None \<Rightarrow> None
      | Some (f, r) \<Rightarrow> if f = no_flags \<and> 0 < n then width_before n r else None)"

lemma tail_width_bound: "tail_width p n = Some k \<Longrightarrow> Match p line = Some m \<Longrightarrow> length (grp m n) + k \<le> length line"
  using tail_group_bound [of p _ n k line m] by (auto simp: tail_width_def split: option.splits if_splits)

end
