(* ===== verification/Cleanse.thy ===== *)
theory Cleanse
  imports LintState RegexFacts "HOL-Library.Sublist"
begin

text \<open>
  The cleansing of the lines before they are checked: raw strings (\<open>CleanseRawStrings\<close>), multi-line
  comments (\<open>RemoveMultiLineComments\<close>), single-line comments (\<open>CleanseComments\<close>), string literals
  (\<open>CleansedLines._CollapseStrings\<close>) and the class \<open>CleansedLines\<close> that holds the four versions of
  the file. The loops are functions with a termination proof from the shape of the pattern they
  match; where the source takes a group of a match that could be absent the result is an
  \<open>AttributeError\<close>, and the lemmas show that it never is.
\<close>

section \<open>Strings\<close>

definition double_backslash :: string where
  "double_backslash = [CHR 0x5C, CHR 0x5C]"

definition IsCppString :: "string \<Rightarrow> bool" where
  \<open>IsCppString line =
     (let line = py_replace line double_backslash ''XX'' in
      (py_count line ''"'' - py_count line (rx ''`"'') - py_count line (quote1 @ ''"'' @ quote1)) mod 2 = 1)\<close>

section \<open>Raw strings\<close>

definition RAW_STRING_PATTERN :: string where
  \<open>RAW_STRING_PATTERN = rx ''^(.*?)`b(?:R|u8R|uR|UR|LR)"([^`s``()]*)`((.*)$''\<close>

definition RAW_PREFIX_COMMENT_PATTERN :: string where
  \<open>RAW_PREFIX_COMMENT_PATTERN = rx ''^([^\'"]|\'(``.|[^\'])*\'|"(``.|[^"])*")*//''\<close>

definition LEADING_SPACE_PATTERN :: string where
  \<open>LEADING_SPACE_PATTERN = rx ''^(`s*)`S''\<close>

text \<open>The syntax trees of the patterns.\<close>

definition raw_prefix_re :: re where
  \<open>raw_prefix_re = Alt (Cls False [One (CHR ''R'')])
     (Alt (Seq (Cls False [One (CHR ''u'')]) (Seq (Cls False [One (CHR ''8'')]) (Cls False [One (CHR ''R'')])))
     (Alt (Seq (Cls False [One (CHR ''u'')]) (Cls False [One (CHR ''R'')]))
     (Alt (Seq (Cls False [One (CHR ''U'')]) (Cls False [One (CHR ''R'')]))
          (Seq (Cls False [One (CHR ''L'')]) (Cls False [One (CHR ''R'')])))))\<close>

definition raw_string_re :: re where
  \<open>raw_string_re = Seq Bol (Seq (Grp 1 (Rep 0 None False AnyC)) (Seq (WordB True) (Seq raw_prefix_re
       (Seq (Cls False [One (CHR 0x22)])
       (Seq (Grp 2 (Rep 0 None True (Cls True [Space True, One (CHR 0x5C), One (CHR ''(''), One (CHR '')'')])))
       (Seq (Cls False [One (CHR ''('')]) (any_tail 3)))))))\<close>

lemma groups_of_raw_prefix [simp]: "groups_of raw_prefix_re = {}"
  by (simp add: raw_prefix_re_def)

lemma RAW_STRING_compiled: "re_compile no_flags RAW_STRING_PATTERN = Some (no_flags, raw_string_re)"
  by code_simp

lemma LEADING_SPACE_compiled:
  "re_compile no_flags LEADING_SPACE_PATTERN = Some (no_flags,
     Seq Bol (Seq (Grp 1 (Rep 0 None True (Cls False [Space True]))) (Cls False [Space False])))"
  by code_simp

text \<open>A match of the raw string pattern: the three groups and at least three more characters.\<close>

lemma raw_string_shape:
  assumes "Match RAW_STRING_PATTERN line = Some m"
  shows "length (grp m 1) + length (grp m 2) + length (grp m 3) + 2 \<le> length line"
proof -
  let ?s = "MS None line 0 []"
  obtain s' where run: "s' \<in> set (runs no_flags raw_string_re ?s)" and m: "m = mk_match ?s s'"
    using RAW_STRING_compiled assms by (rule Match_runD)
  have "\<exists>t1 t2 t3 i j k. map_of (mst_caps s') 1 = Some (i, t1) \<and> map_of (mst_caps s') 2 = Some (j, t2)
      \<and> map_of (mst_caps s') 3 = Some (k, t3) \<and> length t1 + length t2 + length t3 + 2 \<le> length line"
    using run unfolding raw_string_re_def
  proof (elim runs_Seq_GrpE runs_Seq_ClsE runs_SeqE, goal_cases)
    case 4
    then show ?case by (intro exI conjI) (assumption+, simp)
  qed simp_all
  then show ?thesis using m by (auto simp: grp_mk_match)
qed

lemma leading_space_exists:
  assumes "\<exists>c \<in> set line. \<not> is_space c"
  shows "\<exists>m. Match LEADING_SPACE_PATTERN line = Some m"
proof -
  let ?s = "MS None line 0 []" and ?P = "in_cls no_flags False [Space True]"
  have P: "?P = is_space" by (rule ext) (simp add: in_cls_def no_flags_def)
  define k where "k = length (takeWhile is_space line)"
  define u where "u = set_group 1 ?s (adv k ?s)"
  have "k < length line"
    using assms unfolding k_def
    by (metis length_takeWhile_le nat_less_le set_takeWhileD takeWhile_eq_take take_all order_refl)
  then have c: "mst_rest u = line ! k # drop (Suc k) line" "\<not> is_space (line ! k)"
    using nth_length_takeWhile [of is_space line] by (simp_all add: u_def k_def Cons_nth_drop_Suc)
  have "adv k ?s \<in> set (runs no_flags (Rep 0 None True (Cls False [Space True])) ?s)"
    unfolding runs_cls_star P by (auto simp: k_def)
  then have u: "u \<in> set (runs no_flags (Grp 1 (Rep 0 None True (Cls False [Space True]))) ?s)"
    unfolding runs_Grp_set u_def by blast
  have "adv 1 u \<in> set (runs no_flags (Cls False [Space False]) u)"
    unfolding runs_Cls char_runs_set using c by (auto simp: in_cls_def no_flags_def)
  with u have "adv 1 u \<in> set (runs no_flags (Seq (Grp 1 (Rep 0 None True (Cls False [Space True]))) (Cls False [Space False])) ?s)"
    by (rule runs_SeqI)
  then have "adv 1 u \<in> set (runs no_flags (Seq Bol (Seq (Grp 1 (Rep 0 None True (Cls False [Space True]))) (Cls False [Space False]))) ?s)"
    by (simp only: runs_Bol_start)
  with LEADING_SPACE_compiled show ?thesis by (rule Match_exists)
qed

text \<open>The inner loop replaces the raw strings of a line one by one; the second component is the
  delimiter that ends a raw string the line leaves open.\<close>

function raw_loop :: "string \<Rightarrow> string \<times> string option" where
  \<open>raw_loop line =
     (case Match RAW_STRING_PATTERN line of
        None \<Rightarrow> (line, None)
      | Some matched \<Rightarrow>
          if is_match RAW_PREFIX_COMMENT_PATTERN (grp matched 1) then (line, None)
          else
            (let delimiter = '')'' @ grp matched 2 @ ''"'';
                 end = py_find (grp matched 3) delimiter
             in if end \<ge> 0 then
                  raw_loop (grp matched 1 @ [CHR 0x22, CHR 0x22] @
                            py_from (grp matched 3) (end + int (length delimiter)))
                else (grp matched 1 @ [CHR 0x22, CHR 0x22], Some delimiter)))\<close>
  by pat_completeness auto

lemma raw_loop_shorter:
  assumes "Match RAW_STRING_PATTERN line = Some m" and "py_find (grp m 3) d \<ge> 0" and "d \<noteq> []"
  shows "length (grp m 1 @ [CHR 0x22, CHR 0x22] @
     py_from (grp m 3) (py_find (grp m 3) d + int (length d))) < length line"
proof -
  obtain n where n: "py_find (grp m 3) d = int n" using assms(2) nonneg_int_cases by blast
  from py_find_bound [OF n] have "n + length d \<le> length (grp m 3)" .
  moreover have "py_from (grp m 3) (int n + int (length d)) = drop (n + length d) (grp m 3)"
    by (simp only: of_nat_add [symmetric] py_from_nat)
  moreover obtain k where "length d = Suc k" using assms(3) by (cases d) simp_all
  ultimately show ?thesis using raw_string_shape [OF assms(1)] by (simp only: n) simp
qed

termination raw_loop
  by (relation "measure length", simp, simp only: in_measure, rule raw_loop_shorter, assumption, simp_all)

declare raw_loop.simps [simp del]

definition raw_line :: "string option \<Rightarrow> string \<Rightarrow> (string \<times> string option) result" where
  "raw_line delimiter line =
     (case delimiter of
        None \<Rightarrow> Inr (raw_loop line)
      | Some d \<Rightarrow>
          (let end = py_find line d in
           if end \<ge> 0 then
             (case Match LEADING_SPACE_PATTERN line of
                None \<Rightarrow> Inl AttributeError
              | Some leading_space \<Rightarrow>
                  Inr (raw_loop (grp leading_space 1 @ [CHR 0x22, CHR 0x22] @
                                 py_from line (end + int (length d)))))
           else Inr ([CHR 0x22, CHR 0x22], Some d)))"

fun raw_lines_from :: "string option \<Rightarrow> string list \<Rightarrow> string list result" where
  "raw_lines_from delimiter [] = Inr []"
| "raw_lines_from delimiter (line # raw_lines) =
     bind_result (raw_line delimiter line) (\<lambda>(line', delimiter').
       bind_result (raw_lines_from delimiter' raw_lines) (\<lambda>ls. Inr (line' # ls)))"

definition CleanseRawStrings :: "string list \<Rightarrow> string list result" where
  "CleanseRawStrings raw_lines = raw_lines_from None raw_lines"

section \<open>Multi-line comments\<close>

definition opens_comment :: "string \<Rightarrow> bool" where
  "opens_comment line \<longleftrightarrow>
     startswith (py_strip line) ''/*'' \<and> py_find_from (py_strip line) ''*/'' 2 < 0"

definition closes_comment :: "string \<Rightarrow> bool" where
  "closes_comment line \<longleftrightarrow> endswith (py_strip line) ''*/''"

fun first_index :: "('a \<Rightarrow> bool) \<Rightarrow> 'a list \<Rightarrow> nat" where
  "first_index P [] = 0"
| "first_index P (x # xs) = (if P x then 0 else Suc (first_index P xs))"

definition FindNextMultiLineCommentStart :: "string list \<Rightarrow> nat \<Rightarrow> nat" where
  "FindNextMultiLineCommentStart lines lineix =
     (if lineix < length lines then lineix + first_index opens_comment (drop lineix lines)
      else length lines)"

definition FindNextMultiLineCommentEnd :: "string list \<Rightarrow> nat \<Rightarrow> nat" where
  "FindNextMultiLineCommentEnd lines lineix =
     (if lineix < length lines then lineix + first_index closes_comment (drop lineix lines)
      else length lines)"

definition RemoveMultiLineCommentsFromRange :: "string list \<Rightarrow> nat \<Rightarrow> nat \<Rightarrow> string list" where
  "RemoveMultiLineCommentsFromRange lines begin end =
     fold (\<lambda>i lines. lines[i := ''/**/'']) [begin..<end] lines"

lemma first_index_le: "first_index P xs \<le> length xs"
  by (induction xs) auto

lemma first_index_less: "first_index P xs < length xs \<longleftrightarrow> (\<exists>x \<in> set xs. P x)"
  by (induction xs) auto

lemma first_index_nth: "first_index P xs < length xs \<Longrightarrow> P (xs ! first_index P xs)"
  by (induction xs) auto

lemma first_index_before: "i < first_index P xs \<Longrightarrow> \<not> P (xs ! i)"
  by (induction xs arbitrary: i) (auto split: if_splits simp: nth_Cons')

lemma FindStart_bounds:
  "lineix \<le> length lines \<Longrightarrow> lineix \<le> FindNextMultiLineCommentStart lines lineix
     \<and> FindNextMultiLineCommentStart lines lineix \<le> length lines"
  using first_index_le [of opens_comment "drop lineix lines"]
  by (auto simp: FindNextMultiLineCommentStart_def)

lemma FindEnd_bounds:
  "lineix \<le> length lines \<Longrightarrow> lineix \<le> FindNextMultiLineCommentEnd lines lineix
     \<and> FindNextMultiLineCommentEnd lines lineix \<le> length lines"
  using first_index_le [of closes_comment "drop lineix lines"]
  by (auto simp: FindNextMultiLineCommentEnd_def)

lemma length_RemoveRange [simp, py_length]:
  "length (RemoveMultiLineCommentsFromRange lines b e) = length lines"
proof -
  have "length (fold (\<lambda>i lines. lines[i := ''/**/'']) is lines) = length lines" for "is"
    by (induction "is" arbitrary: lines) auto
  then show ?thesis by (simp add: RemoveMultiLineCommentsFromRange_def)
qed

lemma nth_RemoveRange:
  assumes "i < length lines"
  shows "RemoveMultiLineCommentsFromRange lines b e ! i = (if b \<le> i \<and> i < e then ''/**/'' else lines ! i)"
proof -
  have "i < length ls \<Longrightarrow> fold (\<lambda>i lines. lines[i := ''/**/'']) is ls ! i = (if i \<in> set is then ''/**/'' else ls ! i)"
    for "is" ls
    by (induction "is" arbitrary: ls) (auto simp: nth_list_update)
  with assms show ?thesis by (simp add: RemoveMultiLineCommentsFromRange_def)
qed

text \<open>The loop over the lines, which the source overwrites in place, with the calls of \<open>error\<close>.\<close>

function remove_comments_from :: "string list \<Rightarrow> nat \<Rightarrow> string list \<times> report list" where
  "remove_comments_from lines lineix =
     (if lineix < length lines then
        (let lineix_begin = FindNextMultiLineCommentStart lines lineix in
         if lineix_begin \<ge> length lines then (lines, [])
         else
           (let lineix_end = FindNextMultiLineCommentEnd lines lineix_begin in
            if lineix_end \<ge> length lines then
              (lines, [report (int lineix_begin + 1) ''readability/multiline_comment'' 5
                         ''Could not find end of multi-line comment''])
            else remove_comments_from
                   (RemoveMultiLineCommentsFromRange lines lineix_begin (lineix_end + 1))
                   (lineix_end + 1)))
      else (lines, []))"
  by pat_completeness auto

termination remove_comments_from
proof (relation "measure (\<lambda>(lines, lineix). length lines - lineix)", goal_cases)
  case (2 lines lineix b e)
  then show ?case using FindStart_bounds [of lineix lines] FindEnd_bounds [of b lines] by simp
qed simp

declare remove_comments_from.simps [simp del]

definition RemoveMultiLineComments :: "string list \<Rightarrow> string list \<times> report list" where
  "RemoveMultiLineComments lines = remove_comments_from lines 0"

section \<open>Comments and strings of one line\<close>

definition CleanseComments :: "string \<Rightarrow> string" where
  "CleanseComments line =
     (let commentpos = py_find line ''//'';
          line = (if commentpos \<noteq> -1 \<and> \<not> IsCppString (py_upto line commentpos)
                  then py_rstrip (py_upto line commentpos) else line)
      in ReplaceAll RE_PATTERN_CLEANSE_LINE_C_COMMENTS [] line)"

definition QUOTE_PATTERN :: string where
  \<open>QUOTE_PATTERN = rx ''^([^\'"]*)([\'"])(.*)$''\<close>

definition LITERAL_PATTERN :: string where
  \<open>LITERAL_PATTERN = rx ''^((?:\'?[0-9a-zA-Z_])*)(.*)$''\<close>

definition DIGITS_PATTERN :: string where
  \<open>DIGITS_PATTERN = rx ''`b(?:0[bBxX]?|[1-9])[0-9a-fA-F]*$''\<close>

definition is_quote :: "char \<Rightarrow> bool" where
  "is_quote c \<longleftrightarrow> c = CHR 0x27 \<or> c = CHR 0x22"

lemma QUOTE_compiled:
  "re_compile no_flags QUOTE_PATTERN = Some (no_flags,
     Seq Bol (Seq (Grp 1 (Rep 0 None True (Cls True [One (CHR 0x27), One (CHR 0x22)])))
       (Seq (Grp 2 (Cls False [One (CHR 0x27), One (CHR 0x22)])) (any_tail 3))))"
  by code_simp

definition literal_char_re :: re where
  "literal_char_re = Seq (Rep 0 (Some 1) True (Cls False [One (CHR 0x27)]))
     (Cls False [Range (CHR ''0'') (CHR ''9''), Range (CHR ''a'') (CHR ''z''),
                 Range (CHR ''A'') (CHR ''Z''), One (CHR ''_'')])"

lemma LITERAL_compiled:
  "re_compile no_flags LITERAL_PATTERN = Some (no_flags,
     Seq Bol (Seq (Grp 1 (Rep 0 None True literal_char_re)) (any_tail 2)))"
  by code_simp

text \<open>A quote match splits the line at its first quote character.\<close>

lemma quote_shape:
  assumes "Match QUOTE_PATTERN line = Some m"
  obtains q where "line = grp m 1 @ [q] @ grp m 3 \<or> line = grp m 1 @ [q] @ grp m 3 @ [CHR 0x0A]"
    and "grp m 2 = [q]" and "is_quote q" and "\<not> list_ex is_quote (grp m 1)" and "CHR 0x0A \<notin> set (grp m 3)"
proof -
  let ?s = "MS None line 0 []"
  obtain s' where run: "s' \<in> set (runs no_flags (Seq Bol (Seq (Grp 1 (Rep 0 None True (Cls True [One (CHR 0x27), One (CHR 0x22)])))
       (Seq (Grp 2 (Cls False [One (CHR 0x27), One (CHR 0x22)])) (any_tail 3)))) ?s)" and m: "m = mk_match ?s s'"
    using QUOTE_compiled assms by (rule Match_runD)
  show thesis
    using run [unfolded runs_Bol_start]
  proof (elim runs_tailE runs_Seq_GrpE runs_cls_starE runs_ClsE, goal_cases)
    case (3 u t ua ta tb tc c)
    have g: "grp m 1 = t" "grp m 2 = ta" "grp m 3 = tb"
      using 3(3,6,9) by (simp_all add: m grp_mk_match)
    have "tc = t" using 3(1,11) by simp
    with 3(12) have "\<not> list_ex is_quote t"
      by (auto simp: list_all_iff list_ex_iff in_cls_def no_flags_def is_quote_def)
    moreover have "ta = [c]" using 3(4,14) by simp
    moreover have "is_quote c" using 3(15) by (auto simp: in_cls_def no_flags_def is_quote_def)
    moreover have "line = t @ [c] @ tb \<or> line = t @ [c] @ tb @ [CHR 0x0A]"
      using 3(1,7,14) by auto
    ultimately show ?case using 3(8) g that [of c] by simp
  qed (simp_all (no_asm))
qed

lemma quote_none:
  assumes "Match QUOTE_PATTERN line = None" and "CHR 0x0A \<notin> set line"
  shows "\<not> list_ex is_quote line"
proof
  assume ex: "list_ex is_quote line"
  let ?s = "MS None line 0 []" and ?P = "in_cls no_flags True [One (CHR 0x27), One (CHR 0x22)]"
  have P: "?P = (\<lambda>c. \<not> is_quote c)" by (rule ext) (simp add: in_cls_def no_flags_def is_quote_def)
  define k where "k = length (takeWhile (\<lambda>c. \<not> is_quote c) line)"
  define u where "u = set_group 1 ?s (adv k ?s)"
  have "k < length line"
    using ex unfolding k_def list_ex_iff
    by (metis length_takeWhile_le nat_less_le set_takeWhileD takeWhile_eq_take take_all order_refl)
  then have c: "mst_rest u = line ! k # drop (Suc k) line" "is_quote (line ! k)"
    using nth_length_takeWhile [of "\<lambda>c. \<not> is_quote c" line] by (simp_all add: u_def k_def Cons_nth_drop_Suc)
  have "adv k ?s \<in> set (runs no_flags (Rep 0 None True (Cls True [One (CHR 0x27), One (CHR 0x22)])) ?s)"
    unfolding runs_cls_star P by (auto simp: k_def)
  then have 1: "u \<in> set (runs no_flags (Grp 1 (Rep 0 None True (Cls True [One (CHR 0x27), One (CHR 0x22)]))) ?s)"
    unfolding runs_Grp_set u_def by blast
  define v where "v = set_group 2 u (adv 1 u)"
  have "adv 1 u \<in> set (runs no_flags (Cls False [One (CHR 0x27), One (CHR 0x22)]) u)"
    unfolding runs_Cls char_runs_set using c by (auto simp: in_cls_def no_flags_def is_quote_def)
  then have 2: "v \<in> set (runs no_flags (Grp 2 (Cls False [One (CHR 0x27), One (CHR 0x22)])) u)"
    unfolding runs_Grp_set v_def by blast
  have "CHR 0x0A \<notin> set (mst_rest v)"
    using assms(2) c by (auto simp: v_def dest: in_set_dropD)
  then obtain s' where "s' \<in> set (runs no_flags (any_tail 3) v)" using runs_tail_exists by blast
  from runs_SeqI [OF 1 runs_SeqI [OF 2 this]] have "\<exists>m. Match QUOTE_PATTERN line = Some m"
    by (intro Match_exists [OF QUOTE_compiled]) (simp only: runs_Bol_start)
  with assms(1) show False by simp
qed

lemma literal_exists:
  assumes "CHR 0x0A \<notin> set line"
  shows "\<exists>m. Match LITERAL_PATTERN line = Some m"
proof -
  let ?s = "MS None line 0 []"
  have 1: "set_group 1 ?s ?s \<in> set (runs no_flags (Grp 1 (Rep 0 None True literal_char_re)) ?s)"
    unfolding runs_Grp_set using runs_star_zero by blast
  have "CHR 0x0A \<notin> set (mst_rest (set_group 1 ?s ?s))" using assms by simp
  then obtain s' where "s' \<in> set (runs no_flags (any_tail 2) (set_group 1 ?s ?s))"
    using runs_tail_exists by blast
  from runs_SeqI [OF 1 this] show ?thesis
    by (intro Match_exists [OF LITERAL_compiled]) (simp only: runs_Bol_start)
qed

lemma literal_shape:
  assumes "Match LITERAL_PATTERN line = Some m"
  shows "line = grp m 1 @ grp m 2 \<or> line = grp m 1 @ grp m 2 @ [CHR 0x0A]"
proof -
  let ?s = "MS None line 0 []"
  obtain s' where run: "s' \<in> set (runs no_flags (Seq Bol (Seq (Grp 1 (Rep 0 None True literal_char_re)) (any_tail 2))) ?s)"
    and m: "m = mk_match ?s s'"
    using LITERAL_compiled assms by (rule Match_runD)
  show ?thesis
    using run [unfolded runs_Bol_start]
  proof (elim runs_tailE runs_Seq_GrpE, goal_cases)
    case (2 u t tb)
    then show ?case by (auto simp: m grp_mk_match)
  qed simp_all
qed

text \<open>The collapsing loop consumes the line; the accumulator is \<open>collapsed\<close>.\<close>

function collapse_loop :: "string \<Rightarrow> string \<Rightarrow> string result" where
  "collapse_loop collapsed elided =
     (case Match QUOTE_PATTERN elided of
        None \<Rightarrow> Inr (collapsed @ elided)
      | Some m \<Rightarrow>
          (let head = grp m 1; quote = grp m 2; tail = grp m 3 in
           if quote = [CHR 0x22] then
             (let second_quote = py_find tail [CHR 0x22] in
              if second_quote \<ge> 0
              then collapse_loop (collapsed @ head @ [CHR 0x22, CHR 0x22]) (py_from tail (second_quote + 1))
              else Inr (collapsed @ elided))
           else if is_found DIGITS_PATTERN head then
             (case Match LITERAL_PATTERN (CHR 0x27 # tail) of
                None \<Rightarrow> Inl AttributeError
              | Some ml \<Rightarrow>
                  collapse_loop (collapsed @ head @ py_replace (grp ml 1) [CHR 0x27] []) (grp ml 2))
           else
             (let second_quote = py_find tail [CHR 0x27] in
              if second_quote \<ge> 0
              then collapse_loop (collapsed @ head @ [CHR 0x27, CHR 0x27]) (py_from tail (second_quote + 1))
              else Inr (collapsed @ elided))))"
  by pat_completeness auto

lemma digits_head: "is_found DIGITS_PATTERN head \<Longrightarrow> head \<noteq> []"
proof
  assume "is_found DIGITS_PATTERN head" "head = []"
  moreover have "is_found DIGITS_PATTERN [] = False" by code_simp
  ultimately show False by simp
qed

lemma collapse_shorter:
  assumes "Match QUOTE_PATTERN line = Some m"
  shows "length (grp m 1) + length (grp m 3) < length line"
proof -
  from assms obtain q where "line = grp m 1 @ [q] @ grp m 3 \<or> line = grp m 1 @ [q] @ grp m 3 @ [CHR 0x0A]"
    by (rule quote_shape)
  then have "length line = length (grp m 1 @ [q] @ grp m 3) \<or> length line = length (grp m 1 @ [q] @ grp m 3 @ [CHR 0x0A])"
    by metis
  then show ?thesis by auto
qed

lemma literal_shorter: "Match LITERAL_PATTERN line = Some m \<Longrightarrow> length (grp m 1) + length (grp m 2) \<le> length line"
proof -
  assume "Match LITERAL_PATTERN line = Some m"
  then have "line = grp m 1 @ grp m 2 \<or> line = grp m 1 @ grp m 2 @ [CHR 0x0A]" by (rule literal_shape)
  then have "length line = length (grp m 1 @ grp m 2) \<or> length line = length (grp m 1 @ grp m 2 @ [CHR 0x0A])"
    by metis
  then show ?thesis by auto
qed

lemma collapse_cut: "Match QUOTE_PATTERN line = Some m \<Longrightarrow> length (py_from (grp m 3) i) < length line"
  using collapse_shorter [of line m] length_py_from [of "grp m 3" i] by linarith

lemma collapse_literal:
  assumes "Match QUOTE_PATTERN line = Some m" and "is_found DIGITS_PATTERN (grp m 1)"
    and "Match LITERAL_PATTERN (CHR 0x27 # grp m 3) = Some ml"
  shows "length (grp ml 2) < length line"
proof -
  have "0 < length (grp m 1)" using digits_head [OF assms(2)] by simp
  moreover have "length (grp ml 2) \<le> Suc (length (grp m 3))" using literal_shorter [OF assms(3)] by simp
  ultimately show ?thesis using collapse_shorter [OF assms(1)] by linarith
qed

termination collapse_loop
  by (relation "measure (\<lambda>(collapsed, elided). length elided)")
     (simp_all add: collapse_cut collapse_literal del: One_nat_def)

declare collapse_loop.simps [simp del]

definition CollapseStrings :: "string \<Rightarrow> string result" where
  "CollapseStrings elided =
     (if is_match RE_PATTERN_INCLUDE elided then Inr elided
      else collapse_loop [] (ReplaceAll RE_PATTERN_CLEANSE_LINE_ESCAPES [] elided))"

section \<open>The cleansed lines of a file\<close>

record cleansed =
  cl_elided :: "string list"
  cl_lines :: "string list"
  cl_raw_lines :: "string list"
  cl_num_lines :: nat
  cl_lines_without_raw_strings :: "string list"

definition CleansedLines :: "string list \<Rightarrow> cleansed result" where
  "CleansedLines lines =
     bind_result (CleanseRawStrings lines) (\<lambda>lines_without_raw_strings.
       bind_result (map_result CollapseStrings lines_without_raw_strings) (\<lambda>collapsed.
         Inr \<lparr>cl_elided = map CleanseComments collapsed,
              cl_lines = map CleanseComments lines_without_raw_strings,
              cl_raw_lines = lines, cl_num_lines = length lines,
              cl_lines_without_raw_strings = lines_without_raw_strings\<rparr>))"

definition NumLines :: "cleansed \<Rightarrow> nat" where
  "NumLines c = cl_num_lines c"

section \<open>Raw strings: lemmas\<close>

lemma raw_line_total: "d \<noteq> Some [] \<Longrightarrow> (\<forall>x. d = Some x \<longrightarrow> (\<exists>c \<in> set x. \<not> is_space c)) \<Longrightarrow>
   \<exists>line' d'. raw_line d line = Inr (line', d')"
proof (cases d)
  case None
  then show ?thesis by (simp add: raw_line_def)
next
  case (Some x)
  assume ns: "\<forall>x. d = Some x \<longrightarrow> (\<exists>c \<in> set x. \<not> is_space c)"
  show ?thesis
  proof (cases "0 \<le> py_find line x")
    case True
    then have "contains line x" by (simp add: py_find_nonneg_iff)
    then obtain u v where "line = u @ x @ v" by (auto simp: contains_iff)
    with ns Some have "\<exists>c \<in> set line. \<not> is_space c" by auto
    from leading_space_exists [OF this] show ?thesis
      using Some True by (auto simp: raw_line_def Let_def)
  qed (use Some in \<open>simp add: raw_line_def\<close>)
qed

definition closing_delimiter :: "string option \<Rightarrow> bool" where
  "closing_delimiter d \<longleftrightarrow> (\<forall>x. d = Some x \<longrightarrow> (\<exists>y. x = '')'' @ y))"

lemma raw_loop_delimiter: "closing_delimiter (snd (raw_loop line))"
proof (induction line rule: raw_loop.induct)
  case (1 line)
  show ?case
  proof (cases "Match RAW_STRING_PATTERN line")
    case None
    then show ?thesis by (simp add: raw_loop.simps [of line] closing_delimiter_def)
  next
    case (Some m)
    from 1 [OF Some] Some show ?thesis
      by (simp add: raw_loop.simps [of line] closing_delimiter_def Let_def)
  qed
qed

lemma raw_line_step:
  assumes "closing_delimiter d"
  shows "\<exists>line' d'. raw_line d line = Inr (line', d') \<and> closing_delimiter d'"
proof -
  have "\<not> is_space (CHR '')'')" by code_simp
  with assms have "\<forall>x. d = Some x \<longrightarrow> (\<exists>c \<in> set x. \<not> is_space c)"
    by (fastforce simp: closing_delimiter_def)
  moreover from assms have "d \<noteq> Some []" by (auto simp: closing_delimiter_def)
  ultimately obtain line' d' where r: "raw_line d line = Inr (line', d')" using raw_line_total by blast
  moreover have "closing_delimiter d'"
  proof (cases "\<exists>l. raw_loop l = (line', d')")
    case True
    then show ?thesis using raw_loop_delimiter by (metis snd_conv)
  next
    case False
    with r have "d' = d" by (auto simp: raw_line_def Let_def split: option.splits if_splits)
    with assms show ?thesis by simp
  qed
  ultimately show ?thesis by blast
qed

lemma raw_lines_total:
  "closing_delimiter d \<Longrightarrow> \<exists>ls. raw_lines_from d raw = Inr ls \<and> length ls = length raw"
proof (induction raw arbitrary: d)
  case (Cons line raw)
  from raw_line_step [OF Cons.prems] obtain line' d' where
    r: "raw_line d line = Inr (line', d')" "closing_delimiter d'" by blast
  from Cons.IH [OF r(2)] r(1) show ?case by auto
qed simp

lemma CleanseRawStrings_total: "\<exists>ls. CleanseRawStrings raw = Inr ls \<and> length ls = length raw"
  unfolding CleanseRawStrings_def by (rule raw_lines_total) (simp add: closing_delimiter_def)

lemma raw_lines_body:
  "list_all (\<lambda>l. \<not> contains l d) body \<Longrightarrow>
   raw_lines_from (Some d) (body @ rest) =
     bind_result (raw_lines_from (Some d) rest) (\<lambda>ls. Inr (map (\<lambda>_. [CHR 0x22, CHR 0x22]) body @ ls))"
  by (induction body) (auto simp: raw_line_def py_find_nonneg_iff [symmetric] bind_result_def split: sum.splits)

section \<open>Strings: lemmas\<close>

lemma subseq_sub_from: "(\<And>m. h m = []) \<Longrightarrow> subseq (sub_from f r h p s i k) s"
  by (induction f r h p s i k rule: sub_from.induct) (auto split: option.splits)

lemma subseq_ReplaceAll: "subseq (ReplaceAll p [] s) s"
  by (auto simp: ReplaceAll_def re_sub_def subseq_sub_from split: option.splits)

lemma subseq_replace: "subseq (replace_from p [] s k) s"
  by (induction p "[] :: string" s k rule: replace_from.induct) auto

lemma py_find_char:
  assumes "0 \<le> py_find t [c]"
  obtains n where "py_find t [c] = int n" "t = take n t @ [c] @ py_from t (py_find t [c] + 1)"
    "py_from t (py_find t [c] + 1) = drop (Suc n) t"
proof -
  obtain n where n: "py_find t [c] = int n" using assms nonneg_int_cases by blast
  then have "find_str [c] t = Some n" by (auto simp: py_find_def split: option.splits)
  from find_str_Some [OF this] have "t = take n t @ [c] @ drop (Suc n) t" by simp
  moreover have "py_from t (int n + 1) = drop (Suc n) t"
    by (metis of_nat_Suc add.commute py_from_nat)
  ultimately show thesis using that [of n] n by simp
qed

lemma collapse_loop_total:
  "\<exists>r. collapse_loop acc e = Inr (acc @ r) \<and> subseq r e"
proof (induction acc e rule: collapse_loop.induct)
  case (1 acc e)
  show ?case
  proof (cases "Match QUOTE_PATTERN e")
    case None
    then show ?thesis by (simp add: collapse_loop.simps)
  next
    case (Some m)
    from Some obtain q where e: "e = grp m 1 @ [q] @ grp m 3 \<or> e = grp m 1 @ [q] @ grp m 3 @ [CHR 0x0A]"
      and q: "grp m 2 = [q]" "is_quote q" and nl: "CHR 0x0A \<notin> set (grp m 3)"
      by (rule quote_shape)
    have e': "subseq (grp m 1 @ [q] @ grp m 3) e"
      using e by (metis append_assoc prefixI prefix_imp_subseq subseq_order.refl)
    have sub: "subseq (grp m 1 @ r) e" if "subseq r ([q] @ grp m 3)" for r
      using subseq_order.trans [OF _ e', of "grp m 1 @ r"] that subseq_append' by blast
    have cut: "\<exists>r. collapse_loop (acc @ grp m 1 @ [q, q]) (py_from (grp m 3) (py_find (grp m 3) [q] + 1))
        = Inr (acc @ r) \<and> subseq r e"
      if found: "0 \<le> py_find (grp m 3) [q]" and IH: "\<exists>r. collapse_loop (acc @ grp m 1 @ [q, q])
        (py_from (grp m 3) (py_find (grp m 3) [q] + 1)) = Inr ((acc @ grp m 1 @ [q, q]) @ r)
        \<and> subseq r (py_from (grp m 3) (py_find (grp m 3) [q] + 1))"
    proof -
      from IH obtain r where r: "collapse_loop (acc @ grp m 1 @ [q, q])
          (py_from (grp m 3) (py_find (grp m 3) [q] + 1)) = Inr (acc @ grp m 1 @ [q] @ [q] @ r)"
        "subseq r (py_from (grp m 3) (py_find (grp m 3) [q] + 1))" by auto
      obtain n where "grp m 3 = take n (grp m 3) @ [q] @ py_from (grp m 3) (py_find (grp m 3) [q] + 1)"
        using found by (rule py_find_char)
      moreover have "subseq ([q] @ r) ([q] @ py_from (grp m 3) (py_find (grp m 3) [q] + 1))"
        using r(2) by simp
      ultimately have "subseq ([q] @ r) (grp m 3)"
        by (metis list_emb_append2)
      then have "subseq (grp m 1 @ [q] @ [q] @ r) e" by (intro sub) simp
      with r(1) show ?thesis by blast
    qed
    show ?thesis
    proof (cases "q = CHR 0x22")
      case True
      show ?thesis
      proof (cases "0 \<le> py_find (grp m 3) [CHR 0x22]")
        case found: True
        have "\<exists>r. collapse_loop (acc @ grp m 1 @ [q, q]) (py_from (grp m 3) (py_find (grp m 3) [q] + 1))
            = Inr ((acc @ grp m 1 @ [q, q]) @ r) \<and> subseq r (py_from (grp m 3) (py_find (grp m 3) [q] + 1))"
          using 1(1) [OF Some refl refl refl _ refl] True found q by simp
        from cut [OF _ this] show ?thesis
          using Some True found q by (simp add: collapse_loop.simps [of acc e] Let_def)
      next
        case False
        then show ?thesis using Some True q by (simp add: collapse_loop.simps [of acc e])
      qed
    next
      case single: False
      with q(2) have q': "q = CHR 0x27" by (simp add: is_quote_def)
      show ?thesis
      proof (cases "is_found DIGITS_PATTERN (grp m 1)")
        case digits: True
        have "CHR 0x0A \<notin> set (CHR 0x27 # grp m 3)" using nl by simp
        from literal_exists [OF this] obtain ml where ml: "Match LITERAL_PATTERN (CHR 0x27 # grp m 3) = Some ml" ..
        from 1(2) [OF Some refl refl refl _ digits ml] q q'
        obtain r where r: "collapse_loop (acc @ grp m 1 @ py_replace (grp ml 1) [CHR 0x27] []) (grp ml 2)
            = Inr (acc @ grp m 1 @ py_replace (grp ml 1) [CHR 0x27] [] @ r)" "subseq r (grp ml 2)" by auto
        have "subseq (grp ml 1 @ grp ml 2) (CHR 0x27 # grp m 3)"
          using literal_shape [OF ml] by (metis append_assoc prefixI prefix_imp_subseq subseq_order.refl)
        moreover have "subseq (py_replace (grp ml 1) [CHR 0x27] [] @ r) (grp ml 1 @ grp ml 2)"
          unfolding py_replace_def using subseq_replace r(2) by (rule list_emb_append_mono)
        ultimately have "subseq (py_replace (grp ml 1) [CHR 0x27] [] @ r) ([q] @ grp m 3)"
          using subseq_order.trans q' by simp
        from sub [OF this] r(1) show ?thesis
          using Some digits q q' ml by (simp add: collapse_loop.simps [of acc e] Let_def)
      next
        case other: False
        show ?thesis
        proof (cases "0 \<le> py_find (grp m 3) [CHR 0x27]")
          case found: True
          have "\<exists>r. collapse_loop (acc @ grp m 1 @ [q, q]) (py_from (grp m 3) (py_find (grp m 3) [q] + 1))
              = Inr ((acc @ grp m 1 @ [q, q]) @ r) \<and> subseq r (py_from (grp m 3) (py_find (grp m 3) [q] + 1))"
            using 1(3) [OF Some refl refl refl _ other refl] q' found q by simp
          from cut [OF _ this] show ?thesis
            using Some q' other found q by (simp add: collapse_loop.simps [of acc e] Let_def)
        next
          case False
          then show ?thesis using Some q' other q by (simp add: collapse_loop.simps [of acc e])
        qed
      qed
    qed
  qed
qed

lemma CollapseStrings_total: "\<exists>r. CollapseStrings line = Inr r \<and> subseq r line"
proof (cases "is_match RE_PATTERN_INCLUDE line")
  case True
  then show ?thesis by (simp add: CollapseStrings_def)
next
  case False
  then show ?thesis
    using collapse_loop_total [of "[]" "ReplaceAll RE_PATTERN_CLEANSE_LINE_ESCAPES [] line"]
      subseq_ReplaceAll [of RE_PATTERN_CLEANSE_LINE_ESCAPES line] subseq_order.trans
    by (auto simp: CollapseStrings_def)
qed

lemma py_upto_prefix: "prefix (py_upto s i) s"
  by (simp add: py_upto_def take_is_prefix)

lemma py_rstrip_prefix: "prefix (py_rstrip s) s"
proof -
  have "s = rev (takeWhile is_space (rev s) @ dropWhile is_space (rev s))" by simp
  then have "s = py_rstrip s @ rev (takeWhile is_space (rev s))"
    unfolding py_rstrip_def by (metis rev_append)
  then show ?thesis by (rule prefixI)
qed

lemma subseq_CleanseComments: "subseq (CleanseComments line) line"
proof -
  have "subseq (py_rstrip (py_upto line i)) line" for i
    using py_rstrip_prefix py_upto_prefix prefix_order.trans prefix_imp_subseq by metis
  then show ?thesis
    using subseq_order.trans [OF subseq_ReplaceAll] by (auto simp: CleanseComments_def Let_def)
qed

lemma map_result_total:
  "(\<And>x. \<exists>y. f x = Inr y \<and> P x y) \<Longrightarrow> \<exists>ys. map_result f xs = Inr ys \<and> list_all2 P xs ys"
proof (induction xs)
  case (Cons x xs)
  from Cons.prems [of x] obtain y where "f x = Inr y" "P x y" by blast
  moreover from Cons.IH [OF Cons.prems] obtain ys where "map_result f xs = Inr ys" "list_all2 P xs ys" by blast
  ultimately show ?case by simp
qed simp

section \<open>Multi-line comments: lemmas\<close>

lemma not_opens_blank: "\<not> opens_comment ''/**/''"
  by code_simp

lemma drop_nth_from: "n \<le> i \<Longrightarrow> i < length xs \<Longrightarrow> xs ! i = drop n xs ! (i - n)"
  by simp

lemma FindStart_skips:
  assumes "lineix \<le> i" and "i < FindNextMultiLineCommentStart lines lineix" and "i < length lines"
  shows "\<not> opens_comment (lines ! i)"
proof -
  have "i - lineix < first_index opens_comment (drop lineix lines)"
    using assms by (auto simp: FindNextMultiLineCommentStart_def)
  from first_index_before [OF this] show ?thesis using assms by simp
qed

lemma FindStart_none:
  assumes "\<forall>i < length lines. \<not> opens_comment (lines ! i)"
  shows "FindNextMultiLineCommentStart lines 0 = length lines"
proof -
  have "\<not> first_index opens_comment lines < length lines"
    using assms unfolding first_index_less by (metis in_set_conv_nth)
  then show ?thesis
    using first_index_le [of opens_comment lines] by (auto simp: FindNextMultiLineCommentStart_def)
qed

lemma RemoveComments_none:
  assumes "\<forall>i < length lines. \<not> opens_comment (lines ! i)"
  shows "RemoveMultiLineComments lines = (lines, [])"
  using FindStart_none [OF assms]
  by (simp add: RemoveMultiLineComments_def remove_comments_from.simps [of lines 0])

definition comments_removed :: "string list \<Rightarrow> string list \<times> report list \<Rightarrow> bool" where
  "comments_removed lines res \<longleftrightarrow>
     length (fst res) = length lines
     \<and> (\<forall>i < length lines. fst res ! i = lines ! i \<or> fst res ! i = ''/**/'')
     \<and> (if snd res = [] then \<forall>i < length lines. \<not> opens_comment (fst res ! i)
        else length (snd res) = 1)"

lemma comments_removed_step:
  assumes "comments_removed (RemoveMultiLineCommentsFromRange lines b e) res"
  shows "comments_removed lines res"
  using assms by (auto simp: comments_removed_def nth_RemoveRange) metis

lemma remove_comments_from_ok:
  "lineix \<le> length lines \<Longrightarrow> \<forall>i < lineix. \<not> opens_comment (lines ! i) \<Longrightarrow>
   comments_removed lines (remove_comments_from lines lineix)"
proof (induction lines lineix rule: remove_comments_from.induct)
  case (1 lines lineix)
  define b where "b = FindNextMultiLineCommentStart lines lineix"
  define e where "e = FindNextMultiLineCommentEnd lines b"
  have before: "\<not> opens_comment (lines ! i)" if "i < b" "i < length lines" for i
    using that 1(3) FindStart_skips [of lineix i lines] b_def by (cases "i < lineix") auto
  show ?case
  proof (cases "lineix < length lines \<and> b < length lines \<and> e < length lines")
    case True
    have bounds: "lineix \<le> b \<and> b \<le> e"
      using True FindStart_bounds [of lineix lines] FindEnd_bounds [of b lines] by (simp add: b_def e_def)
    let ?l = "RemoveMultiLineCommentsFromRange lines b (e + 1)"
    have "\<not> opens_comment (?l ! i)" if "i < e + 1" for i
      using that True before [of i] not_opens_blank by (simp add: nth_RemoveRange)
    then have "comments_removed ?l (remove_comments_from ?l (e + 1))"
      using 1(1) [OF _ b_def _ e_def] True by simp
    with True show ?thesis
      by (simp add: remove_comments_from.simps [of lines lineix] b_def [symmetric] e_def [symmetric] comments_removed_step)
  next
    case False
    show ?thesis
    proof (cases "lineix < length lines \<and> b < length lines")
      case True
      with False show ?thesis
        by (simp add: remove_comments_from.simps [of lines lineix] b_def [symmetric] e_def [symmetric] comments_removed_def)
    next
      case no_start: False
      have "\<forall>i < length lines. \<not> opens_comment (lines ! i)"
        using no_start before 1(2,3) by (metis le_less_linear le_trans less_le_trans)
      with no_start show ?thesis
        by (auto simp: remove_comments_from.simps [of lines lineix] b_def [symmetric] comments_removed_def)
    qed
  qed
qed

section \<open>The reference for multi-line comments\<close>

text \<open>One pass over the lines that remembers whether a comment is open: a line is replaced when one
  is, or when it opens one that a line from there on closes; the comment stays open up to and with
  the line that ends in its end marker. A comment that no line closes is reported, and nothing from
  there on is replaced.\<close>

fun uncomment :: "nat \<Rightarrow> bool \<Rightarrow> string list \<Rightarrow> string list \<times> report list" where
  "uncomment n inside [] = ([], [])"
| "uncomment n inside (line # lines) =
     (if inside \<or> (opens_comment line \<and> list_ex closes_comment (line # lines)) then
        apfst (Cons ''/**/'') (uncomment (Suc n) (\<not> closes_comment line) lines)
      else if opens_comment line then
        (line # lines, [report (int n + 1) ''readability/multiline_comment'' 5
                          ''Could not find end of multi-line comment''])
      else apfst (Cons line) (uncomment (Suc n) False lines))"

lemma uncomment_skip:
  "list_all (\<lambda>l. \<not> opens_comment l) xs \<Longrightarrow>
   uncomment n False (xs @ ys) = apfst (append xs) (uncomment (n + length xs) False ys)"
  by (induction xs arbitrary: n) (simp_all add: prod_eq_iff)

lemma uncomment_inside:
  "list_all (\<lambda>l. \<not> closes_comment l) xs \<Longrightarrow> closes_comment y \<Longrightarrow>
   uncomment n True (xs @ y # ys) =
     apfst (append (replicate (Suc (length xs)) ''/**/'')) (uncomment (Suc (n + length xs)) False ys)"
  by (induction xs arbitrary: n) (simp_all add: prod_eq_iff)

lemma uncomment_start:
  "opens_comment (hd ls) \<Longrightarrow> list_ex closes_comment ls \<Longrightarrow> uncomment n False ls = uncomment n True ls"
  by (cases ls) simp_all

lemma first_index_split:
  assumes "first_index P xs < length xs"
  shows "xs = take (first_index P xs) xs @ xs ! first_index P xs # drop (Suc (first_index P xs)) xs"
    and "P (xs ! first_index P xs)" and "list_all (\<lambda>x. \<not> P x) (take (first_index P xs) xs)"
proof -
  show "xs = take (first_index P xs) xs @ xs ! first_index P xs # drop (Suc (first_index P xs)) xs"
    using assms by (rule id_take_nth_drop)
  show "P (xs ! first_index P xs)" using assms by (rule first_index_nth)
  show "list_all (\<lambda>x. \<not> P x) (take (first_index P xs) xs)"
    using first_index_before [of _ P xs] by (auto simp: list_all_length)
qed

lemma RemoveRange_parts:
  assumes "b \<le> e" and "e \<le> length lines"
  shows "take e (RemoveMultiLineCommentsFromRange lines b e) = take b lines @ replicate (e - b) ''/**/''"
    and "drop e (RemoveMultiLineCommentsFromRange lines b e) = drop e lines"
  using assms by (auto intro!: nth_equalityI simp: nth_RemoveRange nth_append)

lemma remove_comments_from_uncomment:
  "lineix \<le> length lines \<Longrightarrow>
   remove_comments_from lines lineix =
     apfst (append (take lineix lines)) (uncomment lineix False (drop lineix lines))"
proof (induction lines lineix rule: remove_comments_from.induct)
  case (1 lines lineix)
  define b where "b = FindNextMultiLineCommentStart lines lineix"
  define e where "e = FindNextMultiLineCommentEnd lines b"
  note step = remove_comments_from.simps [of lines lineix, unfolded Let_def, folded b_def, folded e_def]
  let ?ls = "drop lineix lines" and ?i = "first_index opens_comment (drop lineix lines)"
  show ?case
  proof (cases "lineix < length lines \<and> b < length lines")
    case False
    then have "\<not> ?i < length ?ls" using 1(2)
      by (cases "lineix < length lines") (auto simp: b_def FindNextMultiLineCommentStart_def)
    then have "list_all (\<lambda>l. \<not> opens_comment l) ?ls" unfolding first_index_less list_all_iff by blast
    from uncomment_skip [OF this, of lineix "[]"] False 1(2) show ?thesis by (auto simp: step)
  next
    case True
    then have b: "b = lineix + ?i" "?i < length ?ls" by (auto simp: b_def FindNextMultiLineCommentStart_def)
    note at_start = first_index_split [OF b(2)]
    have start: "drop b lines = ?ls ! ?i # drop (Suc ?i) ?ls"
      using b by (simp add: add.commute Cons_nth_drop_Suc)
    have before: "uncomment lineix False ?ls =
        apfst (append (take ?i ?ls)) (uncomment b False (drop b lines))"
    proof -
      have d: "drop ?i ?ls = drop b lines" and b': "lineix + length (take ?i ?ls) = b"
        using b by (simp_all add: add.commute)
      from d have "take ?i ?ls @ drop b lines = ?ls" by (metis append_take_drop_id)
      with uncomment_skip [OF at_start(3), of lineix "drop b lines"] b' show ?thesis by simp
    qed
    have taken: "take lineix lines @ take ?i ?ls = take b lines" by (simp add: b(1) take_add)
    show ?thesis
    proof (cases "e < length lines")
      case False
      then have "\<not> list_ex closes_comment (drop b lines)"
        using True first_index_less [of closes_comment "drop b lines"]
        by (auto simp: e_def FindNextMultiLineCommentEnd_def list_ex_iff)
      with at_start(2) start have "uncomment b False (drop b lines) =
          (drop b lines, [report (int b + 1) ''readability/multiline_comment'' 5 ''Could not find end of multi-line comment''])"
        by simp
      with True False before taken show ?thesis by (simp add: step flip: append_assoc)
    next
      case e_ok: True
      let ?j = "first_index closes_comment (drop b lines)"
      have e: "e = b + ?j" "?j < length (drop b lines)"
        using True e_ok by (auto simp: e_def FindNextMultiLineCommentEnd_def)
      note at_end = first_index_split [OF e(2)]
      let ?l = "RemoveMultiLineCommentsFromRange lines b (e + 1)"
      have "uncomment b False (drop b lines) = uncomment b True (drop b lines)"
      proof (rule uncomment_start)
        show "opens_comment (hd (drop b lines))" using at_start(2) start by simp
        show "list_ex closes_comment (drop b lines)" using e(2) unfolding first_index_less list_ex_iff .
      qed
      also have "\<dots> = apfst (append (replicate (Suc ?j) ''/**/'')) (uncomment (Suc e) False (drop (Suc e) lines))"
        using uncomment_inside [OF at_end(3,2), of b "drop (Suc ?j) (drop b lines)", folded at_end(1)] e
        by (simp add: add.commute)
      finally have "uncomment lineix False ?ls =
          apfst (append (take ?i ?ls @ replicate (Suc ?j) ''/**/'')) (uncomment (Suc e) False (drop (Suc e) lines))"
        by (simp add: before prod_eq_iff)
      moreover have "remove_comments_from ?l (e + 1) =
          apfst (append (take (e + 1) ?l)) (uncomment (e + 1) False (drop (e + 1) ?l))"
        using 1(1) [OF _ b_def _ e_def] True e_ok by simp
      moreover have "take (e + 1) ?l = take b lines @ replicate (Suc ?j) ''/**/''" "drop (e + 1) ?l = drop (e + 1) lines"
        using RemoveRange_parts [of b "e + 1" lines] e e_ok by auto
      ultimately show ?thesis
        using True e_ok by (simp add: step prod_eq_iff taken [symmetric])
    qed
  qed
qed

section \<open>The reference for double-quoted strings\<close>

text \<open>The text with the contents of its double-quoted strings dropped; an unmatched quote and what
  follows it stay.\<close>

function strip_dq :: "string \<Rightarrow> string" where
  "strip_dq s =
     (let head = takeWhile (\<lambda>c. c \<noteq> CHR 0x22) s; rest = dropWhile (\<lambda>c. c \<noteq> CHR 0x22) s in
      case rest of
        [] \<Rightarrow> s
      | q # tail \<Rightarrow>
          (if CHR 0x22 \<in> set tail
           then head @ [q, q] @ strip_dq (drop 1 (dropWhile (\<lambda>c. c \<noteq> CHR 0x22) tail)) else s))"
  by pat_completeness auto

termination strip_dq
proof (relation "measure length", goal_cases)
  case (2 s head rest q tail)
  have "length tail < length s"
    using 2(2,3) length_dropWhile_le [of "\<lambda>c. c \<noteq> CHR 0x22" s]
    by (metis Suc_le_lessD length_Cons)
  then show ?case using length_dropWhile_le [of "\<lambda>c. c \<noteq> CHR 0x22" tail] by simp
qed simp

declare strip_dq.simps [simp del]

lemma sub_from_none:
  assumes "\<And>p t i. c \<notin> set t \<Longrightarrow> match_at f r (MS p t i []) = None" and "c \<notin> set s"
  shows "sub_from f r h p s i 0 = s"
  using assms(2)
proof (induction s arbitrary: p i)
  case Nil
  then show ?case by (simp add: assms(1))
next
  case (Cons d s)
  then show ?case using assms(1) [of "d # s" p i] by simp
qed

definition escapes_tail_re :: re where
  \<open>escapes_tail_re = Grp 1 (Alt (Cls False (map One (''abfnrtv?'' @ [CHR 0x22, CHR 0x5C, CHR 0x27])))
     (Alt (Rep 1 None True (Cls False [Digit True]))
       (Seq (Cls False [One (CHR ''x'')])
            (Rep 1 None True (Cls False [Range (CHR ''0'') (CHR ''9''), Range (CHR ''a'') (CHR ''f''),
              Range (CHR ''A'') (CHR ''F'')])))))\<close>

lemma ESCAPES_compiled:
  "re_compile no_flags RE_PATTERN_CLEANSE_LINE_ESCAPES =
     Some (no_flags, Seq (Cls False [One (CHR 0x5C)]) escapes_tail_re)"
  by code_simp

lemma no_escapes:
  assumes "CHR 0x5C \<notin> set line"
  shows "ReplaceAll RE_PATTERN_CLEANSE_LINE_ESCAPES [] line = line"
proof -
  have "match_at no_flags (Seq (Cls False [One (CHR 0x5C)]) escapes_tail_re) (MS p t i []) = None"
    if "CHR 0x5C \<notin> set t" for p t i
    using that by (cases t) (auto simp: match_at_def in_cls_def no_flags_def)
  then have "sub_from no_flags (Seq (Cls False [One (CHR 0x5C)]) escapes_tail_re) (expand_template []) None line 0 0 = line"
    using assms by (rule sub_from_none)
  then show ?thesis by (simp add: ReplaceAll_def ESCAPES_compiled re_sub_def)
qed

lemma takeWhile_split: "\<not> P q \<Longrightarrow> list_all P head \<Longrightarrow>
   takeWhile P (head @ q # tail) = head \<and> dropWhile P (head @ q # tail) = q # tail"
  by (induction head) auto

lemma py_find_char_drop:
  assumes "0 \<le> py_find t [c]"
  shows "py_from t (py_find t [c] + 1) = drop 1 (dropWhile (\<lambda>d. d \<noteq> c) t) \<and> c \<in> set t"
proof -
  have "find_str [c] t = Some n \<Longrightarrow> drop (Suc n) t = drop 1 (dropWhile (\<lambda>d. d \<noteq> c) t) \<and> c \<in> set t" for n
    by (induction t arbitrary: n) (auto simp: startswith_def split: if_splits)
  moreover from assms obtain n where "py_find t [c] = int n" "find_str [c] t = Some n"
    by (auto simp: py_find_def split: option.splits)
  moreover have "py_from t (int n + 1) = drop (Suc n) t" for n
    by (metis of_nat_Suc add.commute py_from_nat)
  ultimately show ?thesis by metis
qed

lemma py_find_char_none: "\<not> 0 \<le> py_find t [c] \<Longrightarrow> c \<notin> set t"
  unfolding py_find_nonneg_iff contains_iff by (metis append_Cons append_Nil split_list)

lemma collapse_loop_strip:
  "CHR 0x27 \<notin> set e \<Longrightarrow> CHR 0x0A \<notin> set e \<Longrightarrow> collapse_loop acc e = Inr (acc @ strip_dq e)"
proof (induction "length e" arbitrary: acc e rule: less_induct)
  case less
  show ?case
  proof (cases "Match QUOTE_PATTERN e")
    case None
    then have "\<not> list_ex is_quote e" using less.prems(2) by (rule quote_none)
    then have "dropWhile (\<lambda>c. c \<noteq> CHR 0x22) e = []"
      unfolding dropWhile_eq_Nil_conv by (auto simp: list_ex_iff is_quote_def)
    with None show ?thesis by (simp add: collapse_loop.simps [of acc e] strip_dq.simps [of e] del: dropWhile_eq_Nil_conv)
  next
    case (Some m)
    from Some obtain q where *: "e = grp m 1 @ [q] @ grp m 3 \<or> e = grp m 1 @ [q] @ grp m 3 @ [CHR 0x0A]"
      and q: "grp m 2 = [q]" "is_quote q" and h: "\<not> list_ex is_quote (grp m 1)"
      by (rule quote_shape)
    have e: "e = grp m 1 @ q # grp m 3" using * less.prems(2) by (metis append_Cons append_Nil in_set_conv_decomp append_assoc)
    have q': "q = CHR 0x22" using q(2) less.prems(1) e by (metis in_set_conv_decomp is_quote_def)
    have "list_all (\<lambda>c. c \<noteq> CHR 0x22) (grp m 1)"
      using h by (auto simp: list_ex_iff list_all_iff is_quote_def)
    from takeWhile_split [OF _ this, of q "grp m 3"] q'
    have tw: "takeWhile (\<lambda>c. c \<noteq> CHR 0x22) e = grp m 1" "dropWhile (\<lambda>c. c \<noteq> CHR 0x22) e = q # grp m 3"
      by (simp_all add: e)
    show ?thesis
    proof (cases "0 \<le> py_find (grp m 3) [CHR 0x22]")
      case True
      let ?t = "py_from (grp m 3) (py_find (grp m 3) [CHR 0x22] + 1)"
      have "set ?t \<subseteq> set (grp m 3)" by (simp add: py_from_def set_drop_subset)
      then have "CHR 0x27 \<notin> set ?t" "CHR 0x0A \<notin> set ?t"
        using less.prems e by (metis UnCI insertCI set_append list.set(2) subsetD)+
      with less.hyps [OF collapse_cut [OF Some]]
      have "collapse_loop (acc @ grp m 1 @ [q, q]) ?t = Inr ((acc @ grp m 1 @ [q, q]) @ strip_dq ?t)" by blast
      then show ?thesis
        using Some q q' True tw py_find_char_drop [OF True]
        by (simp add: collapse_loop.simps [of acc e] strip_dq.simps [of e] Let_def)
    next
      case False
      with Some q q' tw py_find_char_none [OF False] show ?thesis
        by (simp add: collapse_loop.simps [of acc e] strip_dq.simps [of e] Let_def)
    qed
  qed
qed

section \<open>Properties\<close>

text \<open>C23. Cleansing never raises, whatever the lines of the file are, and gives four versions of
  the same number of lines, in which each comment-free line and each string-free line is obtained
  from the line without raw strings by deleting characters only.\<close>

theorem CleansedLines_same_shape:
  "\<exists>c. CleansedLines lines = Inr c \<and> cl_raw_lines c = lines \<and> NumLines c = length lines
     \<and> length (cl_lines_without_raw_strings c) = length lines
     \<and> list_all2 subseq (cl_lines c) (cl_lines_without_raw_strings c)
     \<and> list_all2 subseq (cl_elided c) (cl_lines_without_raw_strings c)"
proof -
  obtain ls where ls: "CleanseRawStrings lines = Inr ls" "length ls = length lines"
    using CleanseRawStrings_total by blast
  have "\<exists>r. CollapseStrings l = Inr r \<and> subseq (CleanseComments r) l" for l
    using CollapseStrings_total [of l] subseq_CleanseComments subseq_order.trans by blast
  then obtain cs where "map_result CollapseStrings ls = Inr cs"
      "list_all2 (\<lambda>l r. subseq (CleanseComments r) l) ls cs"
    using map_result_total [of CollapseStrings "\<lambda>l r. subseq (CleanseComments r) l" ls] by blast
  then show ?thesis
    using ls subseq_CleanseComments
    by (auto simp: CleansedLines_def NumLines_def list_all2_conv_all_nth)
qed

text \<open>C26. When a line opens a raw string it does not close, every following line without the
  delimiter becomes an empty string literal (not an empty line, as the docstring of
  \<open>CleanseRawStrings\<close> and the comment in its loop say), the closing line and the rest give one line
  each, and nothing raises.\<close>

theorem CleanseRawStrings_blanks_body:
  assumes "raw_loop first_line = (start, Some d)" and "list_all (\<lambda>l. \<not> contains l d) body"
  shows "\<exists>ls. CleanseRawStrings (first_line # body @ rest) =
      Inr (start # map (\<lambda>_. [CHR 0x22, CHR 0x22]) body @ ls) \<and> length ls = length rest"
proof -
  have "closing_delimiter (Some d)" using raw_loop_delimiter [of first_line] assms(1) by simp
  from raw_lines_total [OF this] obtain ls where
    "raw_lines_from (Some d) rest = Inr ls" "length ls = length rest" by blast
  with raw_lines_body [OF assms(2), of rest] show ?thesis
    by (simp add: CleanseRawStrings_def raw_line_def assms(1))
qed

theorem CleanseRawStrings_blanks_body_witness:
  \<open>\<exists>ls. CleanseRawStrings [''x = R"d(a'', ''b'', ''c)" // "'', '')d" + y;''] =
      Inr (''x = ""'' # [[CHR 0x22, CHR 0x22], [CHR 0x22, CHR 0x22]] @ ls) \<and> length ls = 1\<close>
proof -
  have "raw_loop ''x = R\"d(a'' = (''x = \"\"'', Some '')d\"'')"
  proof -
    have m: "map_option (\<lambda>m. (grp m 1, grp m 2, grp m 3)) (Match RAW_STRING_PATTERN ''x = R\"d(a'') =
        Some (''x = '', ''d'', ''a'')" by code_simp
    have c: "is_match RAW_PREFIX_COMMENT_PATTERN ''x = '' = False" by code_simp
    from m obtain k where k: "Match RAW_STRING_PATTERN ''x = R\"d(a'' = Some k" "grp k 1 = ''x = ''"
      "grp k 2 = ''d''" "grp k 3 = ''a''" by (auto simp: map_option_case split: option.splits)
    show ?thesis
      using k c by (simp add: raw_loop.simps [of "''x = R\"d(a''"] py_find_def startswith_def)
  qed
  moreover have "list_all (\<lambda>l. \<not> contains l '')d\"'') [''b'', ''c)\" // \"'']"
    by (simp add: contains_def startswith_def)
  ultimately show ?thesis
    using CleanseRawStrings_blanks_body [of "''x = R\"d(a''" "''x = \"\"''" "'')d\"''" "[''b'', ''c)\" // \"'']" "['')d\" + y;'']"]
    by simp
qed



text \<open>C25. On a line with double-quoted strings only (no single quote, escape or include), the
  loop that collapses strings computes the reference: everything between a quote and the next one
  is dropped, everything else is kept.\<close>

theorem CollapseStrings_reference:
  assumes "CHR 0x27 \<notin> set line" and "CHR 0x5C \<notin> set line" and "CHR 0x0A \<notin> set line"
    and "\<not> is_match RE_PATTERN_INCLUDE line"
  shows "CollapseStrings line = Inr (strip_dq line)"
  using assms by (simp add: CollapseStrings_def no_escapes collapse_loop_strip)

theorem CollapseStrings_reference_witness:
  \<open>CollapseStrings ''f("a, b", x) + "c'' = Inr ''f("", x) + "c''\<close>
proof -
  have i: \<open>is_match RE_PATTERN_INCLUDE ''f("a, b", x) + "c'' = False\<close> by code_simp
  have s: \<open>strip_dq ''f("a, b", x) + "c'' = ''f("", x) + "c''\<close> by code_simp
  show ?thesis
    using CollapseStrings_reference [of \<open>''f("a, b", x) + "c''\<close>] i s by simp
qed

end
