(* ===== verification/Expressions.thy ===== *)
theory Expressions
  imports Cleanse
begin

text \<open>
  Matching of brackets on the cleansed lines: \<open>FindEndOfExpressionInLine\<close> and \<open>CloseExpression\<close>
  scan forward from an opening bracket, \<open>FindStartOfExpressionInLine\<close> and
  \<open>ReverseCloseExpression\<close> backward from a closing one. The stack is a list with its top at the
  head; a position is a natural number, and the position returned is an integer, -1 for not
  found. Both directions follow the same discipline on round, square and curly brackets, which the
  locale \<open>bracket_scan\<close> states once; from it follow that they find the matching bracket and that
  one undoes the other.
\<close>

section \<open>Forward\<close>

definition OPERATOR_PATTERN :: string where
  \<open>OPERATOR_PATTERN = rx ''`boperator`s*$''\<close>

definition closes :: "char \<Rightarrow> char \<Rightarrow> bool" where
  "closes s c \<longleftrightarrow> (s = CHR ''('' \<and> c = CHR '')'') \<or> (s = CHR ''['' \<and> c = CHR '']'')
     \<or> (s = CHR ''{'' \<and> c = CHR ''}'')"

definition opener :: "char \<Rightarrow> bool" where
  "opener c \<longleftrightarrow> c \<in> set ''([{''"

definition closer :: "char \<Rightarrow> bool" where
  "closer c \<longleftrightarrow> c \<in> set '')]}''"

definition drop_tops :: "char \<Rightarrow> char list \<Rightarrow> char list" where
  "drop_tops x stack = dropWhile (\<lambda>s. s = x) stack"

fun find_end :: "string \<Rightarrow> string \<Rightarrow> nat \<Rightarrow> char list \<Rightarrow> int \<times> char list option" where
  "find_end line [] i stack = (-1, Some stack)"
| "find_end line (c # cs) i stack =
     (if opener c then find_end line cs (Suc i) (c # stack)
      else if c = CHR ''<'' then
        (if i > 0 \<and> line ! (i - 1) = CHR ''<'' then
           (if stack \<noteq> [] \<and> hd stack = CHR ''<'' then
              (if tl stack = [] then (-1, None) else find_end line cs (Suc i) (tl stack))
            else find_end line cs (Suc i) stack)
         else if i > 0 \<and> is_found OPERATOR_PATTERN (take i line) then find_end line cs (Suc i) stack
         else find_end line cs (Suc i) (CHR ''<'' # stack))
      else if closer c then
        (let stack = drop_tops (CHR ''<'') stack in
         if stack = [] then (-1, None)
         else if closes (hd stack) c then
           (if tl stack = [] then (int i + 1, None) else find_end line cs (Suc i) (tl stack))
         else (-1, None))
      else if c = CHR ''>'' then
        (if i > 0 \<and> (line ! (i - 1) = CHR ''-'' \<or> is_found OPERATOR_PATTERN (take (i - 1) line))
         then find_end line cs (Suc i) stack
         else if stack \<noteq> [] \<and> hd stack = CHR ''<'' then
           (if tl stack = [] then (int i + 1, None) else find_end line cs (Suc i) (tl stack))
         else find_end line cs (Suc i) stack)
      else if c = CHR '';'' then
        (let stack = drop_tops (CHR ''<'') stack in
         if stack = [] then (-1, None) else find_end line cs (Suc i) stack)
      else find_end line cs (Suc i) stack)"

definition FindEndOfExpressionInLine :: "string \<Rightarrow> nat \<Rightarrow> char list \<Rightarrow> int \<times> char list option" where
  "FindEndOfExpressionInLine line startpos stack = find_end line (drop startpos line) startpos stack"

text \<open>The stack a scan leaves: \<open>None\<close> and the empty stack both stop the loop over the lines.\<close>

definition pending :: "char list option \<Rightarrow> bool" where
  "pending st \<longleftrightarrow> st \<noteq> None \<and> st \<noteq> Some []"

function close_lines :: "cleansed \<Rightarrow> nat \<Rightarrow> string \<Rightarrow> char list option \<Rightarrow> (string \<times> nat \<times> int) result" where
  "close_lines c linenum line stack =
     (if pending stack \<and> linenum + 1 < NumLines c then
        bind_result (py_get (cl_elided c) (int (linenum + 1))) (\<lambda>line.
          let (end_pos, stack) = FindEndOfExpressionInLine line 0 (the stack) in
          if end_pos > -1 then Inr (line, linenum + 1, end_pos)
          else close_lines c (linenum + 1) line stack)
      else Inr (line, NumLines c, -1))"
  by pat_completeness auto

termination by (relation "measure (\<lambda>(c, linenum, line, stack). NumLines c - linenum)") auto

declare close_lines.simps [simp del]

definition CloseExpression :: "cleansed \<Rightarrow> nat \<Rightarrow> nat \<Rightarrow> (string \<times> nat \<times> int) result" where
  "CloseExpression c linenum pos =
     bind_result (py_get (cl_elided c) (int linenum)) (\<lambda>line.
       bind_result (py_get line (int pos)) (\<lambda>ch.
         if ch \<notin> set ''({[<'' \<or> is_match ''<[<=]'' (drop pos line) then Inr (line, NumLines c, -1)
         else
           (let (end_pos, stack) = FindEndOfExpressionInLine line pos [] in
            if end_pos > -1 then Inr (line, linenum, end_pos)
            else close_lines c linenum line stack)))"

section \<open>Backward\<close>

definition GREATER_EQUAL_PATTERN :: string where
  \<open>GREATER_EQUAL_PATTERN = rx ''`s>=`s''\<close>

text \<open>The second argument is one more than the position \<open>i\<close> of the loop.\<close>

fun find_start :: "string \<Rightarrow> nat \<Rightarrow> char list \<Rightarrow> int \<times> char list option" where
  "find_start line 0 stack = (-1, Some stack)"
| "find_start line (Suc i) stack =
     (let c = line ! i in
      if closer c then find_start line i (c # stack)
      else if c = CHR ''>'' then
        (if i > 0 \<and> (line ! (i - 1) = CHR ''-'' \<or> is_match GREATER_EQUAL_PATTERN (drop (i - 1) line)
                     \<or> is_found OPERATOR_PATTERN (take i line))
         then find_start line (i - 1) stack
         else find_start line i (CHR ''>'' # stack))
      else if c = CHR ''<'' then
        (if i > 0 \<and> line ! (i - 1) = CHR ''<'' then find_start line (i - 1) stack
         else if stack \<noteq> [] \<and> hd stack = CHR ''>'' then
           (if tl stack = [] then (int i, None) else find_start line i (tl stack))
         else find_start line i stack)
      else if opener c then
        (let stack = drop_tops (CHR ''>'') stack in
         if stack = [] then (-1, None)
         else if closes c (hd stack) then
           (if tl stack = [] then (int i, None) else find_start line i (tl stack))
         else (-1, None))
      else if c = CHR '';'' then
        (let stack = drop_tops (CHR ''>'') stack in
         if stack = [] then (-1, None) else find_start line i stack)
      else find_start line i stack)"

definition FindStartOfExpressionInLine ::
    "string \<Rightarrow> int \<Rightarrow> char list \<Rightarrow> (int \<times> char list option) result" where
  "FindStartOfExpressionInLine line endpos stack =
     (if int (length line) \<le> endpos then Inl IndexError
      else Inr (find_start line (nat (endpos + 1)) stack))"

fun open_lines :: "cleansed \<Rightarrow> nat \<Rightarrow> string \<Rightarrow> char list option \<Rightarrow> (string \<times> nat \<times> int) result" where
  "open_lines c 0 line stack = Inr (line, 0, -1)"
| "open_lines c (Suc linenum) line stack =
     (if pending stack then
        bind_result (py_get (cl_elided c) (int linenum)) (\<lambda>line.
        bind_result (FindStartOfExpressionInLine line (int (length line) - 1) (the stack))
          (\<lambda>(start_pos, stack).
             if start_pos > -1 then Inr (line, linenum, start_pos)
             else open_lines c linenum line stack))
      else Inr (line, 0, -1))"

definition ReverseCloseExpression :: "cleansed \<Rightarrow> nat \<Rightarrow> nat \<Rightarrow> (string \<times> nat \<times> int) result" where
  "ReverseCloseExpression c linenum pos =
     bind_result (py_get (cl_elided c) (int linenum)) (\<lambda>line.
       bind_result (py_get line (int pos)) (\<lambda>ch.
         if ch \<notin> set '')}]>'' then Inr (line, 0, -1)
         else
           bind_result (FindStartOfExpressionInLine line (int pos) []) (\<lambda>(start_pos, stack).
             if start_pos > -1 then Inr (line, linenum, start_pos)
             else open_lines c linenum line stack)))"

section \<open>What the two patterns of the backward scan skip\<close>

text \<open>A match of \<open>OPERATOR_PATTERN\<close> ends in \<open>r\<close> or white space and one of
  \<open>GREATER_EQUAL_PATTERN\<close> starts with white space, so the character that the backward scan skips
  together with an operator is never a bracket.\<close>

definition operator_re :: re where
  "operator_re = Seq (WordB True) (literal ''operato'' (Seq (Cls False [One CHR ''r''])
     (Seq (Rep 0 None True (Cls False [Space True])) Eol)))"

lemma operator_compiled: "re_compile no_flags OPERATOR_PATTERN = Some (no_flags, operator_re)"
  by code_simp

lemma search_from_run:
  "search_from f r p s i \<noteq> None \<Longrightarrow> \<exists>q k j. k \<le> length s \<and> runs f r (MS q (drop k s) j []) \<noteq> []"
proof (induction s arbitrary: p i)
  case Nil
  then have "runs f r (MS p [] i []) \<noteq> []" by (simp add: match_at_None_iff)
  then show ?case by force
next
  case (Cons c s)
  show ?case
  proof (cases "match_at f r (MS p (c # s) i [])")
    case None
    with Cons obtain q k j where "k \<le> length s" "runs f r (MS q (drop k s) j []) \<noteq> []" by fastforce
    then have "Suc k \<le> length (c # s)" "runs f r (MS q (drop (Suc k) (c # s)) j []) \<noteq> []" by simp_all
    then show ?thesis by blast
  next
    case (Some m)
    then have "runs f r (MS p (c # s) i []) \<noteq> []" using match_at_None_iff [of f r "MS p (c # s) i []"] by simp
    then show ?thesis by (intro exI [of _ p] exI [of _ 0] exI [of _ i]) simp
  qed
qed

lemma runs_literal_suffix:
  "s' \<in> set (runs f (literal cs r) s) \<Longrightarrow> \<exists>u. s' \<in> set (runs f r u) \<and> (\<exists>t. mst_rest s = t @ mst_rest u)"
proof (induction cs arbitrary: s)
  case Nil
  then show ?case by (auto intro!: exI [of _ s])
next
  case (Cons c cs)
  from Cons.prems have "s' \<in> set (runs f (Seq (Cls False [One c]) (literal cs r)) s)" by simp
  then obtain u d where u: "s' \<in> set (runs f (literal cs r) u)" "mst_rest s = d # mst_rest u"
    by (rule runs_Seq_ClsE)
  from Cons.IH [OF u(1)] obtain v t where v: "s' \<in> set (runs f r v)" "mst_rest u = t @ mst_rest v" by blast
  with u(2) have "mst_rest s = (d # t) @ mst_rest v" by simp
  with v(1) show ?case by blast
qed

lemma runs_WordBE: "s' \<in> set (runs f (Seq (WordB b) r) s) \<Longrightarrow> s' \<in> set (runs f r s)"
  unfolding runs_Seq_set by (auto simp: runs.simps split: if_splits)

lemma last_of_tail:
  assumes "s = a @ CHR ''r'' # b" and "list_all is_space b"
  shows "s \<noteq> [] \<and> (last s = CHR ''r'' \<or> is_space (last s))"
  using assms by (cases b rule: rev_cases) simp_all

lemma operator_tail:
  assumes "is_found OPERATOR_PATTERN s"
  shows "s \<noteq> [] \<and> (last s = CHR ''r'' \<or> is_space (last s))"
proof -
  have "search_from no_flags operator_re None s 0 \<noteq> None"
    using assms by (simp add: is_found_def Search_def operator_compiled re_search_def)
  from search_from_run [OF this] obtain q k j where
    k: "runs no_flags operator_re (MS q (drop k s) j []) \<noteq> []" by blast
  then obtain e where "e \<in> set (runs no_flags operator_re (MS q (drop k s) j []))" by fastforce
  from runs_literal_suffix [OF runs_WordBE [OF this [unfolded operator_re_def]]] obtain u t where
    u: "e \<in> set (runs no_flags (Seq (Cls False [One CHR ''r''])
          (Seq (Rep 0 None True (Cls False [Space True])) Eol)) u)" "drop k s = t @ mst_rest u"
    by auto
  from u(1) obtain v c where v: "e \<in> set (runs no_flags (Seq (Rep 0 None True (Cls False [Space True])) Eol) v)"
      "mst_rest u = c # mst_rest v" "in_cls no_flags False [One CHR ''r''] c"
    by (rule runs_Seq_ClsE)
  from v(1) obtain w where w: "w \<in> set (runs no_flags (Rep 0 None True (Cls False [Space True])) v)"
      "e \<in> set (runs no_flags Eol w)" by (rule runs_SeqE)
  from w(1) obtain b where b: "mst_rest v = b @ mst_rest w" "list_all (in_cls no_flags False [Space True]) b"
    by (rule runs_cls_starE)
  from runs_EolE(2) [OF w(2)] have e: "mst_rest w = [] \<or> mst_rest w = [CHR 0x0A]" .
  have "s = take k s @ t @ CHR ''r'' # b @ mst_rest w"
    using u(2) v(2,3) b(1) append_take_drop_id [of k s] by (simp add: in_cls_def no_flags_def)
  moreover have "list_all is_space b" using b(2) by (simp add: in_cls_def no_flags_def list_all_iff)
  ultimately have "s = (take k s @ t) @ CHR ''r'' # (b @ mst_rest w) \<and> list_all is_space (b @ mst_rest w)"
    using e by (auto simp: is_space_def in_range_def)
  then show ?thesis by (intro last_of_tail [of _ "take k s @ t" "b @ mst_rest w"]) simp_all
qed

lemma greater_equal_head: "is_match GREATER_EQUAL_PATTERN (c # s) \<Longrightarrow> is_space c"
proof -
  have comp: "re_compile no_flags GREATER_EQUAL_PATTERN = Some (no_flags,
   Seq (Cls False [Space True]) (Seq (Cls False [One CHR ''>'']) (Seq (Cls False [One CHR ''='']) (Cls False [Space True]))))"
    by code_simp
  assume "is_match GREATER_EQUAL_PATTERN (c # s)"
  then obtain m where "Match GREATER_EQUAL_PATTERN (c # s) = Some m" by (auto simp: is_match_def)
  from Match_runD [OF comp this] obtain e where
    "e \<in> set (runs no_flags (Seq (Cls False [Space True]) (Seq (Cls False [One CHR ''>''])
       (Seq (Cls False [One CHR ''='']) (Cls False [Space True])))) (MS None (c # s) 0 []))" by blast
  then obtain u d where "MS None (c # s) 0 [] = MS None (d # mst_rest u) 0 []" "in_cls no_flags False [Space True] d"
    by (rule runs_Seq_ClsE) simp
  then show "is_space c" by (simp add: in_cls_def no_flags_def)
qed
section \<open>The bracket discipline\<close>

text \<open>Text whose round, square and curly brackets match, anything else in between: the reference
  automaton \<open>brackets\<close> reads it with the stack of the brackets still open.\<close>

definition plain :: "char \<Rightarrow> bool" where
  "plain c \<longleftrightarrow> \<not> opener c \<and> \<not> closer c"

fun brackets :: "(char \<Rightarrow> bool) \<Rightarrow> (char \<Rightarrow> char \<Rightarrow> bool) \<Rightarrow> char list \<Rightarrow> string \<Rightarrow> char list option" where
  "brackets op cl st [] = Some st"
| "brackets op cl st (c # cs) =
     (if plain c then brackets op cl st cs
      else if op c then brackets op cl (c # st) cs
      else (case st of [] \<Rightarrow> None | s # st' \<Rightarrow> if cl s c then brackets op cl st' cs else None))"

definition balanced :: "string \<Rightarrow> bool" where
  "balanced t \<longleftrightarrow> brackets opener closes [] t = Some []"

lemma char_classes:
  "opener c \<longleftrightarrow> c = CHR ''('' \<or> c = CHR ''['' \<or> c = CHR ''{''"
  "closer c \<longleftrightarrow> c = CHR '')'' \<or> c = CHR '']'' \<or> c = CHR ''}''"
  "plain c \<longleftrightarrow> \<not> opener c \<and> \<not> closer c"
  by (simp_all add: opener_def closer_def plain_def)

lemma closes_iff: "closes s c \<Longrightarrow> opener s \<and> closer c \<and> \<not> opener c \<and> \<not> closer s \<and> \<not> plain c \<and> \<not> plain s
   \<and> s \<noteq> CHR ''<'' \<and> c \<noteq> CHR ''<'' \<and> c \<noteq> CHR ''>'' \<and> s \<noteq> CHR ''>''"
  by (auto simp: closes_def char_classes)

lemma brackets_plain: "list_all plain u \<Longrightarrow> brackets op cl st (u @ t) = brackets op cl st t"
  by (induction u) auto

text \<open>The stack of a scan holds pending angle brackets too, which it drops again when a bracket or a
  semicolon shows that they were operators. It stands for the brackets below them; a bracket is at
  the bottom.\<close>

definition sees :: "char \<Rightarrow> char list \<Rightarrow> char list \<Rightarrow> bool" where
  "sees x s st \<longleftrightarrow> filter (\<lambda>c. c \<noteq> x) s = st \<and> (s \<noteq> [] \<longrightarrow> last s \<noteq> x)"

lemma sees_Nil [simp]: "sees x s [] \<longleftrightarrow> s = []"
  by (cases s rule: rev_cases) (auto simp: sees_def)

lemma sees_empty [simp]: "sees x [] st \<longleftrightarrow> st = []"
  by (auto simp: sees_def)

lemma sees_not_Nil: "sees x s st \<Longrightarrow> st \<noteq> [] \<Longrightarrow> s \<noteq> []"
  by (auto simp: sees_def)

lemma sees_push: "sees x s st \<Longrightarrow> c \<noteq> x \<Longrightarrow> sees x (c # s) (c # st)"
  by (auto simp: sees_def)

lemma sees_angle: "sees x s st \<Longrightarrow> st \<noteq> [] \<Longrightarrow> sees x (x # s) st"
  by (auto simp: sees_def)

lemma sees_pop_angle: "sees x (x # s) st \<Longrightarrow> s \<noteq> [] \<and> sees x s st"
  by (cases s) (auto simp: sees_def)

lemma sees_drop_tops: "sees x s st \<Longrightarrow> sees x (drop_tops x s) st"
  by (induction s) (auto simp: sees_def drop_tops_def split: if_splits)

lemma sees_pop:
  assumes "sees x s (b # st)" and "b \<noteq> x" obtains s' where "drop_tops x s = b # s'" "sees x s' st"
proof -
  from sees_drop_tops [OF assms(1)] have d: "sees x (drop_tops x s) (b # st)" .
  then obtain y s' where y: "drop_tops x s = y # s'" by (cases "drop_tops x s") (auto simp: sees_def)
  then have "y \<noteq> x" by (auto simp: drop_tops_def dropWhile_eq_Cons_conv)
  with d y have "y = b" "sees x s' st" by (auto simp: sees_def split: if_splits)
  with y that show thesis by simp
qed

text \<open>What both scans promise: they read the text ahead, push what opens, drop the pending angle
  brackets and pop what closes the bracket below, report the position where that was the last one,
  and skip one or more other characters without changing the brackets the stack stands for.\<close>

locale bracket_scan =
  fixes run :: "'p \<Rightarrow> char list \<Rightarrow> 'r"
    and ahead :: "'p \<Rightarrow> string"
    and next_pos :: "'p \<Rightarrow> 'p"
    and found :: "'p \<Rightarrow> 'r"
    and op :: "char \<Rightarrow> bool"
    and cl :: "char \<Rightarrow> char \<Rightarrow> bool"
    and angle :: char
  assumes ahead_next: "ahead p = c # t \<Longrightarrow> ahead (next_pos p) = t"
    and scan_plain: "ahead p = c # t \<Longrightarrow> plain c \<Longrightarrow> sees angle s st \<Longrightarrow> st \<noteq> [] \<Longrightarrow>
      \<exists>u v s'. c # t = u @ v \<and> u \<noteq> [] \<and> list_all plain u
        \<and> run p s = run ((next_pos ^^ length u) p) s' \<and> sees angle s' st"
    and scan_push: "ahead p = c # t \<Longrightarrow> op c \<Longrightarrow> run p s = run (next_pos p) (c # s)"
    and scan_pop: "ahead p = c # t \<Longrightarrow> \<not> plain c \<Longrightarrow> \<not> op c \<Longrightarrow> cl b c \<Longrightarrow> sees angle s (b # st) \<Longrightarrow>
      if st = [] then run p s = found p else \<exists>s'. run p s = run (next_pos p) s' \<and> sees angle s' st"
    and op_bracket: "op c \<Longrightarrow> \<not> plain c \<and> c \<noteq> angle"
begin

lemma ahead_skip: "ahead p = u @ t \<Longrightarrow> ahead ((next_pos ^^ length u) p) = t"
  by (induction u arbitrary: p) (auto simp: funpow_swap1 dest: ahead_next simp del: funpow.simps(2) simp add: funpow_Suc_right)

lemma scan_balanced:
  "brackets op cl st t = Some st' \<Longrightarrow> ahead p = t @ rest \<Longrightarrow> rest = [] \<or> \<not> plain (hd rest) \<Longrightarrow> base \<noteq> [] \<Longrightarrow>
   sees angle s (st @ base) \<Longrightarrow>
   \<exists>s'. run p s = run ((next_pos ^^ length t) p) s' \<and> sees angle s' (st' @ base)"
proof (induction "length t" arbitrary: t p s st rule: less_induct)
  case less
  show ?case
  proof (cases t)
    case Nil
    with less.prems show ?thesis by auto
  next
    case (Cons c cs)
    have ahead: "ahead p = c # (cs @ rest)" using less.prems(2) Cons by simp
    have q: "ahead (next_pos p) = cs @ rest" using ahead by (rule ahead_next)
    have step: "(next_pos ^^ length t) p = (next_pos ^^ length cs) (next_pos p)"
      by (simp add: Cons funpow_swap1)
    consider "plain c" | "op c" | "\<not> plain c" "\<not> op c" by blast
    then show ?thesis
    proof cases
      case 1
      from scan_plain [OF ahead 1 less.prems(5)] less.prems(4) obtain u v s' where
        u: "c # cs @ rest = u @ v" "u \<noteq> []" "list_all plain u"
          "run p s = run ((next_pos ^^ length u) p) s'" "sees angle s' (st @ base)" by auto
      from u(1) obtain w where "u = t @ w \<and> w @ v = rest \<or> t = u @ w \<and> v = w @ rest"
        using Cons append_eq_append_conv2 [of t rest u v] by auto
      with less.prems(3) u(3) have w: "t = u @ w" by (cases w) (auto simp: list_all_iff)
      then have shorter: "length w < length t" using u(2) by simp
      from less.prems(1) u(3) have b: "brackets op cl st w = Some st'" by (simp add: w brackets_plain)
      have a: "ahead ((next_pos ^^ length u) p) = w @ rest"
        using less.prems(2) by (intro ahead_skip) (simp add: w)
      from less.hyps [OF shorter b a less.prems(3,4) u(5)] u(4) show ?thesis
        by (simp add: w add.commute [of "length u"] funpow_add)
    next
      case 2
      with less.prems(1) op_bracket have "brackets op cl (c # st) cs = Some st'" by (simp add: Cons)
      moreover have "sees angle (c # s) ((c # st) @ base)"
        using sees_push [OF less.prems(5), of c] op_bracket [OF 2] by simp
      ultimately show ?thesis
        using less.hyps [OF _ _ q less.prems(3,4)] scan_push [OF ahead 2] unfolding step by (simp add: Cons)
    next
      case 3
      with less.prems(1) obtain b st2 where st: "st = b # st2" "cl b c" "brackets op cl st2 cs = Some st'"
        by (auto simp: Cons split: list.splits if_splits)
      with less.prems(5) have "sees angle s (b # st2 @ base)" by simp
      from scan_pop [OF ahead 3 st(2) this] less.prems(4) obtain s' where
        "run p s = run (next_pos p) s'" "sees angle s' (st2 @ base)" by auto
      with less.hyps [OF _ st(3) q less.prems(3,4)] show ?thesis unfolding step by (simp add: Cons)
    qed
  qed
qed

lemma scan_group:
  assumes "ahead p = a # t @ b # rest" and "op a" and "brackets op cl [] t = Some []"
    and "\<not> plain b" and "\<not> op b" and "cl a b"
  shows "run p [] = found ((next_pos ^^ Suc (length t)) p)"
proof -
  let ?q = "next_pos p"
  have q: "ahead ?q = t @ b # rest" using assms(1) by (rule ahead_next)
  have a: "sees angle [a] ([] @ [a])" using op_bracket [OF assms(2)] by (simp add: sees_def)
  have "run p [] = run ?q [a]" using scan_push [OF assms(1,2)] by simp
  with scan_balanced [OF assms(3) q _ _ a] assms(4) obtain s' where
    s: "run p [] = run ((next_pos ^^ length t) ?q) s'" "sees angle s' [a]" by auto
  have "ahead ((next_pos ^^ length t) ?q) = b # rest" using q by (rule ahead_skip)
  from scan_pop [OF this assms(4-6) s(2)] s(1) show ?thesis by (simp add: funpow_swap1)
qed

end

definition forward_ahead :: "string \<times> nat \<Rightarrow> string" where
  "forward_ahead p = drop (snd p) (fst p)"

definition forward_run :: "string \<times> nat \<Rightarrow> char list \<Rightarrow> int \<times> char list option" where
  "forward_run p st = FindEndOfExpressionInLine (fst p) (snd p) st"

definition backward_ahead :: "string \<times> nat \<Rightarrow> string" where
  "backward_ahead p = (if snd p \<le> length (fst p) then rev (take (snd p) (fst p)) else [])"

definition backward_run :: "string \<times> nat \<Rightarrow> char list \<Rightarrow> int \<times> char list option" where
  "backward_run p st = (if snd p \<le> length (fst p) then find_start (fst p) (snd p) st else (-1, None))"

text \<open>Every other character moves the forward scan on by one.\<close>

lemma find_end_plain:
  assumes "plain c" and "sees (CHR ''<'') s st" and "st \<noteq> []"
  shows "\<exists>s'. find_end l (c # t) i s = find_end l t (Suc i) s' \<and> sees (CHR ''<'') s' st"
proof -
  have same: "\<exists>s'. find_end l t (Suc i) s = find_end l t (Suc i) s' \<and> sees (CHR ''<'') s' st"
    using assms(2) by blast
  have pop: "tl s \<noteq> [] \<and> sees (CHR ''<'') (tl s) st" if "s \<noteq> []" "hd s = CHR ''<''"
    using that assms(2) sees_pop_angle [of _ "tl s"] by (cases s) auto
  note push = sees_angle [OF assms(2,3)]
  note drop = sees_drop_tops [OF assms(2)]
  note nonempty = sees_not_Nil [OF drop assms(3)]
  consider "c = CHR ''<''" | "c = CHR ''>''" | "c = CHR '';''" | "c \<notin> set ''<>;''" by auto
  then show ?thesis
  proof cases
    case 1
    with same pop push show ?thesis by (auto simp: char_classes)
  next
    case 2
    with same pop show ?thesis by (auto simp: char_classes)
  next
    case 3
    with drop nonempty show ?thesis by (auto simp: char_classes Let_def)
  next
    case 4
    with assms(1) same show ?thesis by (auto simp: char_classes)
  qed
qed

interpretation forward: bracket_scan forward_run forward_ahead "\<lambda>(l, i). (l, Suc i)"
  "\<lambda>(l, i). (int i + 1, None)" opener closes "CHR ''<''"
proof (unfold_locales, goal_cases)
  case (1 p c t)
  then show ?case by (cases p) (simp add: forward_ahead_def drop_Suc drop_tl)
next
  case (2 p c t s st)
  obtain l i where p: "p = (l, i)" by (cases p)
  with 2(1) have t: "drop i l = c # t" "drop (Suc i) l = t"
    by (simp_all add: forward_ahead_def drop_Suc drop_tl)
  from find_end_plain [OF 2(2-4)] obtain s' where
    s': "find_end l (c # t) i s = find_end l t (Suc i) s'" "sees (CHR ''<'') s' st" by blast
  have "forward_run p s = forward_run (l, Suc i) s'"
    by (simp only: p forward_run_def FindEndOfExpressionInLine_def fst_conv snd_conv t s'(1))
  with s'(2) 2(2) show ?case by (intro exI [of _ "[c]"] exI [of _ t] exI [of _ s']) (simp add: p)
next
  case (3 p c t st)
  then have "drop (Suc (snd p)) (fst p) = t" by (simp add: forward_ahead_def drop_Suc drop_tl)
  with 3 show ?case
    by (cases p) (simp add: forward_run_def FindEndOfExpressionInLine_def forward_ahead_def)
next
  case (4 p c t b s st)
  then have t: "drop (Suc (snd p)) (fst p) = t" by (simp add: forward_ahead_def drop_Suc drop_tl)
  from closes_iff [OF 4(4)] 4(5) obtain s' where "drop_tops (CHR ''<'') s = b # s'" "sees (CHR ''<'') s' st"
    by (auto elim: sees_pop)
  with 4 t closes_iff [OF 4(4)] show ?case
    by (cases p) (auto simp: forward_run_def FindEndOfExpressionInLine_def forward_ahead_def)
next
  case (5 c)
  then show ?case by (auto simp: char_classes)
qed

lemma backward_ahead_Cons:
  assumes "backward_ahead p = c # t"
  obtains l i where "p = (l, Suc i)" "i < length l" "l ! i = c" "rev (take i l) = t"
proof -
  obtain l n where p: "p = (l, n)" by (cases p)
  with assms have n: "n \<le> length l" "rev (take n l) = c # t"
    by (auto simp: backward_ahead_def split: if_splits)
  then obtain i where i: "n = Suc i" by (cases n) auto
  with n have "rev (take (Suc i) l) = l ! i # rev (take i l)" by (simp add: take_Suc_conv_app_nth)
  with n i p show thesis by (intro that [of l i]) auto
qed

text \<open>The backward scan moves on by one character or, at an operator, by two; neither is a bracket.\<close>

lemma find_start_plain:
  assumes "i < length l" and "plain (l ! i)" and "sees (CHR ''>'') s st" and "st \<noteq> []"
  shows "(\<exists>s'. find_start l (Suc i) s = find_start l i s' \<and> sees (CHR ''>'') s' st)
    \<or> (0 < i \<and> plain (l ! (i - 1)) \<and> find_start l (Suc i) s = find_start l (i - 1) s)"
proof -
  have pop: "tl s \<noteq> [] \<and> sees (CHR ''>'') (tl s) st" if "s \<noteq> []" "hd s = CHR ''>''"
    using that assms(3) sees_pop_angle [of _ "tl s"] by (cases s) auto
  note push = sees_angle [OF assms(3,4)]
  note drop = sees_drop_tops [OF assms(3)]
  note nonempty = sees_not_Nil [OF drop assms(4)]
  have skip: "plain (l ! (i - 1))" if "0 < i"
    "l ! (i - 1) = CHR ''-'' \<or> is_match GREATER_EQUAL_PATTERN (drop (i - 1) l) \<or> is_found OPERATOR_PATTERN (take i l)"
  proof -
    have d: "drop (i - 1) l = l ! (i - 1) # drop i l"
      using that(1) assms(1) Cons_nth_drop_Suc [of "i - 1" l] by simp
    have t: "last (take i l) = l ! (i - 1)"
      using that(1) assms(1) by (cases i) (simp_all add: take_Suc_conv_app_nth)
    have "l ! (i - 1) = CHR ''-'' \<or> is_space (l ! (i - 1)) \<or> l ! (i - 1) = CHR ''r''"
      using that(2) greater_equal_head [of "l ! (i - 1)" "drop i l"] operator_tail [of "take i l"] d t by auto
    then show ?thesis by (auto simp: char_classes is_space_def in_range_def)
  qed
  consider "l ! i = CHR ''<''" | "l ! i = CHR ''>''" | "l ! i = CHR '';''" | "l ! i \<notin> set ''<>;''" by auto
  then show ?thesis
  proof cases
    case 1
    with assms(3) pop show ?thesis by (auto simp: char_classes)
  next
    case 2
    with assms(3) push skip show ?thesis by (auto simp: char_classes)
  next
    case 3
    with assms(3) drop nonempty show ?thesis by (auto simp: char_classes Let_def)
  next
    case 4
    with assms(2,3) show ?thesis by (auto simp: char_classes)
  qed
qed

interpretation backward: bracket_scan backward_run backward_ahead "\<lambda>(l, n). (l, n - 1)"
  "\<lambda>(l, n). (int n - 1, None)" closer "\<lambda>s c. closes c s" "CHR ''>''"
proof (unfold_locales, goal_cases)
  case (1 p c t)
  from 1 obtain l i where "p = (l, Suc i)" "i < length l" "l ! i = c" "rev (take i l) = t"
    by (rule backward_ahead_Cons)
  then show ?case by (simp add: backward_ahead_def)
next
  case (2 p c t s st)
  from 2(1) obtain l i where p: "p = (l, Suc i)" "i < length l" "l ! i = c" "rev (take i l) = t"
    by (rule backward_ahead_Cons)
  with 2 have "plain (l ! i)" by simp
  from find_start_plain [OF p(2) this 2(3,4)] show ?case
  proof (elim disjE exE conjE)
    fix s' assume "find_start l (Suc i) s = find_start l i s'" "sees (CHR ''>'') s' st"
    with p 2(2) show ?thesis by (intro exI [of _ "[c]"] exI [of _ t] exI [of _ s']) (simp add: backward_run_def del: find_start.simps)
  next
    assume h: "0 < i" "plain (l ! (i - 1))" "find_start l (Suc i) s = find_start l (i - 1) s"
    then obtain j where j: "i = Suc j" by (cases i) auto
    with p have t: "t = l ! j # rev (take j l)" by (simp add: take_Suc_conv_app_nth)
    from h p 2(2,3) j show ?thesis
      by (intro exI [of _ "[c, l ! j]"] exI [of _ "rev (take j l)"] exI [of _ s])
        (simp add: t backward_run_def numeral_2_eq_2 del: find_start.simps)
  qed
next
  case (3 p c t st)
  from 3(1) obtain l i where "p = (l, Suc i)" "i < length l" "l ! i = c" "rev (take i l) = t"
    by (rule backward_ahead_Cons)
  with 3(2) show ?case by (simp add: backward_run_def)
next
  case (4 p c t b s st)
  from 4(1) obtain l i where p: "p = (l, Suc i)" "i < length l" "l ! i = c" "rev (take i l) = t"
    by (rule backward_ahead_Cons)
  from closes_iff [OF 4(4)] 4(5) obtain s' where "drop_tops (CHR ''>'') s = b # s'" "sees (CHR ''>'') s' st"
    by (auto elim: sees_pop)
  with p 4(2-4) closes_iff [OF 4(4)] show ?case by (auto simp: backward_run_def)
next
  case (5 c)
  then show ?case by (auto simp: char_classes)
qed

section \<open>Reading backwards\<close>

definition partner :: "char \<Rightarrow> char" where
  "partner c = (if c = CHR ''('' then CHR '')'' else if c = CHR ''['' then CHR '']'' else CHR ''}'')"

lemma closes_partner: "closes s c \<Longrightarrow> partner s = c"
  by (auto simp: closes_def partner_def)

lemma opener_partner: "opener c \<Longrightarrow> closes c (partner c)"
  by (auto simp: closes_def partner_def char_classes)

lemma brackets_append:
  "brackets op cl st (s @ t) = (case brackets op cl st s of None \<Rightarrow> None | Some st' \<Rightarrow> brackets op cl st' t)"
  by (induction op cl st s rule: brackets.induct) (auto split: list.splits option.splits)

lemma brackets_reverse:
  "brackets opener closes st t = Some st' \<Longrightarrow> list_all opener st \<Longrightarrow>
   list_all opener st' \<and>
   brackets closer (\<lambda>s c. closes c s) (map partner st') (rev t) = Some (map partner st)"
proof (induction t arbitrary: st)
  case (Cons c cs)
  have op_not_cl: "opener x \<Longrightarrow> \<not> closer x" for x by (auto simp: char_classes)
  consider "plain c" | "\<not> plain c" "opener c" | "\<not> plain c" "\<not> opener c" by blast
  then show ?case
  proof cases
    case 1
    with Cons.prems Cons.IH [of st] show ?thesis by (simp add: brackets_append)
  next
    case 2
    with Cons.prems Cons.IH [of "c # st"] opener_partner [of c] op_not_cl show ?thesis
      by (simp add: brackets_append)
  next
    case 3
    with Cons.prems obtain s st2 where st: "st = s # st2" "closes s c" "brackets opener closes st2 cs = Some st'"
      by (auto split: list.splits if_splits)
    with Cons.prems Cons.IH [of st2] 3 closes_partner [OF st(2)] closes_iff [OF st(2)] show ?thesis
      by (simp add: brackets_append)
  qed
qed simp

lemma balanced_reverse:
  "balanced t \<Longrightarrow> brackets closer (\<lambda>s c. closes c s) [] (rev t) = Some []"
  using brackets_reverse [of "[]" t "[]"] by (simp add: balanced_def)

lemma forward_pos: "((\<lambda>(l, i). (l, Suc i)) ^^ k) (l, i) = (l, i + k)"
  by (induction k) auto

lemma backward_pos: "((\<lambda>(l, n). (l, n - 1)) ^^ k) (l, n) = (l, n - k)"
  by (induction k) auto

lemma find_end_group:
  assumes "balanced body" and "closes a b"
  shows "FindEndOfExpressionInLine (pre @ a # body @ b # post) (length pre) [] =
    (int (length pre + length body + 2), None)"
proof -
  let ?p = "(pre @ a # body @ b # post, length pre)"
  have "forward_ahead ?p = a # body @ b # post" by (simp add: forward_ahead_def)
  from forward.scan_group [OF this] assms closes_iff [OF assms(2)] show ?thesis
    by (simp add: balanced_def forward_pos forward_run_def del: funpow.simps)
qed

lemma find_start_group:
  assumes "balanced body" and "closes a b"
  shows "FindStartOfExpressionInLine (pre @ a # body @ b # post) (int (length pre + length body + 1)) [] =
    Inr (int (length pre), None)"
proof -
  let ?p = "(pre @ a # body @ b # post, length pre + length body + 2)"
  have "backward_ahead ?p = b # rev body @ a # rev pre" by (simp add: backward_ahead_def)
  from backward.scan_group [OF this] balanced_reverse [OF assms(1)] assms closes_iff [OF assms(2)]
  have "backward_run ?p [] = (int (length pre), None)"
    by (simp add: backward_pos del: funpow.simps One_nat_def)
  then show ?thesis
    by (simp add: backward_run_def FindStartOfExpressionInLine_def nat_add_distrib nat_int_add numeral_2_eq_2
        del: find_start.simps)
qed

section \<open>Expressions over several lines\<close>

lemma no_shift:
  assumes "a \<noteq> CHR ''<''" shows "is_match ''<[<=]'' (a # s) = False"
proof -
  have c: "re_compile no_flags ''<[<=]'' = Some (no_flags,
      Seq (Cls False [One (CHR ''<'')]) (Cls False [One (CHR ''<''), One (CHR ''='')]))" by code_simp
  have "runs no_flags (Cls False [One (CHR ''<'')]) (MS None (a # s) 0 []) = []"
    using assms by (simp add: runs.simps(2) in_cls_def no_flags_def)
  then show ?thesis by (simp add: is_match_def Match_None_iff [OF c] runs.simps(4))
qed

lemma forward_line:
  assumes "brackets opener closes st t = Some st'" and "base \<noteq> []" and "sees (CHR ''<'') s (st @ base)"
  shows "\<exists>s'. FindEndOfExpressionInLine (pre @ t) (length pre) s = (-1, Some s')
    \<and> sees (CHR ''<'') s' (st' @ base)"
proof -
  let ?p = "(pre @ t, length pre)"
  have "forward_ahead ?p = t @ []" by (simp add: forward_ahead_def)
  from forward.scan_balanced [OF assms(1) this _ assms(2,3)] show ?thesis
    by (simp add: forward_pos forward_run_def FindEndOfExpressionInLine_def)
qed

lemma forward_last_line:
  assumes "brackets opener closes st t = Some []" and "closes a b" and "sees (CHR ''<'') s (st @ [a])"
  shows "FindEndOfExpressionInLine (t @ b # post) 0 s = (int (length t + 1), None)"
proof -
  let ?p = "(t @ b # post, 0)"
  have "forward_ahead ?p = t @ b # post" by (simp add: forward_ahead_def)
  from forward.scan_balanced [OF assms(1) this _ _ assms(3)] closes_iff [OF assms(2)] obtain s' where
    r: "forward_run ?p s = forward_run (t @ b # post, length t) s'" "sees (CHR ''<'') s' [a]"
    by (auto simp: forward_pos)
  have "forward_ahead (t @ b # post, length t) = b # post" by (simp add: forward_ahead_def)
  from forward.scan_pop [OF this _ _ assms(2) r(2)] closes_iff [OF assms(2)] r(1) show ?thesis
    by (simp add: forward_run_def)
qed

lemma close_lines_matches:
  assumes "brackets opener closes st (concat ts @ t1) = Some []" and "closes a b"
    and "drop (k + 1) (cl_elided c) = ts @ (t1 @ b # post) # others" and "NumLines c = length (cl_elided c)"
    and "sees (CHR ''<'') s (st @ [a])"
  shows "close_lines c k line (Some s) = Inr (t1 @ b # post, k + length ts + 1, int (length t1 + 1))"
  using assms(1,3,5)
proof (induction ts arbitrary: k line st s)
  case Nil
  then have k: "k + 1 < length (cl_elided c)" "cl_elided c ! (k + 1) = t1 @ b # post"
    by (metis append_Nil drop_eq_Nil list.distinct(1) not_le, metis append_Nil hd_drop_conv_nth drop_eq_Nil list.distinct(1) list.sel(1) not_le)
  with Nil.prems forward_last_line [OF _ assms(2), of st t1 s post] sees_not_Nil [OF Nil.prems(3)] show ?case
    by (simp add: close_lines.simps [of c k] pending_def assms(4) py_get_nonneg nat_add_distrib)
next
  case (Cons t ts)
  then have k: "k + 1 < length (cl_elided c)" "cl_elided c ! (k + 1) = t"
      "drop (k + 2) (cl_elided c) = ts @ (t1 @ b # post) # others"
    by (metis append_Cons drop_eq_Nil list.distinct(1) not_le,
        metis append_Cons hd_drop_conv_nth drop_eq_Nil list.distinct(1) list.sel(1) not_le,
        metis append_Cons add_2_eq_Suc' Suc_eq_plus1 drop_Suc list.sel(3) tl_drop)
  from Cons.prems(1) obtain st2 where st2: "brackets opener closes st t = Some st2"
      "brackets opener closes st2 (concat ts @ t1) = Some []"
    by (auto simp: brackets_append split: option.splits)
  from forward_line [OF st2(1) _ Cons.prems(3), of "[]"] obtain s' where
    s': "FindEndOfExpressionInLine t 0 s = (-1, Some s')" "sees (CHR ''<'') s' (st2 @ [a])" by auto
  from Cons.IH [OF st2(2) _ s'(2), of "k + 1"] k(3) have
    "close_lines c (k + 1) t (Some s') = Inr (t1 @ b # post, k + length ts + 2, int (length t1 + 1))"
    by simp
  with k(1,2) s'(1) sees_not_Nil [OF Cons.prems(3)] show ?case
    by (simp add: close_lines.simps [of c k] pending_def assms(4) py_get_nonneg nat_add_distrib)
qed

lemma backward_line:
  assumes "brackets closer (\<lambda>s c. closes c s) st (rev t) = Some st'" and "base \<noteq> []"
    and "sees (CHR ''>'') s (st @ base)"
  shows "\<exists>s'. find_start (t @ post) (length t) s = (-1, Some s') \<and> sees (CHR ''>'') s' (st' @ base)"
proof -
  let ?p = "(t @ post, length t)"
  have "backward_ahead ?p = rev t @ []" by (simp add: backward_ahead_def)
  from backward.scan_balanced [OF assms(1) this _ assms(2,3)] show ?thesis
    by (simp add: backward_pos backward_run_def del: One_nat_def)
qed

lemma backward_first_line:
  assumes "brackets closer (\<lambda>s c. closes c s) st (rev t) = Some []" and "closes a b"
    and "sees (CHR ''>'') s (st @ [b])"
  shows "find_start (pre @ a # t) (length (pre @ a # t)) s = (int (length pre), None)"
proof -
  let ?p = "(pre @ a # t, length (pre @ a # t))"
  have "backward_ahead ?p = rev t @ a # rev pre" by (simp add: backward_ahead_def)
  from backward.scan_balanced [OF assms(1) this _ _ assms(3)] closes_iff [OF assms(2)] obtain s' where
    r: "backward_run ?p s = backward_run (pre @ a # t, Suc (length pre)) s'" "sees (CHR ''>'') s' [b]"
    by (auto simp: backward_pos simp del: One_nat_def)
  have "backward_ahead (pre @ a # t, Suc (length pre)) = a # rev pre" by (simp add: backward_ahead_def)
  from backward.scan_pop [OF this _ _ _ r(2)] closes_iff [OF assms(2)] assms(2) r(1) show ?thesis
    by (simp add: backward_run_def del: find_start.simps)
qed

lemma nth_of_drop: "drop n xs = ys @ y # zs \<Longrightarrow> n + length ys < length xs \<and> xs ! (n + length ys) = y"
proof -
  assume d: "drop n xs = ys @ y # zs"
  then have "length (drop n xs) = length (ys @ y # zs)" by simp
  then have l: "n + length ys < length xs" by simp
  then have "xs ! (n + length ys) = drop n xs ! length ys" by simp
  with d l show ?thesis by simp
qed

lemma open_lines_matches:
  assumes "closes a b"
  shows "brackets closer (\<lambda>s c. closes c s) st (rev (t0 @ concat ts)) = Some [] \<Longrightarrow>
    drop n (cl_elided c) = (pre @ a # t0) # ts @ others \<Longrightarrow> sees (CHR ''>'') s (st @ [b]) \<Longrightarrow>
    open_lines c (n + length ts + 1) line (Some s) = Inr (pre @ a # t0, n, int (length pre))"
proof (induction ts arbitrary: st s line others rule: rev_induct)
  case Nil
  from nth_of_drop [of n "cl_elided c" "[]"] Nil.prems(2)
  have k: "n < length (cl_elided c)" "cl_elided c ! n = pre @ a # t0" by simp_all
  from backward_first_line [of st t0 a b s pre] Nil.prems assms
  have "find_start (pre @ a # t0) (length (pre @ a # t0)) s = (int (length pre), None)" by simp
  then show ?case
    using k sees_not_Nil [OF Nil.prems(3)] by (simp add: pending_def FindStartOfExpressionInLine_def nat_add_distrib py_get_nonneg del: find_start.simps)
next
  case (snoc t ts)
  from nth_of_drop [of n "cl_elided c" "(pre @ a # t0) # ts" t others] snoc.prems(2)
  have k: "n + length ts + 1 < length (cl_elided c)" "cl_elided c ! (n + length ts + 1) = t" by simp_all
  from snoc.prems(1) obtain st2 where st2: "brackets closer (\<lambda>s c. closes c s) st (rev t) = Some st2"
      "brackets closer (\<lambda>s c. closes c s) st2 (rev (t0 @ concat ts)) = Some []"
    by (auto simp: brackets_append split: option.splits)
  from backward_line [OF st2(1) _ snoc.prems(3), of "[]"] obtain s' where
    s': "find_start t (length t) s = (-1, Some s')" "sees (CHR ''>'') s' (st2 @ [b])" by auto
  from s'(1) have "FindStartOfExpressionInLine t (int (length t) - 1) s = Inr (-1, Some s')"
    by (simp add: FindStartOfExpressionInLine_def)
  moreover have "drop n (cl_elided c) = (pre @ a # t0) # ts @ t # others" using snoc.prems(2) by simp
  note IH = snoc.IH [OF st2(2) this s'(2)]
  ultimately show ?case
    using k IH sees_not_Nil [OF snoc.prems(3)] by (simp add: pending_def py_get_nonneg nat_add_distrib)
qed

section \<open>Bounds\<close>

definition end_ok :: "string \<Rightarrow> nat \<Rightarrow> int \<times> char list option \<Rightarrow> bool" where
  "end_ok line i r \<longleftrightarrow> fst r = -1 \<or> (int i < fst r \<and> fst r \<le> int (length line)
     \<and> (closer (line ! nat (fst r - 1)) \<or> line ! nat (fst r - 1) = CHR ''>''))"

lemma end_ok_simps:
  "end_ok line i (-1, x)"
  "i < length line \<Longrightarrow> closer (line ! i) \<or> line ! i = CHR ''>'' \<Longrightarrow> end_ok line i (int i + 1, x)"
  "end_ok line (Suc i) r \<Longrightarrow> end_ok line i r"
  by (auto simp: end_ok_def)

lemma if_end_ok: "(b \<Longrightarrow> end_ok l i x) \<Longrightarrow> (\<not> b \<Longrightarrow> end_ok l i y) \<Longrightarrow> end_ok l i (if b then x else y)"
  by simp

lemma Cons_dropD: "drop i xs = y # ys \<Longrightarrow> i < length xs \<and> xs ! i = y \<and> drop (Suc i) xs = ys"
  using nth_of_drop [of i xs "[]"] by (auto simp: drop_Suc drop_tl)

lemma find_end_bounds: "drop i line = cs \<Longrightarrow> end_ok line i (find_end line cs i st)"
proof (induction cs arbitrary: i st)
  case Nil
  then show ?case by (simp add: end_ok_simps(1))
next
  case (Cons c cs)
  from Cons_dropD [OF Cons.prems] have i: "i < length line" "line ! i = c" "drop (Suc i) line = cs" by auto
  have rec: "end_ok line i (find_end line cs (Suc i) st')" for st'
    using Cons.IH [OF i(3)] by (rule end_ok_simps(3))
  show ?case unfolding find_end.simps Let_def
    by (intro if_end_ok rec end_ok_simps(1) end_ok_simps(2)) (use i in simp_all)
qed

definition start_ok :: "string \<Rightarrow> nat \<Rightarrow> int \<times> char list option \<Rightarrow> bool" where
  "start_ok line n r \<longleftrightarrow> fst r = -1 \<or> (0 \<le> fst r \<and> fst r < int n
     \<and> (opener (line ! nat (fst r)) \<or> line ! nat (fst r) = CHR ''<''))"

lemma start_ok_simps:
  "start_ok line n (-1, x)"
  "opener (line ! i) \<or> line ! i = CHR ''<'' \<Longrightarrow> start_ok line (Suc i) (int i, x)"
  "start_ok line n r \<Longrightarrow> n \<le> m \<Longrightarrow> start_ok line m r"
  by (auto simp: start_ok_def)

lemma if_start_ok:
  "(b \<Longrightarrow> start_ok l i x) \<Longrightarrow> (\<not> b \<Longrightarrow> start_ok l i y) \<Longrightarrow> start_ok l i (if b then x else y)"
  by simp

lemma find_start_bounds: "start_ok line n (find_start line n st)"
proof (induction n arbitrary: st rule: less_induct)
  case (less n)
  show ?case
  proof (cases n)
    case 0
    then show ?thesis by (simp add: start_ok_simps(1))
  next
    case (Suc i)
    have rec: "start_ok line (Suc i) (find_start line k st')" if "k \<le> i" for k st'
      using less.IH [of k st'] that Suc start_ok_simps(3) [of line k _ "Suc i"] by simp
    show ?thesis unfolding Suc find_start.simps Let_def
      by (intro if_start_ok start_ok_simps(1) start_ok_simps(2) rec) simp_all
  qed
qed

text \<open>The results of the two searches.\<close>

definition end_found :: "cleansed \<Rightarrow> nat \<Rightarrow> string \<times> nat \<times> int \<Rightarrow> bool" where
  "end_found c n r \<longleftrightarrow> (case r of (line, linenum, pos) \<Rightarrow>
     n \<le> linenum \<and> linenum < length (cl_elided c) \<and> line = cl_elided c ! linenum
     \<and> 0 < pos \<and> pos \<le> int (length line)
     \<and> (closer (line ! nat (pos - 1)) \<or> line ! nat (pos - 1) = CHR ''>''))"

definition start_found :: "cleansed \<Rightarrow> nat \<Rightarrow> string \<times> nat \<times> int \<Rightarrow> bool" where
  "start_found c n r \<longleftrightarrow> (case r of (line, linenum, pos) \<Rightarrow>
     linenum \<le> n \<and> linenum < length (cl_elided c) \<and> line = cl_elided c ! linenum
     \<and> 0 \<le> pos \<and> pos < int (length line)
     \<and> (opener (line ! nat pos) \<or> line ! nat pos = CHR ''<''))"

lemma end_found_mono: "end_found c m r \<Longrightarrow> n \<le> m \<Longrightarrow> end_found c n r"
  by (auto simp: end_found_def)

lemma py_get_total: "n < length xs \<Longrightarrow> py_get xs (int n) = Inr (xs ! n)"
  by simp

lemma close_lines_total:
  assumes "NumLines c = length (cl_elided c)"
  shows "\<exists>r. close_lines c n line st = Inr r \<and> (end_found c n r \<or> snd r = (NumLines c, -1))"
proof (induction "NumLines c - n" arbitrary: n line st rule: less_induct)
  case less
  show ?case
  proof (cases "pending st \<and> n + 1 < NumLines c")
    case False
    then show ?thesis by (auto simp: close_lines.simps [of c n])
  next
    case True
    let ?l = "cl_elided c ! (n + 1)"
    obtain p st' where r: "FindEndOfExpressionInLine ?l 0 (the st) = (p, st')" by force
    have ok: "end_ok ?l 0 (p, st')"
      using find_end_bounds [of 0 ?l ?l "the st"] r by (simp add: FindEndOfExpressionInLine_def)
    have step: "close_lines c n line st =
        (if p > -1 then Inr (?l, n + 1, p) else close_lines c (n + 1) ?l st')"
      using True r by (simp add: close_lines.simps [of c n line st] assms py_get_nonneg nat_add_distrib)
    show ?thesis
    proof (cases "p > -1")
      case found: True
      with ok True assms have "end_found c n (?l, n + 1, p)"
        by (auto simp: end_ok_def end_found_def)
      with found step show ?thesis by simp
    next
      case False
      from True have "NumLines c - (n + 1) < NumLines c - n" by linarith
      from less.hyps [OF this, of ?l st'] step False show ?thesis
        using end_found_mono [of c "n + 1" _ n] by auto
    qed
  qed
qed

lemma start_found_mono: "start_found c m r \<Longrightarrow> m \<le> n \<Longrightarrow> start_found c n r"
  by (auto simp: start_found_def)

lemma open_lines_total:
  "n \<le> length (cl_elided c) \<Longrightarrow>
   \<exists>r. open_lines c n line st = Inr r \<and> (start_found c n r \<or> snd r = (0, -1))"
proof (induction n arbitrary: line st)
  case 0
  then show ?case by simp
next
  case (Suc n)
  show ?case
  proof (cases "pending st")
    case False
    then show ?thesis by simp
  next
    case True
    let ?l = "cl_elided c ! n"
    obtain p st' where r: "find_start ?l (length ?l) (the st) = (p, st')" by force
    have ok: "start_ok ?l (length ?l) (p, st')" using find_start_bounds r by metis
    have step: "open_lines c (Suc n) line st = (if p > -1 then Inr (?l, n, p) else open_lines c n ?l st')"
      using True r Suc.prems by (simp add: FindStartOfExpressionInLine_def)
    show ?thesis
    proof (cases "p > -1")
      case found: True
      with ok Suc.prems have "start_found c (Suc n) (?l, n, p)"
        by (auto simp: start_ok_def start_found_def)
      with found step show ?thesis by simp
    next
      case False
      from Suc.IH [of ?l st'] step False Suc.prems show ?thesis
        using start_found_mono [of c n _ "Suc n"] by auto
    qed
  qed
qed

lemma CloseExpression_total:
  assumes "NumLines c = length (cl_elided c)" and "linenum < NumLines c"
    and "pos < length (cl_elided c ! linenum)"
  shows "\<exists>r. CloseExpression c linenum pos = Inr r \<and> (end_found c linenum r \<or> snd r = (NumLines c, -1))"
proof -
  let ?l = "cl_elided c ! linenum"
  obtain p st where r: "FindEndOfExpressionInLine ?l pos [] = (p, st)" by force
  have ok: "end_ok ?l pos (p, st)"
    using find_end_bounds [of pos ?l _ "[]"] r by (simp add: FindEndOfExpressionInLine_def)
  from close_lines_total [OF assms(1), of linenum ?l st] ok r assms show ?thesis
    by (auto simp: CloseExpression_def end_ok_def end_found_def)
qed

section \<open>Properties\<close>

text \<open>C22. Both searches are total on a position of the file and stay inside it: they give up with
  the documented sentinel, or return a line of the file at or after (before) the start together
  with a position on it that is just past a closing bracket (at an opening bracket).\<close>

theorem CloseExpression_in_file:
  assumes "NumLines c = length (cl_elided c)" and "linenum < NumLines c"
    and "pos < length (cl_elided c ! linenum)"
  shows "(\<exists>r. CloseExpression c linenum pos = Inr r \<and> (end_found c linenum r \<or> snd r = (NumLines c, -1)))
    \<and> (\<exists>r. ReverseCloseExpression c linenum pos = Inr r \<and> (start_found c linenum r \<or> snd r = (0, -1)))"
proof
  show "\<exists>r. CloseExpression c linenum pos = Inr r \<and> (end_found c linenum r \<or> snd r = (NumLines c, -1))"
    using assms by (rule CloseExpression_total)
next
  let ?l = "cl_elided c ! linenum"
  obtain p st where r: "find_start ?l (Suc pos) [] = (p, st)" by force
  have ok: "start_ok ?l (Suc pos) (p, st)" using find_start_bounds [of ?l "Suc pos" "[]"] r by simp
  have f: "FindStartOfExpressionInLine ?l (int pos) [] = Inr (p, st)"
    using r assms(3) by (simp add: FindStartOfExpressionInLine_def nat_add_distrib del: find_start.simps)
  have "start_found c linenum (?l, linenum, p)" if "p > -1"
    using that ok assms by (auto simp: start_ok_def start_found_def)
  with open_lines_total [of linenum c ?l st] f assms
  show "\<exists>r. ReverseCloseExpression c linenum pos = Inr r \<and> (start_found c linenum r \<or> snd r = (0, -1))"
    by (auto simp: ReverseCloseExpression_def)
qed

definition example_lines :: cleansed where
  "example_lines = \<lparr>cl_elided = [''x = f(a->x, {'', '' [b < 1;], c'', ''});''], cl_lines = [], cl_raw_lines = [],
     cl_num_lines = 3, cl_lines_without_raw_strings = []\<rparr>"

lemma example_lines_simps [simp]:
  "cl_elided example_lines = [''x = f(a->x, {'', '' [b < 1;], c'', ''});'']" "NumLines example_lines = 3"
  by (simp_all add: example_lines_def NumLines_def)

theorem CloseExpression_in_file_witness:
  "\<exists>r. CloseExpression example_lines 1 5 = Inr r \<and> (end_found example_lines 1 r \<or> snd r = (3, -1))"
  using CloseExpression_in_file [of example_lines 1 5] by simp

lemma CloseExpression_same_line:
  assumes "drop n (cl_elided c) = (pre @ a # t @ b # post) # others" and "balanced t" and "closes a b"
  shows "CloseExpression c n (length pre) =
    Inr (pre @ a # t @ b # post, n, int (length pre + length t + 2))"
proof -
  from nth_of_drop [of n "cl_elided c" "[]"] assms(1)
  have n: "n < length (cl_elided c)" "cl_elided c ! n = pre @ a # t @ b # post" by simp_all
  have a: "a \<in> set ''({[<''" "a \<noteq> CHR ''<''" using assms(3) by (auto simp: closes_def)
  show ?thesis
    using n a no_shift [OF a(2)] find_end_group [OF assms(2,3), of pre post]
    by (simp add: CloseExpression_def)
qed

lemma CloseExpression_later_line:
  assumes "drop n (cl_elided c) = (pre @ a # t0) # ts @ (t1 @ b # post) # others"
    and "balanced (t0 @ concat ts @ t1)" and "closes a b" and "NumLines c = length (cl_elided c)"
  shows "CloseExpression c n (length pre) =
    Inr (t1 @ b # post, n + length ts + 1, int (length t1 + 1))"
proof -
  from nth_of_drop [of n "cl_elided c" "[]"] assms(1)
  have n: "n < length (cl_elided c)" "cl_elided c ! n = pre @ a # t0" by simp_all
  have d: "drop (n + 1) (cl_elided c) = ts @ (t1 @ b # post) # others"
    using Cons_dropD [OF assms(1)] by simp
  from assms(2) obtain st where st: "brackets opener closes [] t0 = Some st"
      "brackets opener closes st (concat ts @ t1) = Some []"
    by (auto simp: balanced_def brackets_append split: option.splits)
  have a: "a \<in> set ''({[<''" "a \<noteq> CHR ''<''" using assms(3) by (auto simp: closes_def)
  then have "sees (CHR ''<'') [a] ([] @ [a])" by (simp add: sees_def)
  from forward_line [OF st(1) _ this, of "pre @ [a]"] obtain s where
    s: "FindEndOfExpressionInLine (pre @ a # t0) (length (pre @ [a])) [a] = (-1, Some s)"
      "sees (CHR ''<'') s (st @ [a])" by auto
  have "forward_run (pre @ a # t0, length pre) [] = forward_run (pre @ a # t0, length (pre @ [a])) [a]"
    using forward.scan_push [of "(pre @ a # t0, length pre)" a t0 "[]"] closes_iff [OF assms(3)]
    by (simp add: forward_ahead_def)
  with s(1) have f: "FindEndOfExpressionInLine (pre @ a # t0) (length pre) [] = (-1, Some s)"
    by (simp add: forward_run_def)
  show ?thesis
    using n f a no_shift [OF a(2)] close_lines_matches [OF st(2) assms(3) d assms(4) s(2)]
    by (simp add: CloseExpression_def)
qed

lemma ReverseCloseExpression_same_line:
  assumes "drop n (cl_elided c) = (pre @ a # t @ b # post) # others" and "balanced t" and "closes a b"
  shows "ReverseCloseExpression c n (length pre + length t + 1) =
    Inr (pre @ a # t @ b # post, n, int (length pre))"
proof -
  let ?l = "pre @ a # t @ b # post" and ?k = "length pre + length t + 1"
  from nth_of_drop [of n "cl_elided c" "[]"] assms(1)
  have n: "py_get (cl_elided c) (int n) = Inr ?l" by (simp add: py_get_nonneg)
  have "?l = (pre @ a # t) @ b # post" and "?k = length (pre @ a # t)" by simp_all
  then have "?k < length ?l" "?l ! ?k = b" by (simp, metis nth_append_length)
  then have k: "py_get ?l (int ?k) = Inr b" by (simp only: py_get_nat)
  have b: "b \<in> set '')}]>''" using assms(3) by (auto simp: closes_def)
  have f: "FindStartOfExpressionInLine ?l (int ?k) [] = Inr (int (length pre), None)"
    using find_start_group [OF assms(2,3), of pre post] .
  show ?thesis unfolding ReverseCloseExpression_def n k bind_result_simps f prod.case using b by simp
qed

lemma ReverseCloseExpression_earlier_line:
  assumes "drop n (cl_elided c) = (pre @ a # t0) # ts @ (t1 @ b # post) # others"
    and "balanced (t0 @ concat ts @ t1)" and "closes a b"
  shows "ReverseCloseExpression c (n + length ts + 1) (length t1) =
    Inr (pre @ a # t0, n, int (length pre))"
proof -
  from nth_of_drop [of n "cl_elided c" "(pre @ a # t0) # ts"] assms(1)
  have n: "n + length ts + 1 < length (cl_elided c)" "cl_elided c ! (n + length ts + 1) = t1 @ b # post"
    by simp_all
  from balanced_reverse [OF assms(2)] obtain st where
    st: "brackets closer (\<lambda>s c. closes c s) [] (rev t1) = Some st"
      "brackets closer (\<lambda>s c. closes c s) st (rev (t0 @ concat ts)) = Some []"
    by (auto simp: brackets_append split: option.splits)
  have "sees (CHR ''>'') [b] ([] @ [b])" using closes_iff [OF assms(3)] by (simp add: sees_def)
  from backward_line [OF st(1) _ this, of "b # post"] obtain s where
    s: "find_start (t1 @ b # post) (length t1) [b] = (-1, Some s)" "sees (CHR ''>'') s (st @ [b])" by auto
  have "backward_run (t1 @ b # post, Suc (length t1)) [] = backward_run (t1 @ b # post, length t1) [b]"
    using backward.scan_push [of "(t1 @ b # post, Suc (length t1))" b "rev t1" "[]"] closes_iff [OF assms(3)]
    by (simp add: backward_ahead_def)
  also have "\<dots> = (-1, Some s)" using s(1) by (simp add: backward_run_def)
  finally have f: "FindStartOfExpressionInLine (t1 @ b # post) (int (length t1)) [] = Inr (-1, Some s)"
    by (simp add: backward_run_def FindStartOfExpressionInLine_def nat_add_distrib del: find_start.simps)
  have b: "b \<in> set '')}]>''" using assms(3) by (auto simp: closes_def)
  have g: "py_get (cl_elided c) (int (n + length ts + 1)) = Inr (t1 @ b # post)"
    using py_get_nat [OF n(1)] n(2) by simp
  have h: "py_get (t1 @ b # post) (int (length t1)) = Inr b" by simp
  have o: "open_lines c (n + length ts + 1) (t1 @ b # post) (Some s) = Inr (pre @ a # t0, n, int (length pre))"
    using assms(1) by (intro open_lines_matches [OF assms(3) st(2) _ s(2)]) simp
  show ?thesis unfolding ReverseCloseExpression_def g h bind_result_simps f prod.case o
    using b by simp
qed

text \<open>C20. \<open>CloseExpression\<close> finds the match: when a round, square or curly bracket is opened and
  followed, on the same line or over any number of lines, by text in which these brackets balance
  (with any other characters in between, angle brackets, operators and semicolons included) and by
  the bracket that closes it, the result is that line and the position just past the bracket on it.\<close>

theorem CloseExpression_matches:
  assumes "closes a b" and "NumLines c = length (cl_elided c)"
  shows "(drop n (cl_elided c) = (pre @ a # t @ b # post) # others \<and> balanced t \<longrightarrow>
      CloseExpression c n (length pre) = Inr (pre @ a # t @ b # post, n, int (length pre + length t + 2)))
    \<and> (drop n (cl_elided c) = (pre @ a # t0) # ts @ (t1 @ b # post) # others \<and> balanced (t0 @ concat ts @ t1) \<longrightarrow>
      CloseExpression c n (length pre) = Inr (t1 @ b # post, n + length ts + 1, int (length t1 + 1)))"
  using CloseExpression_same_line [OF _ _ assms(1)] CloseExpression_later_line [OF _ _ assms] by blast

theorem CloseExpression_matches_witness:
  "CloseExpression example_lines 0 5 = Inr (''});'', 2, 2)
   \<and> CloseExpression example_lines 1 1 = Inr ('' [b < 1;], c'', 1, 9)"
proof -
  have b: "balanced ''a->x, { [b < 1;], c}''" "balanced ''b < 1;''" by code_simp+
  moreover have "closes (CHR ''('') (CHR '')'')" "closes (CHR ''['') (CHR '']'')" by (simp_all add: closes_def)
  ultimately show ?thesis
    using CloseExpression_matches [of "CHR ''(''" "CHR '')''" example_lines 0 "''x = f''" "[]" "'';''" "[]" "''a->x, {''" "['' [b < 1;], c'']" "''}''"]
      CloseExpression_matches [of "CHR ''[''" "CHR '']''" example_lines 1 "'' ''" "''b < 1;''" "'', c''" "[''});'']"]
    by (simp add: numeral_eq_Suc)
qed

text \<open>C21. \<open>ReverseCloseExpression\<close> undoes \<open>CloseExpression\<close>: from the closing bracket of such an
  expression, on the same line or over any number of lines, it returns the line and the position
  of the opening one.\<close>

theorem ReverseCloseExpression_matches:
  assumes "closes a b"
  shows "(drop n (cl_elided c) = (pre @ a # t @ b # post) # others \<and> balanced t \<longrightarrow>
      ReverseCloseExpression c n (length pre + length t + 1) = Inr (pre @ a # t @ b # post, n, int (length pre)))
    \<and> (drop n (cl_elided c) = (pre @ a # t0) # ts @ (t1 @ b # post) # others \<and> balanced (t0 @ concat ts @ t1) \<longrightarrow>
      ReverseCloseExpression c (n + length ts + 1) (length t1) = Inr (pre @ a # t0, n, int (length pre)))"
  using ReverseCloseExpression_same_line [OF _ _ assms] ReverseCloseExpression_earlier_line [OF _ _ assms] by blast

theorem ReverseCloseExpression_matches_witness:
  "ReverseCloseExpression example_lines 2 1 = Inr (''x = f(a->x, {'', 0, 5)
   \<and> ReverseCloseExpression example_lines 1 8 = Inr ('' [b < 1;], c'', 1, 1)"
proof -
  have b: "balanced ''a->x, { [b < 1;], c}''" "balanced ''b < 1;''" by code_simp+
  moreover have "closes (CHR ''('') (CHR '')'')" "closes (CHR ''['') (CHR '']'')" by (simp_all add: closes_def)
  ultimately show ?thesis
    using ReverseCloseExpression_matches [of "CHR ''(''" "CHR '')''" 0 example_lines "''x = f''" "[]" "'';''" "[]" "''a->x, {''" "['' [b < 1;], c'']" "''}''"]
      ReverseCloseExpression_matches [of "CHR ''[''" "CHR '']''" 1 example_lines "'' ''" "''b < 1;''" "'', c''" "[''});'']"]
    by (simp add: numeral_eq_Suc)
qed

text \<open>On one line the two scans are inverse: from either bracket of a balanced group they
  find the other one.\<close>

theorem expression_scans_inverse:
  assumes "balanced body" and "closes a b"
  shows "FindEndOfExpressionInLine (pre @ a # body @ b # post) (length pre) [] =
      (int (length pre + length body + 2), None)
    \<and> FindStartOfExpressionInLine (pre @ a # body @ b # post) (int (length pre + length body + 1)) [] =
      Inr (int (length pre), None)"
  using find_end_group [OF assms] find_start_group [OF assms] by blast

theorem expression_scans_inverse_witness:
  "FindEndOfExpressionInLine ''if (a[i] || (b)) {'' 3 [] = (16, None)
   \<and> FindStartOfExpressionInLine ''if (a[i] || (b)) {'' 15 [] = Inr (3, None)"
proof -
  have "balanced ''a[i] || (b)''" by code_simp
  moreover have "closes (CHR ''('') (CHR '')'')" by (simp add: closes_def)
  ultimately show ?thesis
    using expression_scans_inverse [of "''a[i] || (b)''" "CHR ''(''" "CHR '')''" "''if ''" "'' {''"]
    by (simp add: numeral_3_eq_3)
qed

end
