(* ===== verification/LineChecks.thy ===== *)
theory LineChecks
  imports Cleanse
begin

text \<open>
  The checks of the file as a whole and of single lines that need no state: copyright, indentation,
  bad characters, the newline at the end of the file, multi-line comments and strings, functions
  that are not thread-safe, VLOG, invalid increments, macro definitions and forward declarations. A
  check gives the calls of \<open>error\<close> it makes; one that looks up a line raises when there is none.
\<close>

section \<open>Whole-file checks\<close>

definition COPYRIGHT_MESSAGE :: string where
  \<open>COPYRIGHT_MESSAGE = ''No copyright message found.  '' @
     ''You should have a line: "Copyright [year] <Copyright Owner>"''\<close>

definition CheckForCopyright :: "string list \<Rightarrow> report list" where
  "CheckForCopyright lines =
     (if list_ex (\<lambda>line. SearchF (no_flags\<lparr>ignore_case := True\<rparr>) ''Copyright'' line \<noteq> None)
           (take (min (length lines) 11 - 1) (drop 1 lines))
      then [] else [report 0 ''legal/copyright'' 5 COPYRIGHT_MESSAGE])"

definition GetIndentLevel :: "string \<Rightarrow> nat" where
  "GetIndentLevel line =
     (case Match (rx ''^( *)`S'') line of None \<Rightarrow> 0 | Some indent \<Rightarrow> length (grp indent 1))"

text \<open>A line as its code points, since the replacement character is above 255.\<close>

definition replacement_character :: nat where
  "replacement_character = 65533"

fun CheckForBadCharacters :: "nat \<Rightarrow> nat list list \<Rightarrow> report list" where
  "CheckForBadCharacters linenum [] = []"
| "CheckForBadCharacters linenum (line # lines) =
     (if replacement_character \<in> set line
      then [report (int linenum) ''readability/utf8'' 5
              ''Line contains invalid UTF-8 (or Unicode replacement character).''] else []) @
     (if 0 \<in> set line
      then [report (int linenum) ''readability/nul'' 5 ''Line contains NUL byte.''] else []) @
     CheckForBadCharacters (Suc linenum) lines"

definition CheckForNewlineAtEOF :: "string list \<Rightarrow> report list" where
  "CheckForNewlineAtEOF lines =
     (if length lines < 3 \<or> lines ! (length lines - 2) \<noteq> []
      then [report (int (length lines) - 2) ''whitespace/ending_newline'' 5
              ''Could not find a newline character at the end of the file.''] else [])"

section \<open>Checks of one line\<close>

definition with_elided :: "cleansed \<Rightarrow> nat \<Rightarrow> (string \<Rightarrow> 'a result) \<Rightarrow> 'a result" where
  "with_elided c linenum k = bind_result (py_get (cl_elided c) (int linenum)) k"

definition MULTILINE_COMMENT_MESSAGE :: string where
  "MULTILINE_COMMENT_MESSAGE = ''Complex multi-line /*...*/-style comment found. '' @
     ''Lint may give bogus warnings.  '' @ ''Consider replacing these with //-style comments, '' @
     ''with #if 0...#endif, '' @ ''or with more clearly structured multi-line comments.''"

definition MULTILINE_STRING_MESSAGE :: string where
  \<open>MULTILINE_STRING_MESSAGE = ''Multi-line string ("...") found.  This lint script doesn\'t '' @
     ''do well with such strings, and may give bogus warnings.  '' @
     ''Use C++11 raw strings or concatenation instead.''\<close>

definition CheckForMultilineCommentsAndStrings :: "cleansed \<Rightarrow> nat \<Rightarrow> report list result" where
  \<open>CheckForMultilineCommentsAndStrings c linenum =
     with_elided c linenum (\<lambda>line.
       let line = py_replace line double_backslash [] in
       Inr ((if py_count line ''/*'' > py_count line ''*/''
             then [report (int linenum) ''readability/multiline_comment'' 5 MULTILINE_COMMENT_MESSAGE] else []) @
            (if (py_count line ''"'' - py_count line (rx ''`"'')) mod 2 \<noteq> 0
             then [report (int linenum) ''readability/multiline_string'' 5 MULTILINE_STRING_MESSAGE] else [])))\<close>

definition CheckPosixThreading :: "cleansed \<Rightarrow> nat \<Rightarrow> report list result" where
  "CheckPosixThreading c linenum =
     with_elided c linenum (\<lambda>line.
       Inr (map (\<lambda>(single_thread_func, multithread_safe_func, pattern).
              report (int linenum) ''runtime/threadsafe_fn'' 2
                (''Consider using '' @ multithread_safe_func @ ''...) instead of '' @
                 single_thread_func @ ''...) for improved thread safety.''))
            (filter (\<lambda>(f, g, pattern). is_found pattern line) THREADING_LIST)))"

definition CheckVlogArguments :: "cleansed \<Rightarrow> nat \<Rightarrow> report list result" where
  "CheckVlogArguments c linenum =
     with_elided c linenum (\<lambda>line.
       Inr (if is_found (rx ''`bVLOG`((INFO|ERROR|WARNING|DFATAL|FATAL)`)'') line
            then [report (int linenum) ''runtime/vlog'' 5
                    (''VLOG() should be used with numeric verbosity level.  '' @
                     ''Use LOG() if you want symbolic severity levels.'')] else []))"

definition CheckInvalidIncrement :: "cleansed \<Rightarrow> nat \<Rightarrow> report list result" where
  "CheckInvalidIncrement c linenum =
     with_elided c linenum (\<lambda>line.
       Inr (if is_match RE_PATTERN_INVALID_INCREMENT line
            then [report (int linenum) ''runtime/invalid_increment'' 5
                    ''Changing pointer instead of value (or unused value of operator*).''] else []))"

definition IsMacroDefinition :: "string list \<Rightarrow> nat \<Rightarrow> bool result" where
  "IsMacroDefinition clean_lines linenum =
     bind_result (py_get clean_lines (int linenum)) (\<lambda>line.
       if is_found ''^#define'' line then Inr True
       else if linenum > 0 then
         bind_result (py_get clean_lines (int linenum - 1)) (\<lambda>previous.
           Inr (is_found (rx ''``$'') previous))
       else Inr False)"

definition IsForwardClassDeclaration :: "string list \<Rightarrow> nat \<Rightarrow> pymatch option result" where
  "IsForwardClassDeclaration clean_lines linenum =
     bind_result (py_get clean_lines (int linenum)) (\<lambda>line.
       Inr (Match (rx ''^`s*(`btemplate`b)*.*class`s+`w+;`s*$'') line))"

section \<open>Lemmas\<close>

lemma INDENT_compiled:
  "re_compile no_flags (rx ''^( *)`S'') = Some (no_flags,
     Seq Bol (Seq (Grp 1 (Rep 0 None True (Cls False [One (CHR '' '')]))) (Cls False [Space False])))"
  by code_simp

lemma is_space_blank: "is_space (CHR '' '')"
  by code_simp

lemma indent_run:
  assumes "s' \<in> set (runs no_flags (Seq Bol (Seq (Grp 1 (Rep 0 None True (Cls False [One (CHR '' '')])))
     (Cls False [Space False]))) (MS None line 0 []))"
  shows "\<exists>k. map_of (mst_caps s') 1 = Some (0, replicate k (CHR '' '')) \<and> k < length line
    \<and> take k line = replicate k (CHR '' '') \<and> \<not> is_space (line ! k)"
  using assms [unfolded runs_Bol_start]
proof (elim runs_Seq_GrpE runs_cls_starE runs_ClsE, goal_cases)
  case 1
  then show ?case by simp
next
  case (2 u t ta c)
  have eq: "ta = t" using 2(1,4) by simp
  with 2(5) have "\<forall>x \<in> set t. x = CHR '' ''"
    by (auto simp: list_all_iff in_cls_def no_flags_def)
  then have t: "t = replicate (length t) (CHR '' '')" by (metis replicate_length_same)
  have line: "line = t @ c # mst_rest s'" using 2(1,7) by simp
  have "\<not> is_space c" using 2(8) by (simp add: in_cls_def no_flags_def)
  with t line 2(3) show ?case
    by (intro exI [of _ "length t"]) (simp add: nth_append)
qed

lemma indent_exists:
  assumes "k < length line" and "k = length (takeWhile (\<lambda>c. c = CHR '' '') line)" and "\<not> is_space (line ! k)"
  shows "\<exists>m. Match (rx ''^( *)`S'') line = Some m"
proof -
  let ?s = "MS None line 0 []" and ?P = "in_cls no_flags False [One (CHR '' '')]"
  have P: "?P = (\<lambda>c. c = CHR '' '')" by (rule ext) (simp add: in_cls_def no_flags_def)
  define u where "u = set_group 1 ?s (adv k ?s)"
  have c: "mst_rest u = line ! k # drop (Suc k) line"
    using assms(1) by (simp add: u_def Cons_nth_drop_Suc)
  have "adv k ?s \<in> set (runs no_flags (Rep 0 None True (Cls False [One (CHR '' '')])) ?s)"
    unfolding runs_cls_star P by (simp add: assms(2))
  then have u: "u \<in> set (runs no_flags (Grp 1 (Rep 0 None True (Cls False [One (CHR '' '')]))) ?s)"
    unfolding runs_Grp_set u_def by blast
  have "adv 1 u \<in> set (runs no_flags (Cls False [Space False]) u)"
    unfolding runs_Cls char_runs_set using c assms(3) by (auto simp: in_cls_def no_flags_def)
  from runs_SeqI [OF u this] show ?thesis
    by (intro Match_exists [OF INDENT_compiled]) (simp only: runs_Bol_start)
qed

lemma last_split_on: "last (split_on x s) = [] \<longleftrightarrow> s = [] \<or> last s = x"
proof (induction s)
  case (Cons c cs)
  obtain w ws where w: "split_on x cs = w # ws" by (cases "split_on x cs") auto
  show ?case
  proof (cases "cs = []")
    case False
    then have "cs \<noteq> [] \<and> (ws = [] \<longrightarrow> w \<noteq> [] \<or> last cs = x)" using Cons w by auto
    moreover have "ws = [] \<Longrightarrow> x \<notin> set cs" using join_split [of x cs] w split_on_notin [of w x cs] by simp
    ultimately show ?thesis using Cons w last_in_set [of cs] by auto
  qed auto
qed simp

section \<open>Properties\<close>

text \<open>With the lines made as \<open>ProcessFileData\<close> gets them (the text split at the newlines,
  between two marker lines), the check for the newline at the end of the file is silent exactly
  when the text is empty or ends with a newline, and reports the last line otherwise.\<close>

theorem newline_at_eof_iff:
  "CheckForNewlineAtEOF (m # split_on (CHR 0x0A) contents @ [m']) =
     (if contents = [] \<or> last contents = CHR 0x0A then []
      else [report (int (length (split_on (CHR 0x0A) contents))) ''whitespace/ending_newline'' 5
              ''Could not find a newline character at the end of the file.''])"
proof -
  obtain w ws where w: "split_on (CHR 0x0A) contents = ws @ [w]"
    by (cases "split_on (CHR 0x0A) contents" rule: rev_cases) auto
  then have "w = [] \<longleftrightarrow> contents = [] \<or> last contents = CHR 0x0A"
    using last_split_on [of "CHR 0x0A" contents] by simp
  then show ?thesis by (auto simp: CheckForNewlineAtEOF_def w nth_append)
qed


text \<open>C38. The indent level is the number of leading blanks when they are followed by a character
  that is not white space, and zero otherwise (so for a blank line, and for blanks before a tab).\<close>

theorem GetIndentLevel_reference:
  "GetIndentLevel line =
     (let k = length (takeWhile (\<lambda>c. c = CHR '' '') line) in
      if k < length line \<and> \<not> is_space (line ! k) then k else 0)"
proof (cases "Match (rx ''^( *)`S'') line")
  case None
  with indent_exists [of "length (takeWhile (\<lambda>c. c = CHR '' '') line)" line] show ?thesis
    by (auto simp: GetIndentLevel_def Let_def)
next
  case (Some m)
  obtain s' where run: "s' \<in> set (runs no_flags (Seq Bol (Seq (Grp 1 (Rep 0 None True (Cls False [One (CHR '' '')])))
      (Cls False [Space False]))) (MS None line 0 []))" and m: "m = mk_match (MS None line 0 []) s'"
    using INDENT_compiled Some by (rule Match_runD)
  from indent_run [OF run] obtain k where k: "map_of (mst_caps s') 1 = Some (0, replicate k (CHR '' ''))"
    "k < length line" "take k line = replicate k (CHR '' '')" "\<not> is_space (line ! k)" by blast
  have "line = replicate k (CHR '' '') @ line ! k # drop (Suc k) line"
    using k(2,3) by (metis append_take_drop_id Cons_nth_drop_Suc)
  moreover have "line ! k \<noteq> CHR '' ''" using k(4) is_space_blank by metis
  ultimately have "takeWhile (\<lambda>c. c = CHR '' '') line = replicate k (CHR '' '')"
    using takeWhile_append2 [of "replicate k (CHR '' '')" "\<lambda>c. c = CHR '' ''" "line ! k # drop (Suc k) line"]
    by (simp add: in_set_replicate)
  then show ?thesis using k(2,4) Some k(1) by (simp add: GetIndentLevel_def m grp_mk_match)
qed

end
