(* ===== verification/Nesting.thy ===== *)
theory Nesting
  imports Expressions LineChecks
begin

text \<open>
  The nesting of blocks: \<open>_BlockInfo\<close> and the classes derived from it, \<open>_PreprocessorInfo\<close> and the
  class \<open>NestingState\<close>. A stack is a list with its top at the head. The blocks are objects the source
  compares by identity, so each carries an identity, given out by a counter in the state; a deep
  copy gives fresh ones. \<open>previous_stack_top\<close> is a snapshot of the block: the source reads only its
  class and its identity, which never change.
\<close>

section \<open>Blocks\<close>

datatype asm_state = NO_ASM | INSIDE_ASM | END_ASM | BLOCK_ASM

record class_info =
  ci_name :: string
  is_derived :: bool
  access :: string
  is_struct :: bool
  class_indent :: nat
  last_line :: nat

datatype block_kind = PlainBlock | ExternC | ClassBlock class_info | NamespaceBlock string

record block =
  blk_id :: nat
  starting_linenum :: nat
  seen_open_brace :: bool
  open_parentheses :: int
  inline_asm :: asm_state
  check_namespace_indentation :: bool
  blk_kind :: block_kind

definition BlockInfo_init :: "nat \<Rightarrow> nat \<Rightarrow> bool \<Rightarrow> block" where
  "BlockInfo_init i linenum seen =
     \<lparr>blk_id = i, starting_linenum = linenum, seen_open_brace = seen, open_parentheses = 0,
      inline_asm = NO_ASM, check_namespace_indentation = False, blk_kind = PlainBlock\<rparr>"

definition IsBlockInfo :: "block \<Rightarrow> bool" where
  "IsBlockInfo b \<longleftrightarrow> blk_kind b = PlainBlock"

definition is_class :: "block \<Rightarrow> bool" where
  "is_class b \<longleftrightarrow> (case blk_kind b of ClassBlock _ \<Rightarrow> True | _ \<Rightarrow> False)"

definition is_namespace :: "block \<Rightarrow> bool" where
  "is_namespace b \<longleftrightarrow> (case blk_kind b of NamespaceBlock _ \<Rightarrow> True | _ \<Rightarrow> False)"

definition ExternCInfo_init :: "nat \<Rightarrow> nat \<Rightarrow> block" where
  "ExternCInfo_init i linenum = (BlockInfo_init i linenum True)\<lparr>blk_kind := ExternC\<rparr>"

text \<open>The search for the end of the class: the first line where the braces seen so far balance.\<close>

fun class_last_line :: "int \<Rightarrow> nat \<Rightarrow> string list \<Rightarrow> nat" where
  "class_last_line depth i [] = 0"
| "class_last_line depth i (line # lines) =
     (let depth = depth + (py_count line ''{'' - py_count line ''}'') in
      if depth = 0 then i else class_last_line depth (Suc i) lines)"

definition ClassInfo_init :: "nat \<Rightarrow> string \<Rightarrow> string \<Rightarrow> cleansed \<Rightarrow> nat \<Rightarrow> block result" where
  "ClassInfo_init i name class_or_struct c linenum =
     bind_result (py_get (cl_raw_lines c) (int linenum)) (\<lambda>raw.
       Inr ((BlockInfo_init i linenum False)
         \<lparr>check_namespace_indentation := True,
          blk_kind := ClassBlock
            \<lparr>ci_name = name, is_derived = False,
             access = (if class_or_struct = ''struct'' then ''public'' else ''private''),
             is_struct = (class_or_struct = ''struct''),
             class_indent = GetIndentLevel raw,
             last_line = class_last_line 0 linenum (take (NumLines c - linenum) (drop linenum (cl_elided c)))\<rparr>\<rparr>))"

definition NamespaceInfo_init :: "nat \<Rightarrow> string option \<Rightarrow> nat \<Rightarrow> block" where
  "NamespaceInfo_init i name linenum =
     (BlockInfo_init i linenum False)
       \<lparr>check_namespace_indentation := True,
        blk_kind := NamespaceBlock (case name of None \<Rightarrow> [] | Some n \<Rightarrow> n)\<rparr>"

section \<open>Checks at the beginning and the end of a block\<close>

definition CheckBegin :: "cleansed \<Rightarrow> nat \<Rightarrow> block \<Rightarrow> block result" where
  "CheckBegin c linenum b =
     (case blk_kind b of
        ClassBlock ci \<Rightarrow>
          with_elided c linenum (\<lambda>line.
            Inr (if is_found ''(^|[^:]):($|[^:])'' line
                 then b\<lparr>blk_kind := ClassBlock (ci\<lparr>is_derived := True\<rparr>)\<rparr> else b))
      | _ \<Rightarrow> Inr b)"

text \<open>The lines of the class from the last to the first, looking for the DISALLOW macro.\<close>

fun disallow_scan :: "string \<Rightarrow> (nat \<times> string) list \<Rightarrow> bool \<Rightarrow> report list" where
  "disallow_scan pattern [] seen_last_thing = []"
| "disallow_scan pattern ((i, line) # lines) seen_last_thing =
     (case Search pattern line of
        Some match \<Rightarrow>
          if seen_last_thing
          then [report (int i) ''readability/constructors'' 3
                  (grp match 1 @ '' should be the last thing in the class'')] else []
      | None \<Rightarrow> disallow_scan pattern lines (seen_last_thing \<or> \<not> is_match (rx ''^`s*$'') line))"

definition class_parent :: "class_info \<Rightarrow> string" where
  "class_parent ci = (if is_struct ci then ''struct '' @ ci_name ci else ''class '' @ ci_name ci)"

definition ClassInfo_CheckEnd :: "cleansed \<Rightarrow> nat \<Rightarrow> block \<Rightarrow> class_info \<Rightarrow> report list result" where
  "ClassInfo_CheckEnd c linenum b ci =
     with_elided c linenum (\<lambda>line.
       let first = starting_linenum b + 1;
           body = rev (zip [first..<linenum] (drop first (cl_elided c)));
           pattern = rx ''`b(DISALLOW_COPY_AND_ASSIGN|DISALLOW_IMPLICIT_CONSTRUCTORS)`('' @ ci_name ci @ rx ''`)''
       in Inr (disallow_scan pattern body False @
            (case Match (rx ''^( *)`}'') line of
               None \<Rightarrow> []
             | Some indent \<Rightarrow>
                 if length (grp indent 1) \<noteq> class_indent ci
                 then [report (int linenum) ''whitespace/indent'' 3
                         (''Closing brace should be aligned with beginning of '' @ class_parent ci)]
                 else [])))"

definition NamespaceInfo_CheckEnd :: "cleansed \<Rightarrow> nat \<Rightarrow> block \<Rightarrow> string \<Rightarrow> report list result" where
  \<open>NamespaceInfo_CheckEnd c linenum b name =
     bind_result (py_get (cl_raw_lines c) (int linenum)) (\<lambda>line.
       Inr (if int linenum - int (starting_linenum b) < 10
               \<and> \<not> is_match (rx ''^`s*};*`s*(//|/`*).*`bnamespace`b'') line then []
            else if name \<noteq> [] then
              (if \<not> is_match (rx ''^`s*};*`s*(//|/`*).*`bnamespace`s+'' @ re_escape name @ rx ''[`*/`.```s]*$'') line
               then [report (int linenum) ''readability/namespace'' 5
                       (''Namespace should be terminated with "// namespace '' @ name @ ''"'')] else [])
            else if \<not> is_match (rx ''^`s*};*`s*(//|/`*).*`bnamespace[`*/`.```s]*$'') line then
              (if is_match (rx ''^`s*}.*`b(namespace anonymous|anonymous namespace)`b'') line
               then [report (int linenum) ''readability/namespace'' 5
                       (''Anonymous namespace should be terminated with "// namespace"'' @
                        '' or "// anonymous namespace"'')]
               else [report (int linenum) ''readability/namespace'' 5
                       ''Anonymous namespace should be terminated with "// namespace"''])
            else []))\<close>

definition CheckEnd :: "cleansed \<Rightarrow> nat \<Rightarrow> block \<Rightarrow> report list result" where
  "CheckEnd c linenum b =
     (case blk_kind b of
        ClassBlock ci \<Rightarrow> ClassInfo_CheckEnd c linenum b ci
      | NamespaceBlock name \<Rightarrow> NamespaceInfo_CheckEnd c linenum b name
      | _ \<Rightarrow> Inr [])"

section \<open>The state\<close>

record pp_info =
  stack_before_if :: "block list"
  stack_before_else :: "block list"
  seen_else :: bool

record nesting =
  nst_stack :: "block list"
  previous_stack_top :: "block option"
  pp_stack :: "pp_info list"
  next_id :: nat

definition NestingState_init :: nesting where
  "NestingState_init = \<lparr>nst_stack = [], previous_stack_top = None, pp_stack = [], next_id = 0\<rparr>"

definition SeenOpenBrace :: "nesting \<Rightarrow> bool" where
  "SeenOpenBrace st \<longleftrightarrow> nst_stack st = [] \<or> seen_open_brace (hd (nst_stack st))"

definition InNamespaceBody :: "nesting \<Rightarrow> bool" where
  "InNamespaceBody st \<longleftrightarrow> nst_stack st \<noteq> [] \<and> is_namespace (hd (nst_stack st))"

definition InExternC :: "nesting \<Rightarrow> bool" where
  "InExternC st \<longleftrightarrow> nst_stack st \<noteq> [] \<and> blk_kind (hd (nst_stack st)) = ExternC"

definition InClassDeclaration :: "nesting \<Rightarrow> bool" where
  "InClassDeclaration st \<longleftrightarrow> nst_stack st \<noteq> [] \<and> is_class (hd (nst_stack st))"

definition InAsmBlock :: "nesting \<Rightarrow> bool" where
  "InAsmBlock st \<longleftrightarrow> nst_stack st \<noteq> [] \<and> inline_asm (hd (nst_stack st)) \<noteq> NO_ASM"

definition push_block :: "(nat \<Rightarrow> block) \<Rightarrow> nesting \<Rightarrow> nesting" where
  "push_block f st = st\<lparr>nst_stack := f (next_id st) # nst_stack st, next_id := Suc (next_id st)\<rparr>"

definition pop_block :: "nesting \<Rightarrow> nesting" where
  "pop_block st = st\<lparr>nst_stack := tl (nst_stack st)\<rparr>"

definition map_top :: "(block \<Rightarrow> block) \<Rightarrow> nesting \<Rightarrow> nesting" where
  "map_top f st = (case nst_stack st of [] \<Rightarrow> st | b # bs \<Rightarrow> st\<lparr>nst_stack := f b # bs\<rparr>)"

text \<open>\<open>copy.deepcopy\<close> of a stack: the same blocks with new identities.\<close>

definition deepcopy :: "nat \<Rightarrow> block list \<Rightarrow> block list" where
  "deepcopy i bs = map (\<lambda>(k, b). b\<lparr>blk_id := k\<rparr>) (zip [i..<i + length bs] bs)"

definition is_if_line :: "string \<Rightarrow> bool" where
  "is_if_line line \<longleftrightarrow> is_match (rx ''^`s*#`s*(if|ifdef|ifndef)`b'') line"

definition is_else_line :: "string \<Rightarrow> bool" where
  "is_else_line line \<longleftrightarrow> is_match (rx ''^`s*#`s*(else|elif)`b'') line"

definition is_endif_line :: "string \<Rightarrow> bool" where
  "is_endif_line line \<longleftrightarrow> is_match (rx ''^`s*#`s*endif`b'') line"

definition UpdatePreprocessor :: "string \<Rightarrow> nesting \<Rightarrow> nesting" where
  "UpdatePreprocessor line st =
     (if is_if_line line then
        st\<lparr>pp_stack := \<lparr>stack_before_if = deepcopy (next_id st) (nst_stack st), stack_before_else = [],
                        seen_else = False\<rparr> # pp_stack st,
           next_id := next_id st + length (nst_stack st)\<rparr>
      else if is_else_line line then
        (case pp_stack st of
           [] \<Rightarrow> st
         | pp # pps \<Rightarrow>
             (let st = (if \<not> seen_else pp
                        then st\<lparr>pp_stack := pp\<lparr>seen_else := True,
                                              stack_before_else := deepcopy (next_id st) (nst_stack st)\<rparr> # pps,
                                next_id := next_id st + length (nst_stack st)\<rparr>
                        else st)
              in st\<lparr>nst_stack := deepcopy (next_id st) (stack_before_if pp),
                    next_id := next_id st + length (stack_before_if pp)\<rparr>))
      else if is_endif_line line then
        (case pp_stack st of
           [] \<Rightarrow> st
         | pp # pps \<Rightarrow>
             (if seen_else pp then st\<lparr>nst_stack := stack_before_else pp, pp_stack := pps\<rparr>
              else st\<lparr>pp_stack := pps\<rparr>))
      else st)"

section \<open>Template argument lists\<close>

definition TEMPLATE_TOKEN_PATTERN :: string where
  \<open>TEMPLATE_TOKEN_PATTERN = rx ''^[^{};=`[`]`.<>]*(.)''\<close>

lemma TEMPLATE_TOKEN_compiled:
  "re_compile no_flags TEMPLATE_TOKEN_PATTERN = Some (no_flags,
     Seq Bol (Seq (Rep 0 None True (Cls True (map One ''{};=[].<>''))) (Grp 1 AnyC)))"
  by code_simp

lemma template_token_nonempty:
  assumes "Match TEMPLATE_TOKEN_PATTERN t = Some m"
  shows "0 < length (m_text m) \<and> length (m_text m) \<le> length t"
proof -
  let ?s = "MS None t 0 []"
  obtain s' where run: "s' \<in> set (runs no_flags (Seq Bol (Seq (Rep 0 None True (Cls True (map One ''{};=[].<>'')))
      (Grp 1 AnyC))) ?s)" and m: "m = mk_match ?s s'"
    using TEMPLATE_TOKEN_compiled assms by (rule Match_runD)
  from run [unfolded runs_Bol_start] obtain u v where
    "v \<in> set (runs no_flags AnyC u)" "s' = set_group 1 u v"
    unfolding runs_Seq_set runs_Grp_set by blast
  then have "0 < mst_pos s'" by (auto simp: runs_AnyC char_runs_set)
  moreover have "mst_pos s' + length (mst_rest s') = length t"
    using seg_length [OF seg_runs [OF run]] by simp
  ultimately show ?thesis by (simp add: m mk_match_def)
qed

lemma close_lines_after: "close_lines c n line st = Inr (l, n', p) \<Longrightarrow> p < 0 \<or> n < n'"
proof (induction c n line st rule: close_lines.induct)
  case (1 c n line st)
  show ?case
  proof (cases "pending st \<and> n + 1 < NumLines c")
    case True
    with 1(2) obtain x where x: "py_get (cl_elided c) (int (n + 1)) = Inr x"
      by (auto simp: close_lines.simps [of c n] bind_result_eq_Inr)
    obtain q st' where r: "FindEndOfExpressionInLine x 0 (the st) = (q, st')" by force
    from 1(1) [OF True r [symmetric] refl] 1(2) True x r show ?thesis
      by (auto simp: close_lines.simps [of c n] split: if_splits)
  next
    case False
    with 1(2) show ?thesis by (auto simp: close_lines.simps [of c n])
  qed
qed

lemma CloseExpression_after:
  assumes "CloseExpression c n pos = Inr (l, n', p)"
  shows "p < 0 \<or> n < n' \<or> (n' = n \<and> int pos < p \<and> p \<le> int (length (cl_elided c ! n)) \<and> n < length (cl_elided c))"
proof -
  from assms obtain line where line: "py_get (cl_elided c) (int n) = Inr line"
    by (auto simp: CloseExpression_def bind_result_eq_Inr)
  then have n: "n < length (cl_elided c)" "line = cl_elided c ! n"
    by (auto simp: py_get_def split: if_splits)
  obtain q st where r: "FindEndOfExpressionInLine line pos [] = (q, st)" by force
  have "end_ok line pos (q, st)"
    using find_end_bounds [of pos line _ "[]"] r by (simp add: FindEndOfExpressionInLine_def)
  with assms line r n close_lines_after [of c n line st l n' p] show ?thesis
    by (auto simp: CloseExpression_def bind_result_eq_Inr end_ok_def split: if_splits)
qed

lemma template_token_pos:
  assumes "Match TEMPLATE_TOKEN_PATTERN (drop pos line) = Some m"
  shows "pos < length line \<and> 0 < length (m_text m)"
  using template_token_nonempty [OF assms] by (simp del: length_greater_0_conv) linarith

lemma template_progress:
  assumes "int (pos + k - 1) < p" and "0 < k" and "p \<le> int n"
  shows "n + 1 - nat p < n + 1 - pos"
  using assms by linarith

lemma py_get_elided: "py_get xs (int n) = Inr x \<Longrightarrow> n < length xs \<and> x = xs ! n"
  by (auto simp: py_get_def split: if_splits)

text \<open>The loop moves forward in the file: to a later line, or further on the line.\<close>

function InTemplateArgumentList :: "cleansed \<Rightarrow> nat \<Rightarrow> nat \<Rightarrow> bool result" where
  "InTemplateArgumentList c linenum pos =
     (if linenum < NumLines c then
        (case py_get (cl_elided c) (int linenum) of
           Inl e \<Rightarrow> Inl e
         | Inr line \<Rightarrow>
             (case Match TEMPLATE_TOKEN_PATTERN (drop pos line) of
                None \<Rightarrow> InTemplateArgumentList c (linenum + 1) 0
              | Some match \<Rightarrow>
                  (let token = grp match 1; pos = pos + length (m_text match) in
                   if token \<in> {''{'', ''}'', '';''} then Inr False
                   else if token \<in> {''>'', ''='', ''['', '']'', ''.''} then Inr True
                   else if token \<noteq> ''<'' then
                     (if pos + 1 \<ge> length line then InTemplateArgumentList c (linenum + 1) 0
                      else InTemplateArgumentList c linenum (pos + 1))
                   else
                     (case CloseExpression c linenum (pos - 1) of
                        Inl e \<Rightarrow> Inl e
                      | Inr (_, end_line, end_pos) \<Rightarrow>
                          if end_pos < 0 then Inr False
                          else InTemplateArgumentList c end_line (nat end_pos)))))
      else Inr False)"
  by pat_completeness auto

termination InTemplateArgumentList
proof (relation "measures [\<lambda>(c, linenum, pos). NumLines c - linenum,
    \<lambda>(c, linenum, pos). length (cl_elided c ! linenum) + 1 - pos]", goal_cases)
  case (4 c linenum pos line m token pos')
  with template_token_pos [of pos line m] py_get_elided [of "cl_elided c" linenum line] show ?case by auto
next
  case (5 c linenum pos line m token pos' r l p n q)
  show ?case
  proof (cases "linenum < n")
    case True
    with 5 show ?thesis by auto
  next
    case False
    have close: "CloseExpression c linenum (pos + length (m_text m) - 1) = Inr (l, n, q)" and q: "\<not> q < 0"
      and m: "Match TEMPLATE_TOKEN_PATTERN (drop pos line) = Some m"
      using 5 by auto
    from CloseExpression_after [OF close] False q
    have n: "n = linenum" "int (pos + length (m_text m) - 1) < q" "q \<le> int (length (cl_elided c ! linenum))"
      by auto
    from template_progress [OF n(2) _ n(3)] template_token_pos [OF m]
    show ?thesis by (simp add: n(1) del: length_greater_0_conv)
  qed
qed auto

declare InTemplateArgumentList.simps [simp del]

section \<open>The update of a line\<close>

text \<open>Parentheses and inline assembly of the innermost block.\<close>

definition update_block :: "string \<Rightarrow> block \<Rightarrow> block" where
  "update_block line b =
     (let depth_change = py_count line ''('' - py_count line '')'';
          b = b\<lparr>open_parentheses := open_parentheses b + depth_change\<rparr>
      in if inline_asm b \<in> {NO_ASM, END_ASM} then
           (if depth_change \<noteq> 0 \<and> open_parentheses b = 1 \<and> is_match MATCH_ASM line
            then b\<lparr>inline_asm := INSIDE_ASM\<rparr> else b\<lparr>inline_asm := NO_ASM\<rparr>)
         else if inline_asm b = INSIDE_ASM \<and> open_parentheses b = 0
         then b\<lparr>inline_asm := END_ASM\<rparr> else b)"

definition NAMESPACE_PATTERN :: string where
  \<open>NAMESPACE_PATTERN = rx ''^`s*namespace`b`s*([:`w]+)?(.*)$''\<close>

lemma NAMESPACE_width: "tail_width NAMESPACE_PATTERN 2 = Some 9"
  by code_simp

lemma namespace_shorter: "Match NAMESPACE_PATTERN line = Some m \<Longrightarrow> length (grp m 2) < length line"
  using tail_width_bound [OF NAMESPACE_width] by fastforce

function namespace_loop :: "nat \<Rightarrow> string \<Rightarrow> nesting \<Rightarrow> string \<times> nesting" where
  "namespace_loop linenum line st =
     (case Match NAMESPACE_PATTERN line of
        None \<Rightarrow> (line, st)
      | Some m \<Rightarrow>
          (let st = push_block (\<lambda>i. NamespaceInfo_init i (group m 1) linenum) st; rest = grp m 2 in
           if py_find rest ''{'' \<noteq> -1
           then namespace_loop linenum (py_from rest (py_find rest ''{'' + 1))
                  (map_top (\<lambda>b. b\<lparr>seen_open_brace := True\<rparr>) st)
           else namespace_loop linenum rest st))"
  by pat_completeness auto

lemma namespace_cut: "Match NAMESPACE_PATTERN line = Some m \<Longrightarrow> length (py_from (grp m 2) i) < length line"
  using namespace_shorter [of line m] length_py_from [of "grp m 2" i] by linarith

termination namespace_loop
  by (relation "measure (\<lambda>(linenum, line, st). length line)") (simp_all add: namespace_cut namespace_shorter)

declare namespace_loop.simps [simp del]

definition CLASS_DECL_PATTERN :: string where
  \<open>CLASS_DECL_PATTERN = rx ''^(`s*(?:template`s*<[`w`s<>,:=]*>`s*)?'' @
     rx ''(class|struct)`s+(?:[A-Z_]+`s+)*(`w+(?:::`w+)*))'' @ rx ''(.*)$''\<close>

definition class_step :: "cleansed \<Rightarrow> nat \<Rightarrow> string \<Rightarrow> nesting \<Rightarrow> (string \<times> nesting) result" where
  "class_step c linenum line st =
     (case Match CLASS_DECL_PATTERN line of
        None \<Rightarrow> Inr (line, st)
      | Some m \<Rightarrow>
          if nst_stack st = [] \<or> open_parentheses (hd (nst_stack st)) = 0 then
            bind_result (InTemplateArgumentList c linenum (length (grp m 1))) (\<lambda>in_template.
              if in_template then Inr (line, st)
              else
                bind_result (ClassInfo_init (next_id st) (grp m 3) (grp m 2) c linenum) (\<lambda>b.
                  Inr (grp m 4, push_block (\<lambda>i. b) st)))
          else Inr (line, st))"

definition check_begin_step :: "cleansed \<Rightarrow> nat \<Rightarrow> nesting \<Rightarrow> nesting result" where
  "check_begin_step c linenum st =
     (if SeenOpenBrace st then Inr st
      else bind_result (CheckBegin c linenum (hd (nst_stack st))) (\<lambda>b. Inr (map_top (\<lambda>_. b) st)))"

definition ACCESS_PATTERN :: string where
  \<open>ACCESS_PATTERN = rx ''^(.*)`b(public|private|protected|signals)(`s+(?:slots`s*)?)?'' @ rx '':(?:[^:]|$)''\<close>

definition access_step :: "nat \<Rightarrow> string \<Rightarrow> nesting \<Rightarrow> nesting \<times> report list" where
  "access_step linenum line st =
     (case nst_stack st of
        [] \<Rightarrow> (st, [])
      | b # bs \<Rightarrow>
          (case blk_kind b of
             ClassBlock ci \<Rightarrow>
               (case Match ACCESS_PATTERN line of
                  None \<Rightarrow> (st, [])
                | Some m \<Rightarrow>
                    (map_top (\<lambda>b. b\<lparr>blk_kind := ClassBlock (ci\<lparr>access := grp m 2\<rparr>)\<rparr>) st,
                     if length (grp m 1) \<noteq> class_indent ci + 1 \<and> is_match (rx ''^`s*$'') (grp m 1)
                     then [report (int linenum) ''whitespace/indent'' 3
                             (grp m 2 @ grp m 3 @ '': should be indented +1 space inside '' @ class_parent ci)]
                     else []))
           | _ \<Rightarrow> (st, [])))"

definition BRACE_PATTERN :: string where
  \<open>BRACE_PATTERN = ''^[^{;)}]*([{;)}])(.*)$''\<close>

definition EXTERN_PATTERN :: string where
  \<open>EXTERN_PATTERN = rx ''^extern`s*"[^"]*"`s*`{''\<close>

text \<open>What one brace, semicolon or closing parenthesis does; \<open>line\<close> is the text it was found in.\<close>

definition open_brace :: "nat \<Rightarrow> string \<Rightarrow> nesting \<Rightarrow> nesting" where
  "open_brace linenum line st =
     (if \<not> SeenOpenBrace st then map_top (\<lambda>b. b\<lparr>seen_open_brace := True\<rparr>) st
      else if is_match EXTERN_PATTERN line then push_block (\<lambda>i. ExternCInfo_init i linenum) st
      else push_block (\<lambda>i. (BlockInfo_init i linenum True)
             \<lparr>inline_asm := if is_match MATCH_ASM line then BLOCK_ASM else NO_ASM\<rparr>) st)"

definition brace_token :: "cleansed \<Rightarrow> nat \<Rightarrow> string \<Rightarrow> string \<Rightarrow> nesting \<Rightarrow> (nesting \<times> report list) result" where
  "brace_token c linenum line token st =
     (if token = ''{'' then Inr (open_brace linenum line st, [])
      else if token = '';'' \<or> token = '')'' then
        Inr (if \<not> SeenOpenBrace st then pop_block st else st, [])
      else if nst_stack st \<noteq> [] then
        bind_result (CheckEnd c linenum (hd (nst_stack st))) (\<lambda>rs. Inr (pop_block st, rs))
      else Inr (st, []))"

lemma BRACE_compiled:
  "re_compile no_flags BRACE_PATTERN = Some (no_flags,
     Seq Bol (Seq (Rep 0 None True (Cls True (map One ''{;)}'')))
       (Seq (Grp 1 (Cls False (map One ''{;)}''))) (any_tail 2))))"
  by code_simp

definition is_brace :: "char \<Rightarrow> bool" where
  "is_brace c \<longleftrightarrow> c \<in> set ''{;)}''"

lemma brace_cls: "in_cls no_flags False (map One ''{;)}'') c = is_brace c"
  "in_cls no_flags True (map One ''{;)}'') c = (\<not> is_brace c)"
  by (auto simp: in_cls_def no_flags_def is_brace_def)

lemma brace_shape:
  assumes "Match BRACE_PATTERN line = Some m"
  obtains pre x where "line = pre @ [x] @ grp m 2 \<or> line = pre @ [x] @ grp m 2 @ [CHR 0x0A]"
    "grp m 1 = [x]" "is_brace x" "\<not> list_ex is_brace pre" "CHR 0x0A \<notin> set (grp m 2)"
proof -
  let ?s = "MS None line 0 []"
  obtain s' where run: "s' \<in> set (runs no_flags (Seq Bol (Seq (Rep 0 None True (Cls True (map One ''{;)}'')))
       (Seq (Grp 1 (Cls False (map One ''{;)}''))) (any_tail 2)))) ?s)" and m: "m = mk_match ?s s'"
    using BRACE_compiled assms by (rule Match_runD)
  show thesis
    using run [unfolded runs_Bol_start]
  proof (elim runs_tailE runs_Seq_GrpE runs_SeqE runs_cls_starE runs_ClsE, goal_cases)
    case (2 u ua t tb tc c)
    from 2(3,13) have t: "t = [c]" by simp
    have g: "grp m 1 = [c]" "grp m 2 = tb"
      using 2(5,8) t m by (simp_all add: grp_mk_match)
    show ?case
    proof (rule that [of tc c])
      show "line = tc @ [c] @ grp m 2 \<or> line = tc @ [c] @ grp m 2 @ [CHR 0x0A]"
        using 2(6,10,13) g by auto
      show "\<not> list_ex is_brace tc"
        using 2(11) unfolding list_all_iff brace_cls list_ex_iff by blast
      show "is_brace c" using 2(14) unfolding brace_cls .
    qed (use 2(7) g in simp_all)
  qed (simp (no_asm))
qed

lemma brace_shorter: "Match BRACE_PATTERN line = Some m \<Longrightarrow> length (grp m 2) < length line"
  by (elim brace_shape) auto

function brace_loop :: "cleansed \<Rightarrow> nat \<Rightarrow> string \<Rightarrow> nesting \<Rightarrow> (nesting \<times> report list) result" where
  "brace_loop c linenum line st =
     (case Match BRACE_PATTERN line of
        None \<Rightarrow> Inr (st, [])
      | Some matched \<Rightarrow>
          bind_result (brace_token c linenum line (grp matched 1) st) (\<lambda>(st, rs).
            bind_result (brace_loop c linenum (grp matched 2) st) (\<lambda>(st', rs'). Inr (st', rs @ rs'))))"
  by pat_completeness auto

termination brace_loop
  by (relation "measure (\<lambda>(c, linenum, line, st). length line)") (simp_all add: brace_shorter)

declare brace_loop.simps [simp del]

definition remember_top :: "nesting \<Rightarrow> nesting" where
  "remember_top st = st\<lparr>previous_stack_top := (case nst_stack st of [] \<Rightarrow> None | b # bs \<Rightarrow> Some b)\<rparr>"

definition Update :: "cleansed \<Rightarrow> nat \<Rightarrow> nesting \<Rightarrow> (nesting \<times> report list) result" where
  "Update c linenum st =
     with_elided c linenum (\<lambda>line.
       let st = remember_top st;
           st = UpdatePreprocessor line st;
           st = map_top (update_block line) st;
           (line, st) = namespace_loop linenum line st
       in bind_result (class_step c linenum line st) (\<lambda>(line, st).
          bind_result (check_begin_step c linenum st) (\<lambda>st.
            let (st, rs) = access_step linenum line st
            in bind_result (brace_loop c linenum line st) (\<lambda>(st, rs'). Inr (st, rs @ rs')))))"

section \<open>The end of the file\<close>

fun InnermostClass_of :: "block list \<Rightarrow> block option" where
  "InnermostClass_of [] = None"
| "InnermostClass_of (b # bs) = (if is_class b then Some b else InnermostClass_of bs)"

definition InnermostClass :: "nesting \<Rightarrow> block option" where
  "InnermostClass st = InnermostClass_of (nst_stack st)"

definition CheckCompletedBlocks :: "nesting \<Rightarrow> report list" where
  "CheckCompletedBlocks st =
     concat (map (\<lambda>obj.
       case blk_kind obj of
         ClassBlock ci \<Rightarrow> [report (int (starting_linenum obj)) ''build/class'' 5
           (''Failed to find complete declaration of class '' @ ci_name ci)]
       | NamespaceBlock name \<Rightarrow> [report (int (starting_linenum obj)) ''build/namespaces'' 5
           (''Failed to find complete declaration of namespace '' @ name)]
       | _ \<Rightarrow> []) (rev (nst_stack st)))"

end
