(* ===== verification/NestingFacts.thy ===== *)
theory NestingFacts
  imports Nesting
begin

text \<open>
  What the tracking of blocks guarantees: an invariant of the stack that every step of \<open>Update\<close>
  keeps, with the totality of the steps on the lines of a cleansed file; the abstraction of the
  stack to the flags \<open>seen_open_brace\<close>, on which the loop over braces is a plain pushdown; and the
  way the preprocessor stack saves and restores the stack of blocks.
\<close>

section \<open>The invariant\<close>

definition block_ok :: "nat \<Rightarrow> block \<Rightarrow> bool" where
  "block_ok n b \<longleftrightarrow> starting_linenum b < n
     \<and> (check_namespace_indentation b \<longleftrightarrow> is_class b \<or> is_namespace b)
     \<and> (seen_open_brace b \<or> is_class b \<or> is_namespace b)"

definition stack_ok :: "nat \<Rightarrow> nat \<Rightarrow> block list \<Rightarrow> bool" where
  "stack_ok i n bs \<longleftrightarrow> distinct (map blk_id bs) \<and> (\<forall>b \<in> set bs. blk_id b < i \<and> block_ok n b)"

definition nesting_ok :: "nat \<Rightarrow> nesting \<Rightarrow> bool" where
  "nesting_ok n st \<longleftrightarrow> stack_ok (next_id st) n (nst_stack st)
     \<and> (\<forall>pp \<in> set (pp_stack st). stack_ok (next_id st) n (stack_before_if pp)
                              \<and> stack_ok (next_id st) n (stack_before_else pp))"

lemma block_ok_mono: "block_ok n b \<Longrightarrow> n \<le> m \<Longrightarrow> block_ok m b"
  by (auto simp: block_ok_def)

lemma stack_ok_mono: "stack_ok i n bs \<Longrightarrow> i \<le> j \<Longrightarrow> n \<le> m \<Longrightarrow> stack_ok j m bs"
  by (auto simp: stack_ok_def intro: block_ok_mono less_le_trans)

lemma stack_ok_add: "stack_ok i n bs \<Longrightarrow> stack_ok (i + k) n bs"
  using stack_ok_mono le_add1 order_refl by blast

lemma stack_ok_Nil [simp]: "stack_ok i n []"
  by (simp add: stack_ok_def)

lemma stack_ok_Cons: "stack_ok i n (b # bs) \<longleftrightarrow>
    stack_ok i n bs \<and> blk_id b < i \<and> block_ok n b \<and> blk_id b \<notin> blk_id ` set bs"
  by (auto simp: stack_ok_def)

lemma nesting_ok_init [keeps_inv]: "nesting_ok n NestingState_init"
  by (simp add: nesting_ok_def NestingState_init_def)

lemma nesting_ok_mono: "nesting_ok n st \<Longrightarrow> n \<le> m \<Longrightarrow> nesting_ok m st"
  by (auto simp: nesting_ok_def intro: stack_ok_mono)

lemma nesting_ok_remember [keeps_inv]: "nesting_ok n st \<Longrightarrow> nesting_ok n (remember_top st)"
  by (simp add: nesting_ok_def remember_top_def)

lemma nesting_ok_push [keeps_inv]:
  "nesting_ok n st \<Longrightarrow> blk_id (f (next_id st)) = next_id st \<Longrightarrow> block_ok n (f (next_id st)) \<Longrightarrow>
   nesting_ok n (push_block f st)"
  by (auto simp: nesting_ok_def push_block_def stack_ok_Cons intro: stack_ok_mono)
     (auto simp: stack_ok_def)

lemma nesting_ok_pop [keeps_inv]: "nesting_ok n st \<Longrightarrow> nesting_ok n (pop_block st)"
  by (cases "nst_stack st") (auto simp: nesting_ok_def pop_block_def stack_ok_Cons)

lemma nesting_ok_top [keeps_inv]:
  "nesting_ok n st \<Longrightarrow> (\<And>b. nst_stack st \<noteq> [] \<Longrightarrow> b = hd (nst_stack st) \<Longrightarrow> block_ok n b \<Longrightarrow>
     blk_id (f b) = blk_id b \<and> block_ok n (f b)) \<Longrightarrow> nesting_ok n (map_top f st)"
  by (auto simp: nesting_ok_def map_top_def stack_ok_Cons image_iff split: list.split)
     (metis)

lemma length_deepcopy [simp]: "length (deepcopy i bs) = length bs"
  by (simp add: deepcopy_def)

lemma deepcopy_Cons: "deepcopy i (b # bs) = b\<lparr>blk_id := i\<rparr> # deepcopy (Suc i) bs"
  by (simp add: deepcopy_def upt_conv_Cons del: upt_Suc)

lemma deepcopy_Nil [simp]: "deepcopy i [] = []"
  by (simp add: deepcopy_def)

lemma ids_deepcopy: "map blk_id (deepcopy i bs) = [i..<i + length bs]"
  by (induction bs arbitrary: i) (simp_all add: deepcopy_Cons upt_conv_Cons del: upt_Suc)

text \<open>The contents of a block without its identity.\<close>

definition anonymous :: "block \<Rightarrow> block" where
  "anonymous b = b\<lparr>blk_id := 0\<rparr>"

lemma anonymous_deepcopy [simp]: "map anonymous (deepcopy i bs) = map anonymous bs"
  by (induction bs arbitrary: i) (simp_all add: deepcopy_Cons anonymous_def)

lemma block_ok_anonymous: "block_ok n (anonymous b) = block_ok n b"
  by (simp add: block_ok_def anonymous_def is_class_def is_namespace_def)

lemma stack_ok_deepcopy:
  assumes "stack_ok i n bs" shows "stack_ok (j + length bs) n (deepcopy j bs)"
proof -
  have "block_ok n b \<and> blk_id b < j + length bs" if "b \<in> set (deepcopy j bs)" for b
  proof
    from that have "anonymous b \<in> anonymous ` set (deepcopy j bs)" by (rule imageI)
    also have "\<dots> = anonymous ` set bs" by (metis anonymous_deepcopy set_map)
    finally obtain b' where "b' \<in> set bs" "anonymous b = anonymous b'" by auto
    with assms show "block_ok n b" using block_ok_anonymous by (metis stack_ok_def)
    from that have "blk_id b \<in> set (map blk_id (deepcopy j bs))" by simp
    then show "blk_id b < j + length bs" by (simp add: ids_deepcopy)
  qed
  then show ?thesis by (simp add: stack_ok_def ids_deepcopy)
qed

lemma nesting_ok_UpdatePreprocessor [keeps_inv]:
  assumes "nesting_ok n st" shows "nesting_ok n (UpdatePreprocessor line st)"
  using assms
  by (auto simp: nesting_ok_def UpdatePreprocessor_def Let_def split: list.split
      intro: stack_ok_add [OF stack_ok_add] stack_ok_add stack_ok_deepcopy)

section \<open>The steps of an update\<close>

definition well_formed :: "cleansed \<Rightarrow> bool" where
  "well_formed c \<longleftrightarrow> NumLines c = length (cl_elided c) \<and> length (cl_raw_lines c) = length (cl_elided c)"

lemma well_formed_elided: "well_formed c \<Longrightarrow> n < NumLines c \<Longrightarrow> py_get (cl_elided c) (int n) = Inr (cl_elided c ! n)"
  by (simp add: well_formed_def)

lemma well_formed_raw: "well_formed c \<Longrightarrow> n < NumLines c \<Longrightarrow> py_get (cl_raw_lines c) (int n) = Inr (cl_raw_lines c ! n)"
  by (simp add: well_formed_def)

lemma CleansedLines_total:
  obtains c where "CleansedLines lines = Inr c" "well_formed c" "NumLines c = length lines"
proof -
  obtain ls where ls: "CleanseRawStrings lines = Inr ls" "length ls = length lines"
    using CleanseRawStrings_total by blast
  from CollapseStrings_total map_result_total [of CollapseStrings "\<lambda>l r. True" ls] obtain cs
    where "map_result CollapseStrings ls = Inr cs" "length cs = length ls"
    by (metis list_all2_lengthD)
  with ls show thesis by (intro that) (auto simp: CleansedLines_def well_formed_def NumLines_def)
qed

definition reports_below :: "nat \<Rightarrow> report list \<Rightarrow> bool" where
  "reports_below n rs \<longleftrightarrow> (\<forall>r \<in> set rs. \<exists>l. r_line r = Some l \<and> 0 \<le> l \<and> l < int n)"

lemma reports_below_simps [simp]:
  "reports_below n []"
  "reports_below n (r # rs) \<longleftrightarrow> (\<exists>l. r_line r = Some l \<and> 0 \<le> l \<and> l < int n) \<and> reports_below n rs"
  "reports_below n (rs @ rs') \<longleftrightarrow> reports_below n rs \<and> reports_below n rs'"
  by (auto simp: reports_below_def)

lemma reports_below_mono: "reports_below n rs \<Longrightarrow> n \<le> m \<Longrightarrow> reports_below m rs"
  by (fastforce simp: reports_below_def)

lemma r_line_report [simp]: "r_line (report l cat k m) = Some l"
  by (simp add: report_def)

lemma block_ok_update_block: "block_ok n b \<Longrightarrow> blk_id (update_block line b) = blk_id b \<and> block_ok n (update_block line b)"
  by (auto simp: update_block_def block_ok_def Let_def is_class_def is_namespace_def)

lemma NamespaceInfo_init_ok: "k < n \<Longrightarrow> blk_id (NamespaceInfo_init i name k) = i \<and> block_ok n (NamespaceInfo_init i name k)"
  by (auto simp: NamespaceInfo_init_def BlockInfo_init_def block_ok_def is_class_def is_namespace_def)

lemma nesting_ok_namespace_loop [keeps_inv]:
  "nesting_ok n st \<Longrightarrow> k < n \<Longrightarrow> nesting_ok n (snd (namespace_loop k line st))"
proof (induction k line st rule: namespace_loop.induct)
  case (1 k line st)
  show ?case
  proof (cases "Match NAMESPACE_PATTERN line")
    case None
    with 1(3) show ?thesis by (simp add: namespace_loop.simps [of k line])
  next
    case (Some m)
    let ?st = "push_block (\<lambda>i. NamespaceInfo_init i (group m 1) k) st"
    have ok: "nesting_ok n ?st"
      using 1(3,4) NamespaceInfo_init_ok by (intro nesting_ok_push) auto
    then have "nesting_ok n (map_top (\<lambda>b. b\<lparr>seen_open_brace := True\<rparr>) ?st)"
      by (intro nesting_ok_top) (auto simp: block_ok_def is_class_def is_namespace_def)
    with ok 1(1) [OF Some refl refl] 1(2) [OF Some refl refl] 1(4) Some show ?thesis
      by (simp add: namespace_loop.simps [of k line] Let_def)
  qed
qed

lemma InTemplateArgumentList_total:
  "well_formed c \<Longrightarrow> \<exists>r. InTemplateArgumentList c n pos = Inr r"
proof (induction c n pos rule: InTemplateArgumentList.induct)
  case (1 c n pos)
  show ?case
  proof (cases "n < NumLines c")
    case False
    then show ?thesis by (auto simp: InTemplateArgumentList.simps [of c n])
  next
    case True
    let ?l = "cl_elided c ! n"
    note l = well_formed_elided [OF 1(5) True]
    show ?thesis
    proof (cases "Match TEMPLATE_TOKEN_PATTERN (drop pos ?l)")
      case None
      with 1(1) [OF True l] 1(5) True l show ?thesis by (simp add: InTemplateArgumentList.simps [of c n pos])
    next
      case (Some m)
      let ?p = "pos + length (m_text m)"
      have "?p - 1 < length ?l" "0 < ?p"
        using template_token_nonempty [OF Some] unfolding length_drop by linarith+
      then obtain line' n' p' where close: "CloseExpression c n (?p - 1) = Inr (line', n', p')"
        using CloseExpression_total [of c n "?p - 1"] 1(5) True by (auto simp: well_formed_def)
      from 1(2,3,4) l Some True 1(5) close show ?thesis
        by (subst InTemplateArgumentList.simps) (auto simp: Let_def)
    qed
  qed
qed

lemma class_step_ok:
  assumes "well_formed c" "n < NumLines c" "nesting_ok (Suc n) st"
  shows "\<exists>line' st'. class_step c n line st = Inr (line', st') \<and> nesting_ok (Suc n) st'"
proof (cases "Match CLASS_DECL_PATTERN line")
  case None
  with assms show ?thesis by (simp add: class_step_def)
next
  case (Some m)
  obtain t where t: "InTemplateArgumentList c n (length (grp m 1)) = Inr t"
    using InTemplateArgumentList_total [OF assms(1)] by blast
  obtain b where b: "ClassInfo_init (next_id st) (grp m 3) (grp m 2) c n = Inr b"
      "blk_id b = next_id st" "block_ok (Suc n) b"
    using well_formed_raw [OF assms(1,2)]
    by (auto simp: ClassInfo_init_def BlockInfo_init_def block_ok_def is_class_def)
  then have "nesting_ok (Suc n) (push_block (\<lambda>i. b) st)"
    using assms(3) by (intro nesting_ok_push) auto
  with assms t b Some show ?thesis by (auto simp: class_step_def)
qed

lemma CheckBegin_ok:
  assumes "well_formed c" "n < NumLines c"
  shows "\<exists>b'. CheckBegin c n b = Inr b' \<and> blk_id b' = blk_id b \<and> (block_ok k b \<longrightarrow> block_ok k b')
    \<and> seen_open_brace b' = seen_open_brace b"
  using well_formed_elided [OF assms]
  by (auto simp: CheckBegin_def with_elided_def block_ok_def is_class_def is_namespace_def
      split: block_kind.split)

lemma check_begin_step_ok:
  assumes "well_formed c" "n < NumLines c" "nesting_ok (Suc n) st"
  shows "\<exists>st'. check_begin_step c n st = Inr st' \<and> nesting_ok (Suc n) st'"
proof (cases "SeenOpenBrace st")
  case True
  with assms show ?thesis by (simp add: check_begin_step_def)
next
  case False
  obtain b where b: "CheckBegin c n (hd (nst_stack st)) = Inr b" "blk_id b = blk_id (hd (nst_stack st))"
      "block_ok (Suc n) (hd (nst_stack st)) \<longrightarrow> block_ok (Suc n) b"
    using CheckBegin_ok [OF assms(1,2)] by blast
  then have "nesting_ok (Suc n) (map_top (\<lambda>_. b) st)"
    using assms(3) by (intro nesting_ok_top) auto
  with False b show ?thesis by (simp add: check_begin_step_def)
qed

lemma access_step_ok:
  assumes "nesting_ok (Suc n) st"
  shows "nesting_ok (Suc n) (fst (access_step n line st)) \<and> reports_below (Suc n) (snd (access_step n line st))"
proof (cases "nst_stack st")
  case Nil
  with assms show ?thesis by (simp add: access_step_def)
next
  case (Cons b bs)
  have "nesting_ok (Suc n) (map_top (\<lambda>b. b\<lparr>blk_kind := ClassBlock ci\<rparr>) st)" if "is_class b" for ci
    using assms that Cons
    by (intro nesting_ok_top) (auto simp: block_ok_def is_class_def is_namespace_def split: block_kind.splits)
  with assms Cons show ?thesis
    by (auto simp: access_step_def is_class_def split: block_kind.split option.split)
qed

lemma disallow_scan_below: "\<forall>(i, l) \<in> set ls. i < n \<Longrightarrow> reports_below n (disallow_scan pat ls seen)"
  by (induction pat ls seen rule: disallow_scan.induct) (auto split: option.split)

lemma CheckEnd_ok:
  assumes "well_formed c" "n < NumLines c"
  shows "\<exists>rs. CheckEnd c n b = Inr rs \<and> reports_below (Suc n) rs"
proof (cases "blk_kind b")
  case (ClassBlock ci)
  have "reports_below (Suc n) (disallow_scan pat (rev (zip [i..<n] ls)) False)" for pat i ls
    by (rule disallow_scan_below) (auto dest!: set_zip_leftD)
  with well_formed_elided [OF assms] ClassBlock show ?thesis
    by (auto simp: CheckEnd_def ClassInfo_CheckEnd_def with_elided_def Let_def split: option.split)
next
  case (NamespaceBlock name)
  with well_formed_raw [OF assms] show ?thesis
    by (simp add: CheckEnd_def NamespaceInfo_CheckEnd_def)
qed (simp_all add: CheckEnd_def)

section \<open>The loop over braces as a pushdown\<close>

lemma brace_exists:
  assumes "CHR 0x0A \<notin> set line" and "\<exists>x \<in> set line. is_brace x"
  shows "\<exists>m. Match BRACE_PATTERN line = Some m"
proof -
  let ?s = "MS None line 0 []" and ?P = "in_cls no_flags True (map One ''{;)}'')"
    and ?star = "Rep 0 None True (Cls True (map One ''{;)}''))"
  have P: "?P = (\<lambda>c. \<not> is_brace c)" by (rule ext) (rule brace_cls)
  define k where "k = length (takeWhile (\<lambda>c. \<not> is_brace c) line)"
  define u where "u = adv k ?s"
  have "takeWhile (\<lambda>c. \<not> is_brace c) line \<noteq> line" using assms(2) by (auto simp: takeWhile_eq_all_conv)
  then have k: "k < length line"
    unfolding k_def by (metis length_takeWhile_le nat_less_le takeWhile_eq_take take_all order_refl)
  then have c: "mst_rest u = line ! k # drop (Suc k) line" "is_brace (line ! k)"
    using nth_length_takeWhile [of "\<lambda>c. \<not> is_brace c" line] by (simp_all add: u_def k_def Cons_nth_drop_Suc)
  have u: "u \<in> set (runs no_flags ?star ?s)"
    unfolding runs_cls_star P by (auto simp: u_def k_def)
  define v where "v = set_group 1 u (adv 1 u)"
  have "adv 1 u \<in> set (runs no_flags (Cls False (map One ''{;)}'')) u)"
    unfolding runs_Cls char_runs_set brace_cls using c by blast
  then have v: "v \<in> set (runs no_flags (Grp 1 (Cls False (map One ''{;)}''))) u)"
    unfolding runs_Grp_set v_def by blast
  have "CHR 0x0A \<notin> set (mst_rest v)"
    using assms(1) c(1) by (auto simp: v_def dest: in_set_dropD)
  from runs_tail_exists [OF this] obtain s' where s': "s' \<in> set (runs no_flags (any_tail 2) v)" by blast
  have "s' \<in> set (runs no_flags (Seq Bol (Seq ?star (Seq (Grp 1 (Cls False (map One ''{;)}''))) (any_tail 2)))) ?s)"
    unfolding runs_Bol_start by (rule runs_SeqI [OF u], rule runs_SeqI [OF v], rule s')
  with BRACE_compiled show ?thesis by (rule Match_exists)
qed

fun flag_step :: "bool list \<Rightarrow> char \<Rightarrow> bool list" where
  "flag_step fs x =
     (if x = CHR ''{'' then (case fs of False # r \<Rightarrow> True # r | _ \<Rightarrow> True # fs)
      else if x = CHR ''}'' then tl fs
      else (case fs of False # r \<Rightarrow> r | _ \<Rightarrow> fs))"

definition flags :: "nesting \<Rightarrow> bool list" where
  "flags st = map seen_open_brace (nst_stack st)"

lemma brace_cases:
  assumes "is_brace x"
  obtains "x = CHR ''{''" | "x = CHR '';''" | "x = CHR '')''" | "x = CHR ''}''"
  using assms by (auto simp: is_brace_def)

lemma flags_ops [simp]:
  "flags (pop_block st) = tl (flags st)"
  "flags (push_block f st) = seen_open_brace (f (next_id st)) # flags st"
  "pp_stack (pop_block st) = pp_stack st" "pp_stack (push_block f st) = pp_stack st"
  "pp_stack (map_top g st) = pp_stack st"
  by (auto simp: flags_def pop_block_def push_block_def map_top_def map_tl split: list.split)

lemma SeenOpenBrace_flags: "SeenOpenBrace st \<longleftrightarrow> (case flags st of [] \<Rightarrow> True | s # _ \<Rightarrow> s)"
  by (cases "nst_stack st") (auto simp: SeenOpenBrace_def flags_def)

lemma open_brace_flags: "flags (open_brace n line st) = flag_step (flags st) (CHR ''{'')"
  by (cases "nst_stack st")
     (auto simp: open_brace_def SeenOpenBrace_def flags_def push_block_def map_top_def
       ExternCInfo_init_def BlockInfo_init_def split: bool.split)

lemma nesting_ok_open_brace [keeps_inv]: "nesting_ok (Suc n) st \<Longrightarrow> nesting_ok (Suc n) (open_brace n line st)"
  by (auto simp: open_brace_def intro!: nesting_ok_top nesting_ok_push)
     (auto simp: ExternCInfo_init_def BlockInfo_init_def block_ok_def is_class_def is_namespace_def)

definition brace_result_ok :: "nat \<Rightarrow> nesting \<Rightarrow> bool list \<Rightarrow> nesting \<times> report list \<Rightarrow> bool" where
  "brace_result_ok n st fs r \<longleftrightarrow> flags (fst r) = fs \<and> (nesting_ok (Suc n) st \<longrightarrow> nesting_ok (Suc n) (fst r))
     \<and> pp_stack (fst r) = pp_stack st \<and> reports_below (Suc n) (snd r)"

lemma brace_token_ok:
  assumes "well_formed c" "n < NumLines c" "is_brace x"
  shows "\<exists>r. brace_token c n line [x] st = Inr r \<and> brace_result_ok n st (flag_step (flags st) x) r"
  using assms(3)
proof (cases rule: brace_cases)
  case 1
  then show ?thesis
    by (simp add: brace_token_def brace_result_ok_def open_brace_flags nesting_ok_open_brace)
       (simp add: open_brace_def)
next
  case 4
  from CheckEnd_ok [OF assms(1,2)] obtain rs where
    "CheckEnd c n (hd (nst_stack st)) = Inr rs" "reports_below (Suc n) rs" by blast
  with 4 nesting_ok_pop show ?thesis
    by (auto simp: brace_token_def brace_result_ok_def flags_def map_tl) (auto simp: pop_block_def map_tl)
qed (auto simp: brace_token_def brace_result_ok_def SeenOpenBrace_flags nesting_ok_pop split: list.split bool.split)

lemma brace_result_ok_trans:
  assumes "brace_result_ok n st fs (st', rs)" "brace_result_ok n st' fs' (st'', rs')"
  shows "brace_result_ok n st fs' (st'', rs @ rs')"
  using assms by (auto simp: brace_result_ok_def)

text \<open>On every line the loop returns; on a line without line ends (which is what the lines of a file
  are) it is the pushdown over the braces of the line.\<close>

lemma brace_loop_ok:
  assumes "well_formed c" "n < NumLines c"
  shows "\<exists>r fs. brace_loop c n line st = Inr r \<and> brace_result_ok n st fs r
    \<and> (CHR 0x0A \<notin> set line \<longrightarrow> fs = foldl flag_step (flags st) (filter is_brace line))"
proof (induction "length line" arbitrary: line st rule: less_induct)
  case less
  show ?case
  proof (cases "Match BRACE_PATTERN line")
    case None
    then have "CHR 0x0A \<notin> set line \<longrightarrow> filter is_brace line = []"
      using brace_exists [of line] by (auto simp: filter_empty_conv)
    with None show ?thesis
      by (auto simp: brace_loop.simps [of c n line] brace_result_ok_def)
  next
    case (Some m)
    from Some obtain pre x where shape:
      "line = pre @ [x] @ grp m 2 \<or> line = pre @ [x] @ grp m 2 @ [CHR 0x0A]"
      "grp m 1 = [x]" "is_brace x" "\<not> list_ex is_brace pre" "CHR 0x0A \<notin> set (grp m 2)"
      by (rule brace_shape)
    from brace_token_ok [OF assms shape(3), of line st] obtain st1 rs1 where
      t: "brace_token c n line [x] st = Inr (st1, rs1)" "brace_result_ok n st (flag_step (flags st) x) (st1, rs1)"
      by auto
    from less.hyps [OF brace_shorter [OF Some], of st1] obtain st2 rs2 fs where
      r: "brace_loop c n (grp m 2) st1 = Inr (st2, rs2)" "brace_result_ok n st1 fs (st2, rs2)"
        "fs = foldl flag_step (flags st1) (filter is_brace (grp m 2))"
      using shape(5) by auto
    have "filter is_brace line = x # filter is_brace (grp m 2)" if "CHR 0x0A \<notin> set line"
      using shape(1,3,4) that by (auto simp: list_ex_iff filter_empty_conv)
    then have "CHR 0x0A \<notin> set line \<longrightarrow> fs = foldl flag_step (flags st) (filter is_brace line)"
      using r(3) t(2) by (simp add: brace_result_ok_def del: flag_step.simps)
    with brace_result_ok_trans [OF t(2) r(2)] t(1) r(1) Some shape(2) show ?thesis
      by (simp add: brace_loop.simps [of c n line]) blast
  qed
qed

lemma Update_ok:
  assumes "well_formed c" "n < NumLines c" "nesting_ok n st"
  shows "\<exists>st' rs. Update c n st = Inr (st', rs) \<and> nesting_ok (Suc n) st' \<and> reports_below (Suc n) rs"
proof -
  let ?line = "cl_elided c ! n"
  define st1 where "st1 = map_top (update_block ?line) (UpdatePreprocessor ?line (remember_top st))"
  have "nesting_ok (Suc n) (UpdatePreprocessor ?line (remember_top st))"
    using nesting_ok_mono [OF assms(3)] by (intro keeps_inv) simp
  then have st1: "nesting_ok (Suc n) st1"
    unfolding st1_def by (rule nesting_ok_top) (rule block_ok_update_block)
  obtain line2 st2 where n: "namespace_loop n ?line st1 = (line2, st2)" by force
  with nesting_ok_namespace_loop [OF st1, of n ?line] have "nesting_ok (Suc n) st2" by simp
  from class_step_ok [OF assms(1,2) this] obtain line3 st3 where
    cl: "class_step c n line2 st2 = Inr (line3, st3)" "nesting_ok (Suc n) st3" by blast
  from check_begin_step_ok [OF assms(1,2) cl(2)] obtain st4 where
    b: "check_begin_step c n st3 = Inr st4" "nesting_ok (Suc n) st4" by blast
  obtain st5 rs5 where a: "access_step n line3 st4 = (st5, rs5)" by force
  with access_step_ok [OF b(2), of line3] have a': "nesting_ok (Suc n) st5" "reports_below (Suc n) rs5" by simp_all
  from brace_loop_ok [OF assms(1,2)] obtain st6 rs6 fs where
    l: "brace_loop c n line3 st5 = Inr (st6, rs6)" "brace_result_ok n st5 fs (st6, rs6)" by fastforce
  have "Update c n st = Inr (st6, rs5 @ rs6)"
    using well_formed_elided [OF assms(1,2)] n cl(1) b(1) a l(1)
    by (simp add: Update_def with_elided_def st1_def)
  with l(2) a' show ?thesis by (auto simp: brace_result_ok_def)
qed

primrec nesting_run :: "cleansed \<Rightarrow> nat \<Rightarrow> (nesting \<times> report list) result" where
  "nesting_run c 0 = Inr (NestingState_init, [])"
| "nesting_run c (Suc k) =
     bind_result (nesting_run c k) (\<lambda>(st, rs).
       bind_result (Update c k st) (\<lambda>(st', rs'). Inr (st', rs @ rs')))"

lemma nesting_run_ok:
  assumes "well_formed c"
  shows "k \<le> NumLines c \<Longrightarrow> \<exists>st rs. nesting_run c k = Inr (st, rs) \<and> nesting_ok k st \<and> reports_below k rs"
proof (induction k)
  case 0
  then show ?case by (simp add: nesting_ok_init)
next
  case (Suc k)
  then obtain st rs where IH: "nesting_run c k = Inr (st, rs)" "nesting_ok k st" "reports_below k rs" by auto
  from Suc.prems have "k < NumLines c" by simp
  from Update_ok [OF assms this IH(2)] obtain st' rs' where
    "Update c k st = Inr (st', rs')" "nesting_ok (Suc k) st'" "reports_below (Suc k) rs'" by blast
  with IH reports_below_mono [OF IH(3), of "Suc k"] show ?case by simp
qed

lemma CheckCompletedBlocks_below: "nesting_ok n st \<Longrightarrow> reports_below n (CheckCompletedBlocks st)"
  by (auto simp: CheckCompletedBlocks_def reports_below_def nesting_ok_def stack_ok_def block_ok_def
      split: block_kind.splits)

text \<open>Balanced braces: the depth after the tokens, unless they close more than they open.\<close>

fun depth_after :: "nat \<Rightarrow> string \<Rightarrow> nat option" where
  "depth_after d [] = Some d"
| "depth_after d (x # xs) =
     (if x = CHR ''{'' then depth_after (Suc d) xs
      else if x = CHR ''}'' then (case d of 0 \<Rightarrow> None | Suc d \<Rightarrow> depth_after d xs)
      else depth_after d xs)"

lemma depth_after_skip: "\<not> list_ex is_brace pre \<Longrightarrow> depth_after d (pre @ xs) = depth_after d xs"
  by (induction pre arbitrary: d) (auto simp: is_brace_def)

definition on_top :: "block list \<Rightarrow> nat \<Rightarrow> nesting \<Rightarrow> bool" where
  "on_top base d st \<longleftrightarrow> (\<exists>new. nst_stack st = new @ base \<and> length new = d \<and> list_all seen_open_brace new)
     \<and> (base = [] \<or> seen_open_brace (hd base))"

lemma on_top_seen: "on_top base d st \<Longrightarrow> SeenOpenBrace st"
proof -
  assume st: "on_top base d st"
  then obtain new where "nst_stack st = new @ base" "list_all seen_open_brace new" by (auto simp: on_top_def)
  with st show ?thesis by (cases new) (auto simp: on_top_def SeenOpenBrace_def)
qed

lemma on_top_open: "on_top base d st \<Longrightarrow> on_top base (Suc d) (open_brace n line st)"
  using on_top_seen [of base d st]
  by (auto simp: on_top_def open_brace_def push_block_def ExternCInfo_init_def BlockInfo_init_def
      intro!: exI [of _ "_ # _"])

lemma on_top_pop: "on_top base (Suc d) st \<Longrightarrow> on_top base d (pop_block st)"
  by (auto simp: on_top_def pop_block_def length_Suc_conv)

lemma brace_loop_on_top:
  assumes "well_formed c" "n < NumLines c"
  shows "CHR 0x0A \<notin> set line \<Longrightarrow> on_top base d st \<Longrightarrow> depth_after d line = Some e \<Longrightarrow>
    \<exists>st' rs. brace_loop c n line st = Inr (st', rs) \<and> on_top base e st'"
proof (induction "length line" arbitrary: line st d rule: less_induct)
  case less
  show ?case
  proof (cases "Match BRACE_PATTERN line")
    case None
    then have "\<not> list_ex is_brace line" using brace_exists [of line] less.prems(1) by (auto simp: list_ex_iff)
    with less.prems None depth_after_skip [of line d "[]"] show ?thesis
      by (simp add: brace_loop.simps [of c n line])
  next
    case (Some m)
    from Some less.prems(1) obtain pre x where shape: "line = pre @ [x] @ grp m 2"
      "grp m 1 = [x]" "is_brace x" "\<not> list_ex is_brace pre" "CHR 0x0A \<notin> set (grp m 2)"
      by (elim brace_shape) auto
    from less.prems(3) depth_after_skip [OF shape(4)] shape(1)
    have e: "depth_after d (x # grp m 2) = Some e" by simp
    obtain rs1 where end_ok: "CheckEnd c n (hd (nst_stack st)) = Inr rs1"
      using CheckEnd_ok [OF assms] by blast
    have "\<exists>st1 rs1 d1. brace_token c n line [x] st = Inr (st1, rs1) \<and> on_top base d1 st1
        \<and> depth_after d1 (grp m 2) = Some e"
      using shape(3)
    proof (cases rule: brace_cases)
      case 1
      with on_top_open [OF less.prems(2)] e show ?thesis by (auto simp: brace_token_def)
    next
      case 4
      with e obtain d1 where d1: "d = Suc d1" "depth_after d1 (grp m 2) = Some e" by (auto split: nat.splits)
      with less.prems(2) have "nst_stack st \<noteq> []" by (auto simp: on_top_def)
      with 4 d1 end_ok on_top_pop [of base d1 st] less.prems(2) show ?thesis by (auto simp: brace_token_def)
    qed (use on_top_seen [OF less.prems(2)] less.prems(2) e in \<open>auto simp: brace_token_def\<close>)
    then obtain st1 rs1 d1 where t: "brace_token c n line [x] st = Inr (st1, rs1)" "on_top base d1 st1"
        "depth_after d1 (grp m 2) = Some e" by blast
    from less.hyps [OF brace_shorter [OF Some] shape(5) t(2,3)] t(1) Some shape(2) show ?thesis
      by (auto simp: brace_loop.simps [of c n line])
  qed
qed

lemma UpdatePreprocessor_if: "is_if_line l \<Longrightarrow> nst_stack (UpdatePreprocessor l st) = nst_stack st
   \<and> pp_stack (UpdatePreprocessor l st) =
       \<lparr>stack_before_if = deepcopy (next_id st) (nst_stack st), stack_before_else = [], seen_else = False\<rparr> # pp_stack st"
  by (simp add: UpdatePreprocessor_def)

lemma UpdatePreprocessor_else:
  "\<not> is_if_line l \<Longrightarrow> is_else_line l \<Longrightarrow> pp_stack st = pp # pps \<Longrightarrow> \<not> seen_else pp \<Longrightarrow>
   pp_stack (UpdatePreprocessor l st) =
     pp\<lparr>seen_else := True, stack_before_else := deepcopy (next_id st) (nst_stack st)\<rparr> # pps \<and>
   map anonymous (nst_stack (UpdatePreprocessor l st)) = map anonymous (stack_before_if pp)"
  by (simp add: UpdatePreprocessor_def Let_def)

lemma UpdatePreprocessor_endif:
  "\<not> is_if_line l \<Longrightarrow> \<not> is_else_line l \<Longrightarrow> is_endif_line l \<Longrightarrow> pp_stack st = pp # pps \<Longrightarrow>
   pp_stack (UpdatePreprocessor l st) = pps \<and>
   nst_stack (UpdatePreprocessor l st) = (if seen_else pp then stack_before_else pp else nst_stack st)"
  by (simp add: UpdatePreprocessor_def)

section \<open>Properties\<close>

text \<open>C1. Tracking the blocks through a whole file never raises, whatever its lines are: it ends in a
  state whose blocks have distinct identities, start inside the file and only wait for their brace
  when they are classes or namespaces, and every report, those for unfinished blocks included, is
  for a line of the file.\<close>

theorem nesting_whole_file:
  "\<exists>c st rs. CleansedLines lines = Inr c \<and> nesting_run c (length lines) = Inr (st, rs)
     \<and> nesting_ok (length lines) st \<and> reports_below (length lines) (rs @ CheckCompletedBlocks st)"
proof -
  obtain c where "CleansedLines lines = Inr c" "well_formed c" "NumLines c = length lines"
    by (rule CleansedLines_total)
  with nesting_run_ok [of c "length lines"] CheckCompletedBlocks_below show ?thesis by fastforce
qed

text \<open>C2. The loop over the braces of a line refines a pushdown over the flags of the open blocks: it
  always returns, and the flags \<open>seen_open_brace\<close> of its final stack are those that one pass over
  the braces, semicolons and closing parentheses of the line computes.\<close>

theorem brace_loop_refines:
  assumes "well_formed c" "linenum < NumLines c" "CHR 0x0A \<notin> set line"
  shows "\<exists>st' rs. brace_loop c linenum line st = Inr (st', rs)
     \<and> flags st' = foldl flag_step (flags st) (filter is_brace line)"
  using brace_loop_ok [OF assms(1,2), of line st] assms(3)
  by (auto simp: brace_result_ok_def)

definition nest_lines :: cleansed where
  "nest_lines = \<lparr>cl_elided = [''if (x) { f({y; z}); }''], cl_lines = [''if (x) { f({y; z}); }''],
     cl_raw_lines = [''if (x) { f({y; z}); }''], cl_num_lines = 1, cl_lines_without_raw_strings = []\<rparr>"

lemma nest_lines_ok [simp]: "well_formed nest_lines" "NumLines nest_lines = 1"
  by (simp_all add: nest_lines_def well_formed_def NumLines_def)

definition in_block :: nesting where
  "in_block = push_block (\<lambda>i. BlockInfo_init i 0 True) NestingState_init"

lemma SeenOpenBrace_in_block [simp]: "SeenOpenBrace in_block"
  by (simp add: in_block_def SeenOpenBrace_def push_block_def BlockInfo_init_def)

theorem brace_loop_refines_witness:
  "\<exists>st' rs. brace_loop nest_lines 0 ''if (x) { f({y; z}); }'' NestingState_init = Inr (st', rs)
     \<and> flags st' = foldl flag_step (flags NestingState_init) (filter is_brace ''if (x) { f({y; z}); }'')"
  by (rule brace_loop_refines) simp_all

text \<open>C13. A line with balanced braces leaves the open blocks as they were: when the innermost block
  has its brace, the stack after the loop is the stack before it.\<close>

theorem balanced_line_keeps_stack:
  assumes "well_formed c" "linenum < NumLines c" "CHR 0x0A \<notin> set line"
    and "SeenOpenBrace st" "depth_after 0 line = Some 0"
  shows "\<exists>st' rs. brace_loop c linenum line st = Inr (st', rs) \<and> nst_stack st' = nst_stack st"
proof -
  have "on_top (nst_stack st) 0 st" using assms(4) by (simp add: on_top_def SeenOpenBrace_def)
  from brace_loop_on_top [OF assms(1-3) this assms(5)] show ?thesis by (auto simp: on_top_def)
qed

theorem balanced_line_keeps_stack_witness:
  "\<exists>st' rs. brace_loop nest_lines 0 ''if (x) { f({y; z}); }'' in_block = Inr (st', rs)
     \<and> nst_stack st' = nst_stack in_block"
  by (rule balanced_line_keeps_stack) simp_all

text \<open>C14. The branches of a conditional are tracked separately. Whatever the lines of the two branches
  do to the stack of blocks, \<open>#else\<close> brings back the blocks that were open at the \<open>#if\<close>, and
  \<open>#endif\<close> goes on with those that were open at the end of the first branch, the conditionals around
  being as before; only the identities of the blocks are new.\<close>

theorem conditional_restores_stack:
  assumes "is_if_line l1" "is_else_line l2" "\<not> is_if_line l2"
    and "is_endif_line l3" "\<not> is_if_line l3" "\<not> is_else_line l3"
    and "st1 = UpdatePreprocessor l1 st" "pp_stack st2 = pp_stack st1"
    and "st3 = UpdatePreprocessor l2 st2" "pp_stack st4 = pp_stack st3"
    and "st5 = UpdatePreprocessor l3 st4"
  shows "map anonymous (nst_stack st3) = map anonymous (nst_stack st)
     \<and> map anonymous (nst_stack st5) = map anonymous (nst_stack st2) \<and> pp_stack st5 = pp_stack st"
proof -
  from UpdatePreprocessor_if [OF assms(1), of st] assms(7,8) obtain pp where
    pp: "pp_stack st2 = pp # pp_stack st" "stack_before_if pp = deepcopy (next_id st) (nst_stack st)"
      "\<not> seen_else pp" by simp
  let ?saved = "deepcopy (next_id st2) (nst_stack st2)"
  from UpdatePreprocessor_else [OF assms(3,2) pp(1,3)] assms(9) pp(2) have
    e: "pp_stack st3 = pp\<lparr>seen_else := True, stack_before_else := ?saved\<rparr> # pp_stack st"
      "map anonymous (nst_stack st3) = map anonymous (nst_stack st)" by simp_all
  have "pp_stack st4 = pp\<lparr>seen_else := True, stack_before_else := ?saved\<rparr> # pp_stack st"
    using assms(10) e(1) by simp
  from UpdatePreprocessor_endif [OF assms(5,6,4) this] assms(11) have
    "pp_stack st5 = pp_stack st" "nst_stack st5 = ?saved" by simp_all
  with e show ?thesis by simp
qed

lemma directive_lines:
  "is_if_line ''#if A''" "is_else_line ''#else''" "\<not> is_if_line ''#else''"
  "is_endif_line ''#endif''" "\<not> is_if_line ''#endif''" "\<not> is_else_line ''#endif''"
  by code_simp+

theorem conditional_restores_stack_witness:
  "let st1 = UpdatePreprocessor ''#if A'' in_block; st2 = pop_block st1; st3 = UpdatePreprocessor ''#else'' st2;
       st5 = UpdatePreprocessor ''#endif'' st3
   in map anonymous (nst_stack st3) = map anonymous (nst_stack in_block)
     \<and> map anonymous (nst_stack st5) = map anonymous (nst_stack st2) \<and> pp_stack st5 = pp_stack in_block"
  unfolding Let_def by (rule conditional_restores_stack [OF directive_lines refl _ refl refl refl]) simp

text \<open>C15. The scan for a template argument list ends on every position of a cleansed file, without
  an exception.\<close>

theorem InTemplateArgumentList_terminates:
  "\<exists>c b. CleansedLines lines = Inr c \<and> InTemplateArgumentList c linenum pos = Inr b"
  using CleansedLines_total [of lines] InTemplateArgumentList_total by metis

end
