(* ===== verification/Spacing.thy ===== *)
theory Spacing
  imports Nesting
begin

text \<open>
  The spacing checks: function calls, blank lines, comments, operators, parentheses, commas,
  braces and sections of classes. Each check is a function of the cleansed lines, the number of the
  line and, where the code passes it, the state of the block tracker; it gives the calls of
  \<open>error\<close> it makes, in order.
\<close>

section \<open>Common tools\<close>

definition report_if :: "bool \<Rightarrow> report \<Rightarrow> report list" where
  "report_if b r = (if b then [r] else [])"

definition with_line :: "string list \<Rightarrow> int \<Rightarrow> (string \<Rightarrow> 'a result) \<Rightarrow> 'a result" where
  "with_line xs i k = bind_result (py_get xs i) k"

text \<open>The first of some lines, by number, that satisfies a test.\<close>

fun scan_first :: "(string \<Rightarrow> bool) \<Rightarrow> string list \<Rightarrow> nat list \<Rightarrow> nat option result" where
  "scan_first P xs [] = Inr None"
| "scan_first P xs (i # is) =
     bind_result (py_get xs (int i)) (\<lambda>line. if P line then Inr (Some i) else scan_first P xs is)"

definition get_lines :: "string list \<Rightarrow> nat list \<Rightarrow> string list result" where
  "get_lines xs is = map_result (\<lambda>i. py_get xs (int i)) is"

text \<open>The first pattern of a list that is found.\<close>

fun first_search :: "string list \<Rightarrow> string \<Rightarrow> pymatch option" where
  "first_search [] line = None"
| "first_search (p # ps) line = (case Search p line of Some m \<Rightarrow> Some m | None \<Rightarrow> first_search ps line)"

definition ascii_whitespace :: "char \<Rightarrow> bool" where
  "ascii_whitespace c \<longleftrightarrow> c = CHR '' '' \<or> in_range 9 13 c"

definition py_isdigit :: "string \<Rightarrow> bool" where
  "py_isdigit s \<longleftrightarrow> s \<noteq> [] \<and> list_all (\<lambda>c. is_digit c \<or> c \<in> {CHR 0xB2, CHR 0xB3, CHR 0xB9}) s"

definition IsBlankLine :: "string \<Rightarrow> bool" where
  "IsBlankLine line \<longleftrightarrow> line = [] \<or> py_isspace line"

section \<open>Function calls\<close>

definition control_patterns :: "string list" where
  \<open>control_patterns =
     [rx ''`bif`s*`((.*)`)`s*{'', rx ''`bfor`s*`((.*)`)`s*{'', rx ''`bwhile`s*`((.*)`)`s*[{;]'',
      rx ''`bswitch`s*`((.*)`)`s*{'']\<close>

definition fncall_reports :: "string \<Rightarrow> string \<Rightarrow> nat \<Rightarrow> report list" where
  \<open>fncall_reports line fncall linenum =
     (if is_found (rx ''`b(if|for|while|switch|return|new|delete|catch|sizeof)`b'') fncall
         \<or> is_found (rx '' `([^)]+`)`([^)]*(`)|,$)'') fncall
         \<or> is_found (rx '' `([^)]+`)`[[^`]]+`]'') fncall
      then []
      else
        (if is_found (rx ''`w`s*`(`s(?!`s*``$)'') fncall
         then [report (int linenum) ''whitespace/parens'' 4 ''Extra space after ( in function call'']
         else report_if (is_found (rx ''`(`s+(?!(`s*``)|`()'') fncall)
                (report (int linenum) ''whitespace/parens'' 2 ''Extra space after ('')) @
        report_if (is_found (rx ''`w`s+`('') fncall
              \<and> \<not> is_found (rx ''_{0,2}asm_{0,2}`s+_{0,2}volatile_{0,2}`s+`('') fncall
              \<and> \<not> is_found (rx ''#`s*define|typedef|using`s+`w+`s*='') fncall
              \<and> \<not> is_found (rx ''`w`s+`((`w+::)*`*`w+`)`('') fncall
              \<and> \<not> is_found (rx ''`bcase`s+`('') fncall)
          (report (int linenum) ''whitespace/parens'' (if is_found (rx ''`boperator_*`b'') line then 0 else 4)
             ''Extra space before ( in function call'') @
        report_if (is_found (rx ''[^)]`s+`)`s*[^{`s]'') fncall)
          (report (int linenum) ''whitespace/parens'' 2
             (if is_found (rx ''^`s+`)'') fncall then ''Closing ) should be moved to the previous line''
              else ''Extra space before )'')))\<close>

definition CheckSpacingForFunctionCall :: "cleansed \<Rightarrow> nat \<Rightarrow> report list result" where
  "CheckSpacingForFunctionCall c linenum =
     with_elided c linenum (\<lambda>line.
       Inr (fncall_reports line
              (case first_search control_patterns line of Some match \<Rightarrow> grp match 1 | None \<Rightarrow> line) linenum))"

section \<open>Comments\<close>

definition RE_PATTERN_TODO :: string where
  \<open>RE_PATTERN_TODO = rx ''^//(`s*)TODO(`(.+?`))?:?(`s|$)?''\<close>

definition todo_reports :: "string \<Rightarrow> nat \<Rightarrow> report list" where
  \<open>todo_reports comment linenum =
     (case Match RE_PATTERN_TODO comment of
        None \<Rightarrow> []
      | Some match \<Rightarrow>
          report_if (length (grp match 1) > 1)
            (report (int linenum) ''whitespace/todo'' 2 ''Too many spaces before TODO'') @
          report_if (grp match 2 = [])
            (report (int linenum) ''readability/todo'' 2
               (''Missing username in TODO; it should look like '' @ ''"// TODO(my_username): Stuff."'')) @
          report_if (group match 3 \<noteq> Some '' '' \<and> group match 3 \<noteq> Some [])
            (report (int linenum) ''whitespace/todo'' 2 ''TODO(my_username) should be followed by a space''))\<close>

text \<open>Two characters before the comment that are not white space, as far as they exist.\<close>

definition crowded :: "string \<Rightarrow> nat \<Rightarrow> bool" where
  "crowded line commentpos \<longleftrightarrow>
     (commentpos \<ge> 1 \<and> \<not> ascii_whitespace (line ! (commentpos - 1)))
     \<or> (commentpos \<ge> 2 \<and> \<not> ascii_whitespace (line ! (commentpos - 2)))"

definition CheckComment :: "string \<Rightarrow> nat \<Rightarrow> nat \<Rightarrow> report list" where
  \<open>CheckComment line linenum next_line_start =
     (case find_str ''//'' line of
        None \<Rightarrow> []
      | Some commentpos \<Rightarrow>
          if py_count (ReplaceAll (rx ''``.'') [] (take commentpos line)) ''"'' mod 2 \<noteq> 0 then []
          else
            let comment = drop commentpos line in
            report_if (\<not> (is_match ''^.*{ *//'' line \<and> next_line_start = commentpos) \<and> crowded line commentpos)
              (report (int linenum) ''whitespace/comments'' 2 ''At least two spaces is best between code and comments'') @
            todo_reports comment linenum @
            report_if (is_match (rx ''//[^ ]*`w'') comment \<and> \<not> is_match (rx ''(///|//`!)(`s+|$)'') comment)
              (report (int linenum) ''whitespace/comments'' 4 ''Should have a space between // and comment''))\<close>

section \<open>Blank lines\<close>

text \<open>The line above a run of lines indented by six spaces, from line \<open>k - 1\<close> upwards.\<close>

fun above_initializers :: "string list \<Rightarrow> nat \<Rightarrow> nat option result" where
  "above_initializers elided 0 = Inr None"
| "above_initializers elided (Suc k) =
     with_line elided (int k) (\<lambda>line.
       if is_match (rx '' {6}`w'') line then above_initializers elided k else Inr (Some k))"

definition header_exception :: "string list \<Rightarrow> nat \<Rightarrow> string \<Rightarrow> bool result" where
  \<open>header_exception elided linenum prev_line =
     (if is_match (rx '' {6}`w'') prev_line then
        bind_result (above_initializers elided (linenum - 1)) (\<lambda>pos.
          case pos of
            None \<Rightarrow> Inr False
          | Some k \<Rightarrow> with_line elided (int k) (\<lambda>line. Inr (take 5 line = ''    :'')))
      else Inr (is_match (rx '' {4}`w[^`(]*`)`s*(const`s*)?(`{`s*$|:)'') prev_line \<or> is_match '' {4}:'' prev_line))\<close>

definition next_raw_line :: "cleansed \<Rightarrow> nat \<Rightarrow> string option result" where
  "next_raw_line c linenum =
     (if linenum + 1 < NumLines c
      then bind_result (py_get (cl_lines_without_raw_strings c) (int linenum + 1)) (\<lambda>l. Inr (Some l))
      else Inr None)"

definition blank_line_reports :: "cleansed \<Rightarrow> nat \<Rightarrow> report list result" where
  \<open>blank_line_reports c linenum =
     with_line (cl_elided c) (int linenum - 1) (\<lambda>prev_line.
       let prevbrace = py_rfind prev_line (CHR ''{'') in
       bind_result
         (if prevbrace \<noteq> -1 \<and> py_find (py_from prev_line prevbrace) ''}'' = -1 then
            bind_result (header_exception (cl_elided c) linenum prev_line) (\<lambda>e.
              Inr (report_if (\<not> e) (report (int linenum) ''whitespace/blank_line'' 2
                    ''Redundant blank line at the start of a code block should be deleted.'')))
          else Inr []) (\<lambda>rs1.
       bind_result (next_raw_line c linenum) (\<lambda>next_line.
         Inr (rs1 @
           (case next_line of
              None \<Rightarrow> []
            | Some next_line \<Rightarrow>
                report_if (next_line \<noteq> [] \<and> is_match (rx ''`s*}'') next_line \<and> py_find next_line ''} else '' = -1)
                  (report (int linenum) ''whitespace/blank_line'' 3
                     ''Redundant blank line at the end of a code block should be deleted.'')) @
           (case Match (rx ''`s*(public|protected|private):'') prev_line of
              None \<Rightarrow> []
            | Some matched \<Rightarrow>
                [report (int linenum) ''whitespace/blank_line'' 3
                   (''Do not leave a blank line after "'' @ grp matched 1 @ '':"'')])))))\<close>

definition CheckSpacing :: "cleansed \<Rightarrow> nat \<Rightarrow> nesting \<Rightarrow> report list result" where
  \<open>CheckSpacing c linenum st =
     with_line (cl_lines_without_raw_strings c) (int linenum) (\<lambda>line.
       bind_result
         (if IsBlankLine line \<and> \<not> InNamespaceBody st \<and> \<not> InExternC st
          then blank_line_reports c linenum else Inr []) (\<lambda>rs1.
       bind_result (next_raw_line c linenum) (\<lambda>next_line.
         let next_line_start = (case next_line of None \<Rightarrow> 0 | Some l \<Rightarrow> length l - length (py_lstrip l)) in
       with_elided c linenum (\<lambda>elided_line.
         Inr (rs1 @ CheckComment line linenum next_line_start @
           report_if (is_found (rx ''`w`s+`['') elided_line
                 \<and> \<not> is_found (rx ''(?:auto&?|delete|return)`s+`['') elided_line)
             (report (int linenum) ''whitespace/braces'' 5 ''Extra space before ['') @
           report_if (is_found (rx ''for *`(.*[^:]:[^: ]'') elided_line \<or> is_found (rx ''for *`(.*[^: ]:[^:]'') elided_line)
             (report (int linenum) ''whitespace/forcolon'' 2 ''Missing space around colon in range-based for loop''))))))\<close>

section \<open>Operators\<close>

definition OPERATOR_PATTERN :: string where
  \<open>OPERATOR_PATTERN = rx ''^(.*`boperator`b)(`S+)(`s*`(.*)$''\<close>

definition not_word :: "char \<Rightarrow> bool" where
  "not_word c \<longleftrightarrow> \<not> is_word c"

definition operator_head :: re where
  "operator_head = Seq (Rep 0 None True AnyC) (Seq (WordB True) (literal ''operator'' (WordB True)))"

definition operator_args :: re where
  "operator_args = Seq (Rep 0 None True (Cls False [Space True])) (Seq (Cls False [One (CHR ''('')]) (Rep 0 None True AnyC))"

definition operator_re :: re where
  "operator_re = Seq Bol (Seq (Grp 1 operator_head) (Seq (Grp 2 (Rep 1 None True (Cls False [Space False])))
     (Seq (Grp 3 operator_args) Eol)))"

lemma OPERATOR_compiled: "re_compile no_flags OPERATOR_PATTERN = Some (no_flags, operator_re)"
  by code_simp

lemma runs_literal_before:
  "s' \<in> set (runs no_flags (literal cs r) s) \<Longrightarrow> cs \<noteq> [] \<Longrightarrow>
   \<exists>u. s' \<in> set (runs no_flags r u) \<and> mst_before u = Some (last cs)"
proof (induction cs arbitrary: s)
  case (Cons c cs)
  from Cons.prems(1) obtain u where u: "u \<in> set (char_runs (in_cls no_flags False [One c]) s)"
      "s' \<in> set (runs no_flags (literal cs r) u)"
    by (auto simp: runs_Seq_set runs_Cls)
  then have "mst_before u = Some c"
    by (auto simp: char_runs_set adv_def in_cls_def no_flags_def)
  with u Cons.IH [OF u(2)] show ?case by (cases cs) auto
qed simp

lemma at_word_boundary_after: "at_word_boundary s \<Longrightarrow> mst_before s = Some c \<Longrightarrow> is_word c \<Longrightarrow> mst_rest s = x # xs \<Longrightarrow> \<not> is_word x"
  by (cases s) auto

lemma word_r: "is_word (CHR ''r'')" "is_word (CHR ''_'')"
  by code_simp+

text \<open>The operator is followed by a character that is not part of a word.\<close>

lemma operator_head_end:
  assumes "u \<in> set (runs no_flags operator_head s)"
  shows "at_word_boundary u \<and> mst_before u = Some (CHR ''r'')"
proof -
  from assms obtain v where "u \<in> set (runs no_flags (WordB True) v)" "mst_before v = Some (CHR ''r'')"
    unfolding operator_head_def by (elim runs_SeqE) (drule runs_literal_before, auto)
  then show ?thesis by (auto simp: runs.simps split: if_splits)
qed

lemma runs_plus_progress: "s' \<in> set (runs f (Rep 1 None g (Cls neg is)) s) \<Longrightarrow> mst_pos s < mst_pos s'"
proof -
  assume "s' \<in> set (runs f (Rep 1 None g (Cls neg is)) s)"
  then obtain u where u: "u \<in> set (runs f (Cls neg is) s)"
      "s' \<in> set (rep_runs (runs f (Cls neg is)) 0 None g (Suc (length (mst_rest s))) u)"
    by (auto simp: runs.simps(6) simp del: rep_runs.simps(2-3))
  from u(1) have "mst_pos u = mst_pos s + 1" by (auto simp: runs_Cls char_runs_set)
  moreover have "seg u s'" using seg_rep_runs [OF seg_runs u(2)] .
  ultimately show ?thesis by (auto simp: seg_def)
qed

lemma operator_shape:
  assumes "Match OPERATOR_PATTERN line = Some m"
  obtains x xs e where "line = grp m 1 @ grp m 2 @ grp m 3 @ e" "grp m 2 = x # xs" "not_word x"
proof -
  let ?s = "MS None line 0 []" and ?g2 = "Rep 1 None True (Cls False [Space False])"
  obtain s' where run: "s' \<in> set (runs no_flags operator_re ?s)" and m: "m = mk_match ?s s'"
    using OPERATOR_compiled assms by (rule Match_runD)
  note run1 = run [unfolded operator_re_def runs_Bol_start]
  show thesis
  proof (rule runs_Seq_GrpE [OF run1])
    fix u t1
    assume u: "u \<in> set (runs no_flags operator_head ?s)" "mst_rest ?s = t1 @ mst_rest u"
        "map_of (mst_caps s') 1 = Some (mst_pos ?s, t1)"
      and run2: "s' \<in> set (runs no_flags (Seq (Grp 2 ?g2) (Seq (Grp 3 operator_args) Eol)) (set_group 1 ?s u))"
    show thesis
    proof (rule runs_Seq_GrpE [OF run2])
      fix w t2
      assume w: "w \<in> set (runs no_flags ?g2 (set_group 1 ?s u))" "mst_rest (set_group 1 ?s u) = t2 @ mst_rest w"
          "mst_pos w = mst_pos (set_group 1 ?s u) + length t2"
          "map_of (mst_caps s') 2 = Some (mst_pos (set_group 1 ?s u), t2)"
        and run3: "s' \<in> set (runs no_flags (Seq (Grp 3 operator_args) Eol) (set_group 2 (set_group 1 ?s u) w))"
      from runs_plus_progress [OF w(1)] w(3) obtain x xs where x: "t2 = x # xs" by (cases t2) auto
      have "not_word x"
        using operator_head_end [OF u(1)] w(2) x at_word_boundary_after [of u "CHR ''r''" x] word_r
        by (simp add: not_word_def)
      show thesis
      proof (rule runs_Seq_GrpE [OF run3])
        fix y t3
        assume "mst_rest (set_group 2 (set_group 1 ?s u) w) = t3 @ mst_rest y"
          "map_of (mst_caps s') 3 = Some (mst_pos (set_group 2 (set_group 1 ?s u) w), t3)"
        with u w x \<open>not_word x\<close> m show thesis by (intro that) (auto simp: grp_mk_match)
      qed simp
    qed (simp add: operator_args_def)
  qed (simp add: operator_args_def)
qed

lemma filter_not_word_underscores: "filter not_word (replicate n (CHR ''_'')) = []"
  using word_r by (simp add: not_word_def)

text \<open>Operator names become underscores, so fewer characters are outside words.\<close>

definition blank_operator :: "pymatch \<Rightarrow> string" where
  "blank_operator m = grp m 1 @ replicate (length (grp m 2)) (CHR ''_'') @ grp m 3"

lemma blank_operator_less:
  "Match OPERATOR_PATTERN line = Some m \<Longrightarrow> length (filter not_word (blank_operator m)) < length (filter not_word line)"
  using word_r by (elim operator_shape) (simp add: blank_operator_def filter_not_word_underscores not_word_def)

function operator_loop :: "string \<Rightarrow> string" where
  "operator_loop line =
     (case Match OPERATOR_PATTERN line of None \<Rightarrow> line | Some match \<Rightarrow> operator_loop (blank_operator match))"
  by pat_completeness auto

termination operator_loop
  by (relation "measure (\<lambda>line. length (filter not_word line))") (simp_all add: blank_operator_less)

declare operator_loop.simps [simp del]

definition assignment_reports :: "string \<Rightarrow> nat \<Rightarrow> report list" where
  \<open>assignment_reports line linenum =
     report_if ((is_found (rx ''[`w.]='') line \<or> is_found (rx ''=[`w.]'') line)
           \<and> \<not> is_found (rx ''`b(if|while|for) '') line
           \<and> \<not> is_found (rx ''(>=|<=|==|!=|&=|`^=|`|=|`+=|`*=|`/=|`%=)'') line
           \<and> \<not> is_found ''operator='' line)
       (report (int linenum) ''whitespace/operators'' 4 ''Missing spaces around ='')\<close>

text \<open>The comparison operators; the positions of the closing searches are those of the line with the
  operator names blanked.\<close>

definition comparison_reports :: "cleansed \<Rightarrow> nat \<Rightarrow> string \<Rightarrow> report list result" where
  \<open>comparison_reports c linenum line =
     (case Search (rx ''[^<>=!`s](==|!=|<=|>=|`|`|)[^<>=!`s,;`)]'') line of
        Some match \<Rightarrow>
          Inr [report (int linenum) ''whitespace/operators'' 3 (''Missing spaces around '' @ grp match 1)]
      | None \<Rightarrow>
          if is_match ''#.*include'' line then Inr []
          else
            bind_result
              (case Match (rx ''^(.*[^`s<])<[^`s=<,]'') line of
                 None \<Rightarrow> Inr []
               | Some match \<Rightarrow>
                   bind_result (CloseExpression c linenum (length (grp match 1))) (\<lambda>(l, n, end_pos).
                     Inr (report_if (end_pos \<le> -1)
                       (report (int linenum) ''whitespace/operators'' 3 ''Missing spaces around <'')))) (\<lambda>rs1.
            bind_result
              (case Match (rx ''^(.*[^-`s>])>[^`s=>,]'') line of
                 None \<Rightarrow> Inr []
               | Some match \<Rightarrow>
                   bind_result (ReverseCloseExpression c linenum (length (grp match 1))) (\<lambda>(l, n, start_pos).
                     Inr (report_if (start_pos \<le> -1)
                       (report (int linenum) ''whitespace/operators'' 3 ''Missing spaces around >'')))) (\<lambda>rs2.
            Inr (rs1 @ rs2))))\<close>

definition shift_reports :: "string \<Rightarrow> nat \<Rightarrow> report list" where
  \<open>shift_reports line linenum =
     (case Search (rx ''(operator|[^`s(<])(?:L|UL|LL|ULL|l|ul|ll|ull)?<<([^`s,=<])'') line of
        None \<Rightarrow> []
      | Some match \<Rightarrow>
          report_if (\<not> (py_isdigit (grp match 1) \<and> py_isdigit (grp match 2))
              \<and> \<not> (grp match 1 = ''operator'' \<and> grp match 2 = '';''))
            (report (int linenum) ''whitespace/operators'' 3 ''Missing spaces around <<'')) @
     report_if (is_found ''>>[a-zA-Z_]'' line)
       (report (int linenum) ''whitespace/operators'' 3 ''Missing spaces around >>'')\<close>

definition CheckOperatorSpacing :: "cleansed \<Rightarrow> nat \<Rightarrow> report list result" where
  \<open>CheckOperatorSpacing c linenum =
     with_elided c linenum (\<lambda>line.
       let line = operator_loop line in
       bind_result (comparison_reports c linenum line) (\<lambda>rs.
         Inr (assignment_reports line linenum @ rs @ shift_reports line linenum @
           (case Search (rx ''(!`s|~`s|[`s]--[`s;]|[`s]`+`+[`s;])'') line of
              None \<Rightarrow> []
            | Some match \<Rightarrow>
                [report (int linenum) ''whitespace/operators'' 4 (''Extra space for operator '' @ grp match 1)]))))\<close>

section \<open>Parentheses and commas\<close>

definition CONTROL_PARENS_PATTERN :: string where
  \<open>CONTROL_PARENS_PATTERN = rx ''`b(if|for|while|switch)`s*'' @ rx ''`(([ ]*)(.).*[^ ]+([ ]*)`)`s*{`s*$''\<close>

definition CheckParenthesisSpacing :: "cleansed \<Rightarrow> nat \<Rightarrow> report list result" where
  \<open>CheckParenthesisSpacing c linenum =
     with_elided c linenum (\<lambda>line.
       Inr ((case Search (rx '' (if`(|for`(|while`(|switch`()'') line of
               None \<Rightarrow> []
             | Some match \<Rightarrow>
                 [report (int linenum) ''whitespace/parens'' 5 (''Missing space before ( in '' @ grp match 1)]) @
            (case Search CONTROL_PARENS_PATTERN line of
               None \<Rightarrow> []
             | Some match \<Rightarrow>
                 let left = length (grp match 2); right = length (grp match 4) in
                 report_if (left \<noteq> right \<and>
                      \<not> ((grp match 3 = '';'' \<and> left = 1 + right) \<or>
                         (left = 0 \<and> is_found (rx ''`bfor`s*`(.*; `)'') line)))
                   (report (int linenum) ''whitespace/parens'' 5 (''Mismatching spaces inside () in '' @ grp match 1)) @
                 report_if (left \<notin> {0, 1})
                   (report (int linenum) ''whitespace/parens'' 5
                      (''Should have zero or one spaces inside ( and ) in '' @ grp match 1)))))\<close>

definition CheckCommaSpacing :: "cleansed \<Rightarrow> nat \<Rightarrow> report list result" where
  \<open>CheckCommaSpacing c linenum =
     with_elided c linenum (\<lambda>line.
       bind_result
         (if is_found (rx '',[^,`s]'') (ReplaceAll (rx ''`boperator`s*,`s*`('') ''F('' line)
          then with_line (cl_lines_without_raw_strings c) (int linenum) (\<lambda>raw. Inr (is_found (rx '',[^,`s]'') raw))
          else Inr False) (\<lambda>missing.
       Inr (report_if missing (report (int linenum) ''whitespace/comma'' 3 ''Missing space after ,'') @
            report_if (is_found (rx '';[^`s};``)/]'') line)
              (report (int linenum) ''whitespace/semicolon'' 3 ''Missing space after ;''))))\<close>

section \<open>Braces\<close>

definition typename_pattern :: "string \<Rightarrow> string" where
  \<open>typename_pattern token = rx ''`b(?:typename|class|struct)`s+'' @ re_escape token @ rx ''`b''\<close>

text \<open>The walk down from the innermost block; \<open>template\<close> is looked for from the line of the block
  back to that of the block around it.\<close>

fun declared_in_stack :: "string list \<Rightarrow> string \<Rightarrow> block list \<Rightarrow> bool result" where
  "declared_in_stack elided pattern [] = Inr False"
| "declared_in_stack elided pattern (b # bs) =
     (if is_namespace b then Inr False
      else
        (let last_line = starting_linenum b;
             next_block_start = (case bs of [] \<Rightarrow> 0 | b' # _ \<Rightarrow> starting_linenum b')
         in bind_result (scan_first (\<lambda>l. contains l ''template'') elided (rev [next_block_start..<Suc last_line]))
              (\<lambda>first. case first of
                 None \<Rightarrow> declared_in_stack elided pattern bs
               | Some first_line \<Rightarrow>
                   bind_result (scan_first (is_found pattern) elided [first_line..<Suc last_line]) (\<lambda>hit.
                     if hit \<noteq> None then Inr True else declared_in_stack elided pattern bs))))"

definition IsType :: "cleansed \<Rightarrow> nesting \<Rightarrow> string \<Rightarrow> bool result" where
  \<open>IsType c st expr =
     (let token = (case Match (rx ''^.*(`b`S+)$'') expr of Some last_word \<Rightarrow> grp last_word 1 | None \<Rightarrow> expr)
      in if is_match TYPES token then Inr True
         else declared_in_stack (cl_elided c) (typename_pattern token) (nst_stack st))\<close>

text \<open>The text after the closing brace, with up to two more lines.\<close>

definition trailing_text :: "cleansed \<Rightarrow> string \<times> nat \<times> int \<Rightarrow> string result" where
  "trailing_text c e =
     (case e of (endline, endlinenum, endpos) \<Rightarrow>
        bind_result (get_lines (cl_elided c) [endlinenum + 1..<min (endlinenum + 3) (NumLines c - 1)]) (\<lambda>rest.
          Inr ((if endpos > -1 then py_from endline endpos else []) @ concat rest)))"

definition brace_space_reports :: "cleansed \<Rightarrow> nat \<Rightarrow> nesting \<Rightarrow> string \<Rightarrow> report list result" where
  \<open>brace_space_reports c linenum st line =
     (case Match (rx ''^(.*[^ ({>]){'') line of
        None \<Rightarrow> Inr []
      | Some match \<Rightarrow>
          bind_result (CloseExpression c linenum (length (grp match 1))) (\<lambda>e.
          bind_result (trailing_text c e) (\<lambda>trailing.
            if is_match (rx ''^[`s}]*[{.;,)<>`]:]'') trailing then Inr []
            else bind_result (IsType c st (grp match 1)) (\<lambda>is_type.
              Inr (report_if (\<not> is_type)
                (report (int linenum) ''whitespace/braces'' 5 ''Missing space before {''))))))\<close>

definition semicolon_reports :: "string \<Rightarrow> nat \<Rightarrow> report list" where
  \<open>semicolon_reports line linenum =
     (if is_found (rx '':`s*;`s*$'') line then
        [report (int linenum) ''whitespace/semicolon'' 5 ''Semicolon defining empty statement. Use {} instead.'']
      else if is_found (rx ''^`s*;`s*$'') line then
        [report (int linenum) ''whitespace/semicolon'' 5
           (''Line contains only semicolon. If this should be an empty statement, '' @ ''use {} instead.'')]
      else report_if (is_found (rx ''`s+;`s*$'') line \<and> \<not> is_found (rx ''`bfor`b'') line)
        (report (int linenum) ''whitespace/semicolon'' 5
           (''Extra space before last semicolon. If this should be an empty '' @ ''statement, use {} instead.'')))\<close>

definition CheckBracesSpacing :: "cleansed \<Rightarrow> nat \<Rightarrow> nesting \<Rightarrow> report list result" where
  \<open>CheckBracesSpacing c linenum st =
     with_elided c linenum (\<lambda>line.
       bind_result (brace_space_reports c linenum st line) (\<lambda>rs.
         Inr (rs @
           report_if (is_found ''}else'' line)
             (report (int linenum) ''whitespace/braces'' 5 ''Missing space before else'') @
           semicolon_reports line linenum)))\<close>

definition IsDecltype :: "cleansed \<Rightarrow> nat \<Rightarrow> nat \<Rightarrow> bool result" where
  \<open>IsDecltype c linenum column =
     bind_result (ReverseCloseExpression c linenum column) (\<lambda>(txt, n, start_col).
       Inr (start_col \<ge> 0 \<and> is_found (rx ''`bdecltype`s*$'') (py_upto txt start_col)))\<close>

section \<open>Sections of a class\<close>

definition CheckSectionSpacing :: "cleansed \<Rightarrow> block \<Rightarrow> class_info \<Rightarrow> nat \<Rightarrow> report list result" where
  \<open>CheckSectionSpacing c b ci linenum =
     (if int (last_line ci) - int (starting_linenum b) \<le> 24 \<or> linenum \<le> starting_linenum b then Inr []
      else
        with_line (cl_lines c) (int linenum) (\<lambda>line.
          case Match (rx ''`s*(public|protected|private):'') line of
            None \<Rightarrow> Inr []
          | Some matched \<Rightarrow>
              with_line (cl_lines c) (int linenum - 1) (\<lambda>prev_line.
                if IsBlankLine prev_line \<or> is_found (rx ''`b(class|struct)`b'') prev_line
                   \<or> is_found (rx ''``$'') prev_line
                then Inr []
                else
                  bind_result (scan_first (is_found (rx ''`{`s*$'')) (cl_lines c) [starting_linenum b..<linenum]) (\<lambda>i.
                    let end_class_head = (case i of None \<Rightarrow> starting_linenum b | Some i \<Rightarrow> i) in
                    Inr (report_if (int end_class_head < int linenum - 1)
                      (report (int linenum) ''whitespace/blank_line'' 3
                         (''"'' @ grp matched 1 @ '':" should be preceded by a blank line'')))))))\<close>

text \<open>The last line above line \<open>k\<close> that is not blank, and its number.\<close>

fun previous_nonblank :: "string list \<Rightarrow> nat \<Rightarrow> (string \<times> int) result" where
  "previous_nonblank elided 0 = Inr ([], -1)"
| "previous_nonblank elided (Suc k) =
     with_line elided (int k) (\<lambda>prevline.
       if \<not> IsBlankLine prevline then Inr (prevline, int k) else previous_nonblank elided k)"

definition GetPreviousNonBlankLine :: "cleansed \<Rightarrow> nat \<Rightarrow> (string \<times> int) result" where
  "GetPreviousNonBlankLine c linenum = previous_nonblank (cl_elided c) linenum"

end
