(* ===== verification/Constructs.thy ===== *)
theory Constructs
  imports Spacing FunctionState
begin

text \<open>
  Checks of constructs: non-standard constructs and constructors, lengths of functions, indentation
  in namespaces, \<open>make_pair\<close>, redundant \<open>virtual\<close>, \<open>override\<close> and \<open>final\<close>, and features of C++11 and
  C++14.
\<close>

section \<open>Non-standard constructs\<close>

definition string_reports :: "string \<Rightarrow> nat \<Rightarrow> report list" where
  \<open>string_reports line linenum =
     report_if (is_found (rx ''printf`s*`(.*".*%[-+ ]?`d*q'') line)
       (report (int linenum) ''runtime/printf_format'' 3 ''%q in format strings is deprecated.  Use %ll instead.'') @
     report_if (is_found (rx ''printf`s*`(.*".*%`d+`$'') line)
       (report (int linenum) ''runtime/printf_format'' 2
          ''%N$ formats are unconventional.  Try rewriting to avoid them.'') @
     report_if (is_found (rx ''("|\').*``(%|`[|`(|{)'') (py_replace line double_backslash []))
       (report (int linenum) ''build/printf_format'' 3
          ''%, [, (, and { are undefined character escapes.  Unescape them.'')\<close>

definition STORAGE_CLASS_PATTERN :: string where
  \<open>STORAGE_CLASS_PATTERN = rx ''`b(const|volatile|void|char|short|int|long'' @
     ''|float|double|signed|unsigned'' @ ''|schar|u?int8|u?int16|u?int32|u?int64)'' @
     rx ''`s+(register|static|extern|typedef)`b''\<close>

definition MIN_MAX_PATTERN :: string where
  \<open>MIN_MAX_PATTERN = rx ''(`w+|[+-]?`d+(`.`d*)?)`s*(<|>)`?=?`s*(`w+|[+-]?`d+)(`.`d*)?''\<close>

definition declaration_reports :: "string \<Rightarrow> nat \<Rightarrow> report list" where
  \<open>declaration_reports line linenum =
     report_if (is_found STORAGE_CLASS_PATTERN line)
       (report (int linenum) ''build/storage_class'' 5
          (''Storage-class specifier (static, extern, typedef, etc) should be '' @ ''at the beginning of the declaration.'')) @
     report_if (is_match (rx ''`s*#`s*endif`s*[^/`s]+'') line)
       (report (int linenum) ''build/endif_comment'' 5 ''Uncommented text after #endif is non-standard.  Use a comment.'') @
     report_if (is_match (rx ''`s*class`s+(`w+`s*::`s*)+`w+`s*;'') line)
       (report (int linenum) ''build/forward_decl'' 5 ''Inner-style forward declarations are invalid.  Remove this line.'') @
     report_if (is_found MIN_MAX_PATTERN line)
       (report (int linenum) ''build/deprecated'' 3
          ''>? and <? (max and min) operators are non-standard and deprecated.'') @
     report_if (is_found (rx ''^`s*const`s*string`s*&`s*`w+`s*;'') line)
       (report (int linenum) ''runtime/member_string_references'' 2
          (''const string& members are dangerous. It is much better to use '' @
           ''alternatives, such as pointers or simple constants.''))\<close>

section \<open>Constructors\<close>

text \<open>\<open>s.split(sep)\<close> for a separator that is not empty.\<close>

function split_str :: "string \<Rightarrow> string \<Rightarrow> string list" where
  "split_str sep s =
     (if sep = [] then [s]
      else (case find_str sep s of
              None \<Rightarrow> [s]
            | Some n \<Rightarrow> take n s # split_str sep (drop (n + length sep) s)))"
  by pat_completeness auto

termination split_str
proof (relation "measure (\<lambda>(sep, s). length s)", goal_cases)
  case (2 sep s n)
  with find_str_Some [of sep s n] have "sep \<noteq> []" "n + length sep \<le> length s" by auto
  then have "length s - (n + length sep) < length s" by (cases sep) auto
  then show ?case by simp
qed simp

declare split_str.simps [simp del]

text \<open>Arguments split inside angle brackets or parentheses are joined again.\<close>

definition unclosed :: "string \<Rightarrow> bool" where
  "unclosed arg \<longleftrightarrow> py_count arg ''<'' > py_count arg ''>'' \<or> py_count arg ''('' > py_count arg '')''"

function collapse_args :: "string list \<Rightarrow> string list result" where
  "collapse_args [] = Inr []"
| "collapse_args (arg # args) =
     (if unclosed arg then
        (case args of
           [] \<Rightarrow> Inl IndexError
         | next_arg # rest \<Rightarrow> collapse_args ((arg @ '','' @ next_arg) # rest))
      else bind_result (collapse_args args) (\<lambda>r. Inr (arg # r)))"
  by pat_completeness auto

termination collapse_args by (relation "measure length") auto

definition CONSTRUCTOR_PATTERN :: "string \<Rightarrow> string" where
  \<open>CONSTRUCTOR_PATTERN name = rx ''`s+(?:(?:inline|constexpr)`s+)*(explicit`s+)?'' @
     rx ''(?:(?:inline|constexpr)`s+)*'' @ re_escape name @ rx ''`s*'' @ rx ''`(((?:[^()]|`([^()]*`))*)`)''\<close>

definition COPY_PATTERN :: "string \<Rightarrow> string" where
  \<open>COPY_PATTERN name = rx ''(const`s+)?'' @ re_escape name @ rx ''(`s*<[^>]*>)?(`s+const)?`s*(?:<`w+>`s*)?&''\<close>

definition constructor_reports :: "string \<Rightarrow> bool \<Rightarrow> string list \<Rightarrow> nat \<Rightarrow> report list" where
  \<open>constructor_reports base_classname is_marked_explicit args linenum =
     (let variadic_args = filter (\<lambda>arg. contains arg ''&&...'') args;
          defaulted_args = filter (\<lambda>arg. contains arg ''='') args;
          noarg_constructor = (args = [] \<or> (length args = 1 \<and> py_strip (hd args) = ''void''));
          onearg_constructor =
            ((length args = 1 \<and> \<not> noarg_constructor) \<or>
             (length args \<ge> 1 \<and> \<not> noarg_constructor \<and> int (length defaulted_args) \<ge> int (length args) - 1) \<or>
             (length args \<le> 2 \<and> length variadic_args \<ge> 1));
          initializer_list_constructor =
            (onearg_constructor \<and> is_found (rx ''`bstd`s*::`s*initializer_list`b'') (hd args));
          copy_constructor = (onearg_constructor \<and> is_match (COPY_PATTERN base_classname) (py_strip (hd args)))
      in if \<not> is_marked_explicit \<and> onearg_constructor \<and> \<not> initializer_list_constructor \<and> \<not> copy_constructor then
           [report (int linenum) ''runtime/explicit'' 5
              (if defaulted_args \<noteq> [] \<or> variadic_args \<noteq> []
               then ''Constructors callable with one argument should be marked explicit.''
               else ''Single-parameter constructors should be marked explicit.'')]
         else
           report_if (is_marked_explicit \<and> \<not> onearg_constructor \<and> noarg_constructor)
             (report (int linenum) ''runtime/explicit'' 5 ''Zero-parameter constructors should not be marked explicit.''))\<close>

definition CheckForNonStandardConstructs :: "cleansed \<Rightarrow> nat \<Rightarrow> nesting \<Rightarrow> report list result" where
  \<open>CheckForNonStandardConstructs c linenum st =
     with_line (cl_lines c) (int linenum) (\<lambda>full_line.
     with_elided c linenum (\<lambda>line.
       let rs = string_reports full_line linenum @ declaration_reports line linenum in
       case InnermostClass st of
         None \<Rightarrow> Inr rs
       | Some classinfo \<Rightarrow>
           (case blk_kind classinfo of
              ClassBlock ci \<Rightarrow>
                if \<not> seen_open_brace classinfo then Inr rs
                else
                  (let base_classname = last (split_str ''::'' (ci_name ci)) in
                   case Match (CONSTRUCTOR_PATTERN base_classname) line of
                     None \<Rightarrow> Inr rs
                   | Some m \<Rightarrow>
                       bind_result (if grp m 2 = [] then Inr [] else collapse_args (split_on (CHR '','') (grp m 2))) (\<lambda>args.
                         Inr (rs @ constructor_reports base_classname (grp m 1 \<noteq> []) args linenum)))
            | _ \<Rightarrow> Inr rs)))\<close>

section \<open>Lengths of functions\<close>

text \<open>The start of the body: \<open>None\<close> when no line ends the search, \<open>Some None\<close> for a declaration or a
  function of one line, and otherwise the lines up to the brace, joined.\<close>

fun find_body :: "string list \<Rightarrow> string \<Rightarrow> string option option" where
  "find_body [] joined_line = None"
| "find_body (start_line # lines) joined_line =
     (let joined_line = joined_line @ '' '' @ py_lstrip start_line in
      if is_found ''(;|})'' start_line then Some None
      else if is_found ''{'' start_line then Some (Some joined_line)
      else find_body lines joined_line)"

definition function_title :: "string \<Rightarrow> string \<Rightarrow> string result" where
  \<open>function_title line joined_line =
     (case Search (rx ''((`w|:)*)`('') line of
        None \<Rightarrow> Inl AttributeError
      | Some m \<Rightarrow>
          (let fn = grp m 1 in
           if is_match ''TEST'' fn
           then Inr (case Search (rx ''(`(.*`))'') joined_line of
                       Some parameters \<Rightarrow> fn @ grp parameters 1 | None \<Rightarrow> fn)
           else Inr (fn @ ''()'')))\<close>

definition starts_function :: "string \<Rightarrow> bool" where
  \<open>starts_function line \<longleftrightarrow>
     (case Match (rx ''(`w(`w|::|`*|`&|`s)*)`('') line of
        None \<Rightarrow> False
      | Some m \<Rightarrow>
          (let function_name = last (py_words (grp m 1)) in
           function_name = ''TEST'' \<or> function_name = ''TEST_F'' \<or> \<not> is_match ''[A-Z_]+$'' function_name))\<close>

definition CheckForFunctionLengths :: "int \<Rightarrow> cleansed \<Rightarrow> nat \<Rightarrow> function_state \<Rightarrow> (report list \<times> function_state) result" where
  \<open>CheckForFunctionLengths level c linenum fs =
     with_line (cl_lines c) (int linenum) (\<lambda>line.
       if starts_function line then
         (case find_body (drop linenum (take (NumLines c) (cl_lines c))) [] of
            None \<Rightarrow> Inr ([report (int linenum) ''readability/fn_size'' 5
                           ''Lint failed to find start of function body.''], fs)
          | Some None \<Rightarrow> Inr ([], fs)
          | Some (Some joined_line) \<Rightarrow>
              bind_result (function_title line joined_line) (\<lambda>fn. Inr ([], Begin fn fs)))
       else if is_match (rx ''^`}`s*$'') line then Inr (Check (int linenum) level fs, End_function fs)
       else if \<not> is_match (rx ''^`s*$'') line then Inr ([], Count fs)
       else Inr ([], fs))\<close>

section \<open>Indentation in namespaces\<close>

definition IsBlockInNameSpace :: "nesting \<Rightarrow> bool \<Rightarrow> bool" where
  "IsBlockInNameSpace st is_forward_declaration \<longleftrightarrow>
     (if is_forward_declaration then nst_stack st \<noteq> [] \<and> is_namespace (hd (nst_stack st))
      else (case nst_stack st of
              b # b' # bs \<Rightarrow> check_namespace_indentation b \<and> is_namespace b'
            | _ \<Rightarrow> False))"

definition ShouldCheckNamespaceIndentation :: "nesting \<Rightarrow> bool \<Rightarrow> string list \<Rightarrow> nat \<Rightarrow> bool result" where
  "ShouldCheckNamespaceIndentation st is_namespace_indent_item raw_lines_no_comments linenum =
     bind_result (IsForwardClassDeclaration raw_lines_no_comments linenum) (\<lambda>m.
       let is_forward_declaration = m \<noteq> None in
       if \<not> (is_namespace_indent_item \<or> is_forward_declaration) then Inr False
       else bind_result (IsMacroDefinition raw_lines_no_comments linenum) (\<lambda>in_macro.
         Inr (\<not> in_macro \<and> IsBlockInNameSpace st is_forward_declaration)))"

definition CheckItemIndentationInNamespace :: "string list \<Rightarrow> nat \<Rightarrow> report list result" where
  \<open>CheckItemIndentationInNamespace raw_lines_no_comments linenum =
     with_line raw_lines_no_comments (int linenum) (\<lambda>line.
       Inr (report_if (is_match (rx ''^`s+'') line)
         (report (int linenum) ''runtime/indentation_namespace'' 4 ''Do not indent within a namespace'')))\<close>

text \<open>Blocks are the same object when they have the same identity.\<close>

definition namespace_indent_item :: "nesting \<Rightarrow> bool" where
  "namespace_indent_item st \<longleftrightarrow>
     (case (nst_stack st, previous_stack_top st) of
        (b # b' # bs, Some p) \<Rightarrow> check_namespace_indentation b \<and> is_namespace p \<and> blk_id p = blk_id b'
      | _ \<Rightarrow> False)"

definition CheckForNamespaceIndentation :: "nesting \<Rightarrow> cleansed \<Rightarrow> nat \<Rightarrow> report list result" where
  "CheckForNamespaceIndentation st c line =
     bind_result (ShouldCheckNamespaceIndentation st (namespace_indent_item st) (cl_elided c) line) (\<lambda>check.
       if check then CheckItemIndentationInNamespace (cl_elided c) line else Inr [])"

section \<open>Redundant specifiers and new features\<close>

definition CheckMakePairUsesDeduction :: "cleansed \<Rightarrow> nat \<Rightarrow> report list result" where
  \<open>CheckMakePairUsesDeduction c linenum =
     with_elided c linenum (\<lambda>line.
       Inr (report_if (is_found (rx ''`bmake_pair`s*<'') line)
         (report (int linenum) ''build/explicit_make_pair'' 4
            (''For C++11-compatibility, omit template arguments from make_pair'' @
             '' OR use pair directly OR if appropriate, construct a pair directly''))))\<close>

text \<open>The end of the parameter list; a column of \<open>-1\<close> when there is none.\<close>

fun parameter_end :: "cleansed \<Rightarrow> nat \<Rightarrow> nat list \<Rightarrow> (nat \<times> int) result" where
  \<open>parameter_end c start_col [] = Inr (0, -1)\<close>
| \<open>parameter_end c start_col (start_line # lines) =
     with_elided c start_line (\<lambda>line.
       case Match (rx ''^([^(]*)`('') (drop start_col line) of
         Some parameter_list \<Rightarrow>
           bind_result (CloseExpression c start_line (start_col + length (grp parameter_list 1))) (\<lambda>(l, end_line, end_col).
             Inr (end_line, end_col))
       | None \<Rightarrow> parameter_end c 0 lines)\<close>

fun redundant_virtual :: "cleansed \<Rightarrow> nat \<Rightarrow> nat \<Rightarrow> nat list \<Rightarrow> report list result" where
  \<open>redundant_virtual c linenum end_col [] = Inr []\<close>
| \<open>redundant_virtual c linenum end_col (i # is) =
     with_elided c i (\<lambda>full_line.
       let line = drop end_col full_line;
           rs = (case Search (rx ''`b(override|final)`b'') line of
                   None \<Rightarrow> []
                 | Some match \<Rightarrow>
                     [report (int linenum) ''readability/inheritance'' 4
                        (''"virtual" is redundant since function is '' @ ''already declared as "'' @ grp match 1 @ ''"'')])
       in if is_found (rx ''[^`w]`s*$'') line then Inr rs
          else bind_result (redundant_virtual c linenum 0 is) (\<lambda>rs'. Inr (rs @ rs')))\<close>

definition CheckRedundantVirtual :: "cleansed \<Rightarrow> nat \<Rightarrow> report list result" where
  \<open>CheckRedundantVirtual c linenum =
     with_elided c linenum (\<lambda>line.
       case Match (rx ''^(.*)(`bvirtual`b)(.*)$'') line of
         None \<Rightarrow> Inr []
       | Some virtual \<Rightarrow>
           if is_found (rx ''`b(public|protected|private)`s+$'') (grp virtual 1)
              \<or> is_match (rx ''^`s+(public|protected|private)`b'') (grp virtual 3)
              \<or> is_match ''^.*[^:]:[^:].*$'' line
           then Inr []
           else
             bind_result (parameter_end c (length (grp virtual 2)) [linenum..<min (linenum + 3) (NumLines c)])
               (\<lambda>(end_line, end_col).
                 if end_col < 0 then Inr []
                 else redundant_virtual c linenum (nat end_col) [end_line..<min (end_line + 3) (NumLines c)]))\<close>

definition CheckRedundantOverrideOrFinal :: "cleansed \<Rightarrow> nat \<Rightarrow> report list result" where
  \<open>CheckRedundantOverrideOrFinal c linenum =
     with_elided c linenum (\<lambda>line.
       let declarator_end = py_rfind line (CHR '')'') in
       bind_result
         (if declarator_end \<ge> 0 then Inr (Some (py_from line declarator_end))
          else if linenum > 1 then
            with_line (cl_elided c) (int linenum - 1) (\<lambda>previous.
              Inr (if py_rfind previous (CHR '')'') \<ge> 0 then Some line else None))
          else Inr None) (\<lambda>fragment.
       case fragment of
         None \<Rightarrow> Inr []
       | Some fragment \<Rightarrow>
           Inr (report_if (is_found (rx ''`boverride`b'') fragment \<and> is_found (rx ''`bfinal`b'') fragment)
             (report (int linenum) ''readability/inheritance'' 4
                (''"override" is redundant since function is '' @ ''already declared as "final"'')))))\<close>

definition INCLUDE_NAME_PATTERN :: string where
  \<open>INCLUDE_NAME_PATTERN = rx ''`s*#`s*include`s+[<"]([^<"]+)[">]''\<close>

definition included_name :: "string \<Rightarrow> string option" where
  "included_name line = map_option (\<lambda>m. grp m 1) (Match INCLUDE_NAME_PATTERN line)"

definition CXX11_HEADERS :: "string list" where
  "CXX11_HEADERS = [''cfenv'', ''condition_variable'', ''fenv.h'', ''future'', ''mutex'', ''thread'',
     ''chrono'', ''ratio'', ''regex'', ''system_error'']"

definition FlagCxx11Features :: "cleansed \<Rightarrow> nat \<Rightarrow> report list result" where
  \<open>FlagCxx11Features c linenum =
     with_elided c linenum (\<lambda>line.
       Inr ((case included_name line of
               None \<Rightarrow> []
             | Some name \<Rightarrow>
                 report_if (startswith name ''tr1/'')
                   (report (int linenum) ''build/c++tr1'' 5
                      (''C++ TR1 headers such as <'' @ name @ ''> are unapproved.'')) @
                 report_if (name \<in> set CXX11_HEADERS)
                   (report (int linenum) ''build/c++11'' 5 (''<'' @ name @ ''> is an unapproved C++11 header.''))) @
            (if is_match (rx ''`s*#'') line \<and> \<not> is_match (rx ''`s*#`s*define`b'') line then []
             else concat (map (\<lambda>top_name.
               report_if (is_found (rx ''`bstd::'' @ top_name @ rx ''`b'') line)
                 (report (int linenum) ''build/c++11'' 5
                    (''std::'' @ top_name @ '' is an unapproved C++11 class or function.  Send c-style '' @
                     ''an example of where it would make your code more readable, and '' @ ''they may let you use it.'')))
               [''alignment_of'', ''aligned_union'']))))\<close>

definition FlagCxx14Features :: "cleansed \<Rightarrow> nat \<Rightarrow> report list result" where
  \<open>FlagCxx14Features c linenum =
     with_elided c linenum (\<lambda>line.
       Inr (case included_name line of
              None \<Rightarrow> []
            | Some name \<Rightarrow>
                report_if (name \<in> {''scoped_allocator'', ''shared_mutex''})
                  (report (int linenum) ''build/c++14'' 5 (''<'' @ name @ ''> is an unapproved C++14 header.''))))\<close>

section \<open>Arguments that cannot be joined\<close>

lemma unclosed_cons:
  "\<not> unclosed x \<Longrightarrow> unclosed (x @ '','' @ y) \<Longrightarrow> unclosed y"
  by (auto simp: unclosed_def py_count_single)

lemma collapse_args_spec:
  "as \<noteq> [] \<Longrightarrow>
     (case collapse_args as of
        Inl e \<Rightarrow> e = IndexError
      | Inr r \<Rightarrow> join_with '','' r = join_with '','' as \<and> r \<noteq> [] \<and> list_all (\<lambda>a. \<not> unclosed a) r
          \<and> \<not> unclosed (join_with '','' as))"
proof (induction as rule: collapse_args.induct)
  case (2 arg args)
  show ?case
  proof (cases "unclosed arg")
    case True
    show ?thesis
    proof (cases args)
      case (Cons n rest)
      then have "join_with '','' ((arg @ '','' @ n) # rest) = join_with '','' (arg # args)" by (cases rest) auto
      moreover have "collapse_args (arg # args) = collapse_args ((arg @ '','' @ n) # rest)"
        using True Cons by simp
      ultimately show ?thesis using 2(1) [OF True Cons] by (simp only: list.distinct simp_thms if_True)
    qed (simp add: True)
  next
    case False
    show ?thesis
    proof (cases "args = []")
      case True
      with False show ?thesis by simp
    next
      case ne: False
      then have j: "join_with '','' (arg # as') = arg @ '','' @ join_with '','' as'" if "as' \<noteq> []" for as'
        using that by (cases as') auto
      from 2(2) [OF False ne] show ?thesis
        using False ne unclosed_cons [OF False, of "join_with '','' args"]
        by (auto simp: j split: sum.splits simp del: join_with.simps(3) append_Cons)
    qed
  qed
qed simp

text \<open>The list is joined to one whose members are closed; when that is not possible, the loop runs
  past the end of the list.\<close>

lemma collapse_args_outcome:
  "case collapse_args (split_on (CHR '','') a) of
     Inl e \<Rightarrow> e = IndexError
   | Inr r \<Rightarrow> join_with '','' r = a \<and> list_all (\<lambda>x. \<not> unclosed x) r \<and> \<not> unclosed a"
  using collapse_args_spec [of "split_on (CHR '','') a"]
  by (auto simp: join_split split: sum.splits)

lemma collapse_args_unclosed: "unclosed a \<Longrightarrow> collapse_args (split_on (CHR '','') a) = Inl IndexError"
  using collapse_args_outcome [of a] by (auto split: sum.splits)

section \<open>Properties\<close>

text \<open>C18. Inside a class, a constructor whose arguments contain more \<open><\<close> than \<open>>\<close>, as a comparison in
  a default argument does, makes the check of constructors fail with an IndexError.\<close>

theorem unclosed_arguments_raise:
  assumes "InnermostClass st = Some b" and "blk_kind b = ClassBlock ci" and "seen_open_brace b"
    and "linenum < length (cl_lines c)" and "linenum < length (cl_elided c)"
    and "Match (CONSTRUCTOR_PATTERN (last (split_str ''::'' (ci_name ci)))) (cl_elided c ! linenum) = Some m"
    and "unclosed (grp m 2)"
  shows "CheckForNonStandardConstructs c linenum st = Inl IndexError"
proof -
  have "grp m 2 \<noteq> []" using assms(7) by (auto simp: unclosed_def py_count_def)
  then show ?thesis
    using assms collapse_args_unclosed [OF assms(7)]
    by (simp add: CheckForNonStandardConstructs_def with_line_def with_elided_def Let_def)
qed

definition class_line :: string where
  "class_line = ''  explicit Foo(bool b = 1 < 2);''"

definition class_head :: class_info where
  "class_head = \<lparr>ci_name = ''Foo'', is_derived = False, access = ''private'', is_struct = False, class_indent = 0, last_line = 2\<rparr>"

definition class_state :: nesting where
  "class_state =
     push_block (\<lambda>i. (BlockInfo_init i 0 True)\<lparr>blk_kind := ClassBlock class_head\<rparr>) NestingState_init"

definition class_file :: cleansed where
  "class_file = \<lparr>cl_elided = [''class Foo {'', class_line], cl_lines = [''class Foo {'', class_line],
     cl_raw_lines = [''class Foo {'', class_line], cl_num_lines = 2, cl_lines_without_raw_strings = []\<rparr>"

lemma class_line_match:
  "\<exists>m. Match (CONSTRUCTOR_PATTERN ''Foo'') class_line = Some m \<and> unclosed (grp m 2)"
proof -
  have "(case Match (CONSTRUCTOR_PATTERN ''Foo'') class_line of None \<Rightarrow> False | Some m \<Rightarrow> unclosed (grp m 2))"
    by code_simp
  then show ?thesis by (auto split: option.splits)
qed

theorem unclosed_arguments_raise_witness:
  "CheckForNonStandardConstructs class_file 1 class_state = Inl IndexError"
proof -
  obtain m where m: "Match (CONSTRUCTOR_PATTERN ''Foo'') class_line = Some m" "unclosed (grp m 2)"
    using class_line_match by blast
  have n: "split_str ''::'' ''Foo'' = [''Foo'']" by code_simp
  have i: "InnermostClass class_state = Some (hd (nst_stack class_state))"
    "blk_kind (hd (nst_stack class_state)) = ClassBlock class_head" "seen_open_brace (hd (nst_stack class_state))"
    by (simp_all add: class_state_def push_block_def InnermostClass_def is_class_def NestingState_init_def BlockInfo_init_def)
  show ?thesis
    by (rule unclosed_arguments_raise [OF i _ _ _ m(2)]) (simp_all add: class_file_def class_head_def n m(1))
qed

end
