(* ===== verification/Paths.thy ===== *)
theory Paths
  imports LintState "HOL-Library.Sublist"
begin

text \<open>
  File names: the functions of \<open>os.path\<close> (the POSIX version, part of Python's library) that the
  sources call, \<open>PathSplitToList\<close>, the class \<open>FileInfo\<close>, the extension options and
  \<open>GetHeaderGuardCPPVariable\<close>. The file system is a parameter, the record \<open>fsys\<close>: which paths exist
  and what the working directory is. The search of \<open>RepositoryName\<close> for the top of an SVN checkout
  may not end, so it and all that calls it return an option, with \<open>None\<close> for not returning.
\<close>

record fsys =
  path_exists :: "string \<Rightarrow> bool"
  getcwd :: string

section \<open>The functions of the path module\<close>

definition path_split :: "string \<Rightarrow> string \<times> string" where
  "path_split p =
     (let i = (case rfind_char (CHR ''/'') p of None \<Rightarrow> 0 | Some n \<Rightarrow> Suc n);
          head = take i p; tail = drop i p
      in (if list_all (\<lambda>c. c = CHR ''/'') head then head else rstrip_char (CHR ''/'') head, tail))"

definition path_dirname :: "string \<Rightarrow> string" where
  "path_dirname p = fst (path_split p)"

definition path_basename :: "string \<Rightarrow> string" where
  "path_basename p = snd (path_split p)"

definition path_splitext :: "string \<Rightarrow> string \<times> string" where
  "path_splitext p =
     (let sep = py_rfind p (CHR ''/''); dot = py_rfind p (CHR ''.'') in
      if dot > sep \<and> list_ex (\<lambda>c. c \<noteq> CHR ''.'') (py_slice p (sep + 1) dot)
      then (py_upto p dot, py_from p dot) else (p, []))"

definition path_isabs :: "string \<Rightarrow> bool" where
  "path_isabs p \<longleftrightarrow> startswith p ''/''"

definition path_join :: "string \<Rightarrow> string \<Rightarrow> string" where
  "path_join a b =
     (if path_isabs b then b
      else if a = [] \<or> endswith a ''/'' then a @ b
      else a @ ''/'' @ b)"

text \<open>\<open>os.path.join(*components)\<close> of a non-empty list.\<close>

definition path_join_all :: "string list \<Rightarrow> string" where
  "path_join_all cs = foldl path_join (hd cs) (tl cs)"

definition norm_step :: "bool \<Rightarrow> string \<Rightarrow> string list \<Rightarrow> string list" where
  \<comment> \<open>the new components with the last one at the head\<close>
  "norm_step absolute part new =
     (if part = [] \<or> part = ''.'' then new
      else if part \<noteq> ''..'' \<or> (\<not> absolute \<and> new = []) \<or> (new \<noteq> [] \<and> hd new = ''..'')
      then part # new
      else if new \<noteq> [] then tl new else new)"

definition path_normpath :: "string \<Rightarrow> string" where
  "path_normpath p =
     (if p = [] then ''.''
      else
        (let slashes = (if \<not> startswith p ''/'' then 0
                        else if startswith p ''//'' \<and> \<not> startswith p ''///'' then 2 else 1);
             comps = rev (fold (norm_step (slashes > 0)) (split_on (CHR ''/'') p) []);
             r = replicate slashes (CHR ''/'') @ join_with ''/'' comps
         in if r = [] then ''.'' else r))"

definition path_abspath :: "fsys \<Rightarrow> string \<Rightarrow> string" where
  "path_abspath fs p = path_normpath (if path_isabs p then p else path_join (getcwd fs) p)"

fun common_prefix :: "'a list \<Rightarrow> 'a list \<Rightarrow> 'a list" where
  "common_prefix (x # xs) (y # ys) = (if x = y then x # common_prefix xs ys else [])"
| "common_prefix xs ys = []"

definition path_parts :: "string \<Rightarrow> string list" where
  "path_parts p = filter (\<lambda>x. x \<noteq> []) (split_on (CHR ''/'') p)"

definition path_relpath :: "fsys \<Rightarrow> string \<Rightarrow> string \<Rightarrow> string" where
  "path_relpath fs p start =
     (let start_list = path_parts (path_abspath fs start); path_list = path_parts (path_abspath fs p);
          i = length (common_prefix start_list path_list);
          rel_list = replicate (length start_list - i) ''..'' @ drop i path_list
      in if rel_list = [] then ''.'' else path_join_all rel_list)"

section \<open>Going up\<close>

lemma rstrip_char_prefix: "prefix (rstrip_char x s) s"
proof -
  have "s = rev (takeWhile (\<lambda>c. c = x) (rev s) @ dropWhile (\<lambda>c. c = x) (rev s))" by simp
  then have "s = rstrip_char x s @ rev (takeWhile (\<lambda>c. c = x) (rev s))"
    unfolding rstrip_char_def by (metis rev_append)
  then show ?thesis by (rule prefixI)
qed

lemma dirname_prefix: "prefix (path_dirname p) p"
proof -
  have "prefix (rstrip_char x (take i p)) p" for x i
    by (rule prefix_order.trans [OF rstrip_char_prefix take_is_prefix])
  then show ?thesis by (auto simp: path_dirname_def path_split_def Let_def take_is_prefix)
qed

lemma dirname_shorter: "path_dirname p \<noteq> p \<Longrightarrow> length (path_dirname p) < length p"
  using dirname_prefix [of p] by (metis prefix_length_less prefix_order.less_le)

section \<open>PathSplitToList\<close>

text \<open>The list the loop builds, before it is reversed.\<close>

function path_split_loop :: "string \<Rightarrow> string list" where
  "path_split_loop path =
     (let (head, tail) = path_split path in
      if head = path then [head]
      else if tail = path then [tail]
      else tail # path_split_loop head)"
  by pat_completeness auto

termination path_split_loop
proof (relation "measure length", goal_cases)
  case (2 path x head tail)
  then have "head = path_dirname path" by (metis path_dirname_def fst_conv)
  with 2 dirname_shorter [of path] show ?case by simp
qed simp

declare path_split_loop.simps [simp del]

definition PathSplitToList :: "string \<Rightarrow> string list" where
  "PathSplitToList path = rev (path_split_loop path)"

section \<open>Extensions\<close>

definition default_header_extensions :: "string list" where
  "default_header_extensions = [''h'', ''hh'', ''hpp'', ''hxx'', ''h++'', ''cuh'']"

definition default_source_extensions :: "string list" where
  "default_source_extensions = [''c'', ''cc'', ''cpp'', ''cxx'', ''c++'', ''cu'']"

definition ProcessHppHeadersOption :: "string \<Rightarrow> lint \<Rightarrow> lint" where
  "ProcessHppHeadersOption val s = s\<lparr>hpp_headers := remdups (map py_strip (split_on (CHR '','') val))\<rparr>"

definition GetHeaderExtensions :: "lint \<Rightarrow> string list" where
  "GetHeaderExtensions s =
     (if hpp_headers s \<noteq> [] then hpp_headers s
      else if valid_extensions s \<noteq> [] then filter (\<lambda>h. CHR ''h'' \<in> set h) (valid_extensions s)
      else default_header_extensions)"

definition IsHeaderExtension :: "lint \<Rightarrow> string \<Rightarrow> bool" where
  "IsHeaderExtension s file_extension \<longleftrightarrow> file_extension \<in> set (GetHeaderExtensions s)"

definition GetAllExtensions :: "lint \<Rightarrow> string list" where
  "GetAllExtensions s = remdups (GetHeaderExtensions s @
     (if valid_extensions s \<noteq> [] then valid_extensions s else default_source_extensions))"

definition ProcessExtensionsOption :: "string \<Rightarrow> lint \<Rightarrow> lint" where
  "ProcessExtensionsOption val s = s\<lparr>valid_extensions := remdups (map py_strip (split_on (CHR '','') val))\<rparr>"

definition GetNonHeaderExtensions :: "lint \<Rightarrow> string list" where
  "GetNonHeaderExtensions s = filter (\<lambda>e. e \<notin> set (GetHeaderExtensions s)) (GetAllExtensions s)"

definition IsSourceExtension :: "lint \<Rightarrow> string \<Rightarrow> bool" where
  "IsSourceExtension s e \<longleftrightarrow> e \<in> set (GetNonHeaderExtensions s)"

section \<open>FileInfo\<close>

definition FullName :: "fsys \<Rightarrow> string \<Rightarrow> string" where
  "FullName fs filename = py_replace (path_abspath fs filename) [CHR 0x5C] ''/''"

text \<open>The search for a specified repository: up from the directory of the file while it exists.\<close>

function find_repository :: "fsys \<Rightarrow> string \<Rightarrow> string \<Rightarrow> string option" where
  "find_repository fs repo dir =
     (if path_exists fs dir then
        (if dir = repo then Some dir
         else
           (let one_up_dir = path_dirname dir in
            if one_up_dir = dir then None else find_repository fs repo one_up_dir))
      else None)"
  by pat_completeness auto

termination find_repository
  by (relation "measure (\<lambda>(fs, repo, dir). length dir)") (auto simp: dirname_shorter)

declare find_repository.simps [simp del]

text \<open>The search for the top of an SVN checkout, which goes on as long as \<open>.svn\<close> exists one up.\<close>

partial_function (option) svn_top :: "fsys \<Rightarrow> string \<Rightarrow> string \<Rightarrow> string option" where
  [code]: "svn_top fs dir one_up_dir =
     (if path_exists fs (path_join one_up_dir ''.svn'')
      then svn_top fs (path_dirname dir) (path_dirname one_up_dir)
      else Some dir)"

definition has_vcs_dir :: "fsys \<Rightarrow> string \<Rightarrow> bool" where
  "has_vcs_dir fs dir \<longleftrightarrow> path_exists fs (path_join dir ''.git'')
     \<or> path_exists fs (path_join dir ''.hg'') \<or> path_exists fs (path_join dir ''.svn'')"

function vcs_top :: "fsys \<Rightarrow> string \<Rightarrow> string \<Rightarrow> string" where
  "vcs_top fs dir current_dir =
     (if current_dir \<noteq> path_dirname current_dir
      then vcs_top fs (if has_vcs_dir fs current_dir then current_dir else dir) (path_dirname current_dir)
      else dir)"
  by pat_completeness auto

termination vcs_top
  by (relation "measure (\<lambda>(fs, dir, current_dir). length current_dir)") (auto simp: dirname_shorter)

declare vcs_top.simps [simp del]

definition after_prefix :: "string \<Rightarrow> string \<Rightarrow> string \<Rightarrow> string" where
  "after_prefix fullname dir project_dir = drop (length (common_prefix dir project_dir) + 1) fullname"

definition repository_by_vcs :: "fsys \<Rightarrow> string \<Rightarrow> string option" where
  "repository_by_vcs fs fullname =
     (let project_dir = path_dirname fullname in
      if path_exists fs (path_join project_dir ''.svn'') then
        map_option (\<lambda>dir. after_prefix fullname dir project_dir)
          (svn_top fs project_dir (path_dirname project_dir))
      else
        (let dir = vcs_top fs project_dir project_dir in
         Some (if has_vcs_dir fs dir then after_prefix fullname dir project_dir else fullname)))"

text \<open>The directory of the specified repository, when there is one and it contains the file.\<close>

definition specified_repository :: "fsys \<Rightarrow> lint \<Rightarrow> string \<Rightarrow> string option" where
  "specified_repository fs s fullname =
     (case repository s of
        None \<Rightarrow> None
      | Some r \<Rightarrow> if r = [] then None
                  else find_repository fs (FullName fs r) (path_dirname fullname))"

definition RepositoryName :: "fsys \<Rightarrow> lint \<Rightarrow> string \<Rightarrow> string option" where
  "RepositoryName fs s filename =
     (let fullname = FullName fs filename in
      if path_exists fs fullname then
        (case specified_repository fs s fullname of
           Some dir \<Rightarrow> Some (py_replace (path_relpath fs fullname dir) [CHR 0x5C] ''/'')
         | None \<Rightarrow> repository_by_vcs fs fullname)
      else Some fullname)"

definition Split :: "fsys \<Rightarrow> lint \<Rightarrow> string \<Rightarrow> (string \<times> string \<times> string) option" where
  "Split fs s filename =
     map_option (\<lambda>googlename. let (project, rest) = path_split googlename in (project, path_splitext rest))
       (RepositoryName fs s filename)"

definition BaseName :: "fsys \<Rightarrow> lint \<Rightarrow> string \<Rightarrow> string option" where
  "BaseName fs s filename = map_option (\<lambda>(p, b, e). b) (Split fs s filename)"

definition Extension :: "fsys \<Rightarrow> lint \<Rightarrow> string \<Rightarrow> string option" where
  "Extension fs s filename = map_option (\<lambda>(p, b, e). e) (Split fs s filename)"

definition NoExtension :: "fsys \<Rightarrow> lint \<Rightarrow> string \<Rightarrow> string option" where
  "NoExtension fs s filename = map_option (\<lambda>(p, b, e). join_with ''/'' [p, b]) (Split fs s filename)"

definition IsSource :: "fsys \<Rightarrow> lint \<Rightarrow> string \<Rightarrow> bool option" where
  "IsSource fs s filename = map_option (\<lambda>e. IsSourceExtension s (drop 1 e)) (Extension fs s filename)"

section \<open>The header guard\<close>

definition StripListPrefix :: "string list \<Rightarrow> string list \<Rightarrow> string list option" where
  "StripListPrefix lst pre =
     (if take (length pre) lst \<noteq> pre then None else Some (drop (length pre) lst))"

text \<open>\<open>if maybe_path:\<close> is false for \<open>None\<close> and for the empty list.\<close>

definition FixupPathFromRoot :: "fsys \<Rightarrow> lint \<Rightarrow> string \<Rightarrow> string \<Rightarrow> string" where
  "FixupPathFromRoot fs s filename file_path_from_root =
     (case root_dir s of
        None \<Rightarrow> file_path_from_root
      | Some r \<Rightarrow>
          if r = [] then file_path_from_root
          else
            (case StripListPrefix (PathSplitToList file_path_from_root) (PathSplitToList r) of
               Some (p # ps) \<Rightarrow> path_join_all (p # ps)
             | _ \<Rightarrow>
                 (case StripListPrefix (PathSplitToList (FullName fs filename))
                         (PathSplitToList (path_abspath fs r)) of
                    Some (p # ps) \<Rightarrow> path_join_all (p # ps)
                  | _ \<Rightarrow> file_path_from_root)))"

definition guard_char :: "char \<Rightarrow> char" where
  "guard_char c = (if is_lower_ascii c \<or> is_upper_ascii c \<or> is_digit c then c else CHR ''_'')"

text \<open>The restored file name of Emacs' flymake, with 'c++' as 'cpp'.\<close>

definition guard_filename :: "string \<Rightarrow> string" where
  "guard_filename filename =
     (let filename = ReplaceAll (rx ''_flymake`.h$'') ''.h'' filename;
          filename = ReplaceAll (rx ''/`.flymake/([^/]*)$'') (rx ''/`1'') filename
      in py_replace (py_replace filename ''C++'' ''cpp'') ''c++'' ''cpp'')"

text \<open>\<open>re.sub(r'[^a-zA-Z0-9]', '_', path)\<close> replaces character by character (\<open>guard_char\<close>).\<close>

definition GetHeaderGuardCPPVariable :: "fsys \<Rightarrow> lint \<Rightarrow> string \<Rightarrow> string option" where
  "GetHeaderGuardCPPVariable fs s filename =
     (let filename = guard_filename filename in
      map_option (\<lambda>name.
        py_upper (ReplaceAll ''[^a-zA-Z0-9]'' ''_'' (FixupPathFromRoot fs s filename name)) @ ''_'')
        (RepositoryName fs s filename))"

lemma sub_guard_chars: "ReplaceAll ''[^a-zA-Z0-9]'' ''_'' p = map guard_char p"
proof -
  let ?r = "Cls True [Range (CHR ''a'') (CHR ''z''), Range (CHR ''A'') (CHR ''Z''), Range (CHR ''0'') (CHR ''9'')]"
  have c: "re_compile no_flags ''[^a-zA-Z0-9]'' = Some (no_flags, ?r)" by code_simp
  have m: "match_at no_flags ?r (MS b (c # cs) i []) =
      (if guard_char c = c \<and> c \<noteq> CHR ''_'' then None else Some (mk_match (MS b (c # cs) i []) (MS (Some c) cs (Suc i) [])))"
    for b c cs i
    by (auto simp: match_at_def in_cls_def no_flags_def guard_char_def is_lower_ascii_def is_upper_ascii_def is_digit_def in_range_def)
  have m0: "match_at no_flags ?r (MS b [] i []) = None" for b i
    by (simp add: match_at_def)
  have "sub_from no_flags ?r (expand_template ''_'') b p i 0 = map guard_char p" for b i
  proof (induction p arbitrary: b i)
    case Nil
    then show ?case by (simp add: m0)
  next
    case (Cons c cs)
    have "guard_char c = CHR ''_'' \<or> guard_char c = c" by (simp add: guard_char_def)
    then show ?case using Cons by (auto simp: m mk_match_def)
  qed
  then show ?thesis by (simp add: ReplaceAll_def c re_sub_def)
qed

section \<open>Lemmas\<close>

lemma path_join_all_snoc: "xs \<noteq> [] \<Longrightarrow> path_join_all (xs @ [t]) = path_join (path_join_all xs) t"
  by (cases xs) (simp_all add: path_join_all_def)

lemma path_split_loop_ne [simp]: "path_split_loop p \<noteq> []"
  by (subst path_split_loop.simps) (simp add: case_prod_beta Let_def)

lemma rstrip_char_id: "h \<noteq> [] \<Longrightarrow> last h \<noteq> x \<Longrightarrow> rstrip_char x (h @ [x]) = h"
  by (cases h rule: rev_cases) (simp_all add: rstrip_char_def)

lemma rfind_char_split: "rfind_char x s = Some n \<Longrightarrow> s = take n s @ x # drop (Suc n) s \<and> x \<notin> set (drop (Suc n) s)"
proof (induction s arbitrary: n)
  case (Cons c cs)
  show ?case
  proof (cases "rfind_char x cs")
    case None
    with Cons.prems have "n = 0" "c = x" by (auto split: if_splits)
    with None show ?thesis by (simp add: rfind_char_None)
  next
    case (Some k)
    with Cons.prems have "n = Suc k" by simp
    with Cons.IH [OF Some] show ?thesis by simp
  qed
qed simp

text \<open>One step of the loop on a path without empty components.\<close>

lemma path_split_cases:
  assumes "\<not> contains p ''//''"
  shows "(path_split p = ([], p) \<and> CHR ''/'' \<notin> set p)
    \<or> (\<exists>t. p = CHR ''/'' # t \<and> path_split p = (''/'', t) \<and> CHR ''/'' \<notin> set t)
    \<or> (\<exists>h t. p = h @ CHR ''/'' # t \<and> path_split p = (h, t) \<and> h \<noteq> [] \<and> last h \<noteq> CHR ''/'' \<and> CHR ''/'' \<notin> set t)"
proof (cases "rfind_char (CHR ''/'') p")
  case None
  then have "path_split p = ([], p)" by (simp add: path_split_def)
  with None show ?thesis by (simp add: rfind_char_None)
next
  case (Some n)
  define h where "h = take n p"
  define t where "t = drop (Suc n) p"
  from rfind_char_split [OF Some] have p: "p = h @ CHR ''/'' # t" and t: "CHR ''/'' \<notin> set t"
    unfolding h_def t_def by blast+
  have len: "length h = n" using rfind_char_Some [OF Some] by (simp add: h_def)
  have "take (Suc n) (h @ CHR ''/'' # t) = h @ [CHR ''/'']" "drop (Suc n) (h @ CHR ''/'' # t) = t"
    using len by simp_all
  then have th: "take (Suc n) p = h @ [CHR ''/'']" "drop (Suc n) p = t" by (simp_all only: p)
  show ?thesis
  proof (cases "h = []")
    case True
    with Some th have "path_split p = (''/'', t)" by (simp add: path_split_def)
    with p t True show ?thesis by simp
  next
    case False
    have "last h \<noteq> CHR ''/''"
    proof
      assume "last h = CHR ''/''"
      with False have "h = butlast h @ [CHR ''/'']" by (metis append_butlast_last_id)
      then have "h @ CHR ''/'' # t = butlast h @ ''//'' @ t" by (metis append.assoc append_Cons append_Nil)
      with assms show False unfolding contains_iff p by blast
    qed
    moreover from this False have "\<not> list_all (\<lambda>c. c = CHR ''/'') (h @ [CHR ''/''])"
      by (cases h rule: rev_cases) simp_all
    ultimately have "path_split p = (h, t)"
      using False by (simp add: path_split_def Some th rstrip_char_id)
    with p t False \<open>last h \<noteq> CHR ''/''\<close> show ?thesis by blast
  qed
qed

lemma contains_prefix: "contains (h @ r) x = False \<Longrightarrow> contains h x = False"
  unfolding contains_iff by (metis append.assoc)

lemma not_isabs_notin: "CHR ''/'' \<notin> set t \<Longrightarrow> \<not> path_isabs t"
  by (cases t) (auto simp: path_isabs_def startswith_def)

lemma path_split_loop_join:
  "\<not> contains p ''//'' \<Longrightarrow> path_join_all (rev (path_split_loop p)) = p"
proof (induction p rule: path_split_loop.induct)
  case (1 p)
  from path_split_cases [OF 1(2)] show ?case
  proof (elim disjE exE conjE)
    assume "path_split p = ([], p)"
    then show ?thesis by (simp add: path_split_loop.simps [of p] path_join_all_def)
  next
    fix t assume *: "p = CHR ''/'' # t" "path_split p = (''/'', t)" "CHR ''/'' \<notin> set t"
    have r: "path_split_loop ''/'' = [''/'']"
      by (simp add: path_split_loop.simps [of "''/''"] path_split_def)
    show ?thesis
    proof (cases t)
      case Nil
      with * r show ?thesis by (simp add: path_join_all_def)
    next
      case (Cons c cs)
      have "path_split_loop p = [t, ''/'']"
        unfolding path_split_loop.simps [of p] using * r Cons by simp
      moreover have "path_join ''/'' t = p"
        using *(1) not_isabs_notin [OF *(3)] by (simp add: path_join_def endswith_def)
      ultimately show ?thesis by (simp add: path_join_all_def)
    qed
  next
    fix h t assume *: "p = h @ CHR ''/'' # t" "path_split p = (h, t)" "h \<noteq> []" "last h \<noteq> CHR ''/''" "CHR ''/'' \<notin> set t"
    have ne: "h \<noteq> p" "t \<noteq> p" using *(1) by auto
    have loop: "path_split_loop (h @ CHR ''/'' # t) = t # path_split_loop h"
      unfolding path_split_loop.simps [of "h @ CHR ''/'' # t"] using * ne by simp
    have "\<not> contains h ''//''" using 1(2) contains_prefix [of h _ "''//''"] *(1) by blast
    with 1(1) [OF *(2) [symmetric] refl ne] have IH: "path_join_all (rev (path_split_loop h)) = h" by simp
    have "\<not> endswith h ''/''"
    proof
      assume "endswith h ''/''"
      then have "last h = CHR ''/''" by (auto simp: endswith_iff)
      with *(4) show False ..
    qed
    with IH * ne not_isabs_notin [OF *(5)] show ?thesis
      by (simp add: loop path_join_all_snoc path_join_def)
  qed
qed

definition svn_at :: "fsys \<Rightarrow> string \<Rightarrow> nat \<Rightarrow> bool" where
  "svn_at fs dir k \<longleftrightarrow> path_exists fs (path_join ((path_dirname ^^ k) dir) ''.svn'')"

lemma svn_top_Some:
  "\<not> svn_at fs up k \<Longrightarrow> \<exists>r. svn_top fs dir up = Some r"
proof (induction k arbitrary: dir up)
  case 0
  then show ?case by (simp add: svn_at_def svn_top.simps)
next
  case (Suc k)
  have "\<not> svn_at fs (path_dirname up) k" using Suc.prems by (simp add: svn_at_def funpow_swap1)
  from Suc.IH [OF this] show ?case by (subst svn_top.simps) simp
qed

lemma svn_top_SomeD:
  assumes "svn_top fs dir up = Some r"
  shows "\<exists>k. \<not> svn_at fs up k"
proof (rule svn_top.raw_induct [OF _ assms, where P = "\<lambda>fs dir up r. \<exists>k. \<not> svn_at fs up k"])
  fix rec_top :: "fsys \<Rightarrow> string \<Rightarrow> string \<Rightarrow> string option" and fs dir up r
  assume IH: "\<And>fs dir up r. rec_top fs dir up = Some r \<Longrightarrow> \<exists>k. \<not> svn_at fs up k"
    and body: "(if path_exists fs (path_join up ''.svn'')
      then rec_top fs (path_dirname dir) (path_dirname up) else Some dir) = Some r"
  show "\<exists>k. \<not> svn_at fs up k"
  proof (cases "path_exists fs (path_join up ''.svn'')")
    case True
    with body have "rec_top fs (path_dirname dir) (path_dirname up) = Some r" by simp
    from IH [OF this] obtain k where "\<not> svn_at fs (path_dirname up) k" ..
    then have "\<not> svn_at fs up (Suc k)" by (simp add: svn_at_def funpow_swap1)
    then show ?thesis ..
  next
    case False
    then have "\<not> svn_at fs up 0" by (simp add: svn_at_def)
    then show ?thesis ..
  qed
qed

lemma svn_top_None_iff: "svn_top fs dir up = None \<longleftrightarrow> (\<forall>k. svn_at fs up k)"
  using svn_top_Some [of fs up _ dir] svn_top_SomeD [of fs dir up] by (metis option.exhaust option.distinct(1))

lemma guard_char_upper:
  "is_upper_ascii (char_upper (guard_char c)) \<or> is_digit (char_upper (guard_char c)) \<or> char_upper (guard_char c) = CHR ''_''"
proof -
  have u: "is_upper_ascii (char_of (of_char c - (32 :: nat)))" if "is_lower_ascii c"
    using that by (auto simp: is_lower_ascii_def is_upper_ascii_def in_range_def)
  show ?thesis
  proof (cases "is_lower_ascii c")
    case True
    with u [OF True] show ?thesis by (simp add: guard_char_def char_upper_def)
  next
    case False
    moreover have "\<not> is_lower_ascii (CHR ''_'')" by code_simp
    ultimately show ?thesis by (simp add: guard_char_def char_upper_def)
  qed
qed

section \<open>Properties\<close>

text \<open>C32. The name used as header guard is made of upper-case ASCII letters, digits and
  underscores only and ends with an underscore, whatever the file name, the repository, the
  options and the file system are.\<close>

theorem header_guard_is_macro_name:
  assumes "GetHeaderGuardCPPVariable fs s filename = Some v"
  shows "list_all (\<lambda>c. is_upper_ascii c \<or> is_digit c \<or> c = CHR ''_'') v \<and> v \<noteq> [] \<and> last v = CHR ''_''"
proof -
  from assms obtain p where v: "v = map char_upper (map guard_char p) @ ''_''"
    by (auto simp: GetHeaderGuardCPPVariable_def Let_def sub_guard_chars py_upper_def)
  have "list_all (\<lambda>c. is_upper_ascii c \<or> is_digit c \<or> c = CHR ''_'') (map char_upper (map guard_char p))"
    using guard_char_upper by (auto simp: list_all_iff)
  moreover have "\<not> is_upper_ascii (CHR ''_'') \<and> \<not> is_digit (CHR ''_'')" by code_simp
  ultimately show ?thesis by (simp add: v)
qed

definition example_fs :: fsys where
  "example_fs = \<lparr>path_exists = (\<lambda>p. p = ''/w/src/a-b.h'' \<or> p = ''/w/.git''), getcwd = ''/w''\<rparr>"

theorem header_guard_is_macro_name_witness:
  "\<exists>v. GetHeaderGuardCPPVariable example_fs CppLintState_init ''src/a-b.h'' = Some v
     \<and> v = ''SRC_A_B_H_'' \<and> last v = CHR ''_''"
proof -
  have f: "guard_filename ''src/a-b.h'' = ''src/a-b.h''" by code_simp
  have n: "FullName example_fs ''src/a-b.h'' = ''/w/src/a-b.h''" by code_simp
  have v: "repository_by_vcs example_fs ''/w/src/a-b.h'' = Some ''src/a-b.h''" by code_simp
  have r: "RepositoryName example_fs CppLintState_init ''src/a-b.h'' = Some ''src/a-b.h''"
    by (simp add: RepositoryName_def n v Let_def specified_repository_def CppLintState_init_def)
       (simp add: example_fs_def)
  have x: "FixupPathFromRoot example_fs CppLintState_init ''src/a-b.h'' p = p" for p
    by (simp add: FixupPathFromRoot_def CppLintState_init_def)
  have u: "py_upper (map guard_char ''src/a-b.h'') @ ''_'' = ''SRC_A_B_H_''" by code_simp
  have g: "GetHeaderGuardCPPVariable example_fs CppLintState_init ''src/a-b.h'' = Some ''SRC_A_B_H_''"
    unfolding GetHeaderGuardCPPVariable_def f Let_def r sub_guard_chars option.map x u ..
  from header_guard_is_macro_name [OF g] g show ?thesis by simp
qed

text \<open>C33. Splitting a path into its components and joining them again gives the path back, for
  every path without two slashes in a row (absolute, relative, or ending with a slash).\<close>

theorem PathSplitToList_join:
  assumes "\<not> contains p ''//''"
  shows "path_join_all (PathSplitToList p) = p"
  using assms by (simp add: PathSplitToList_def path_split_loop_join)

theorem PathSplitToList_join_witness:
  "path_join_all (PathSplitToList ''/a/b/c/'') = ''/a/b/c/''
   \<and> PathSplitToList ''/a/b/c/'' = [''/'', ''a'', ''b'', ''c'', []]"
proof -
  have "\<not> contains ''/a/b/c/'' ''//''" by code_simp
  moreover have "PathSplitToList ''/a/b/c/'' = [''/'', ''a'', ''b'', ''c'', []]" by code_simp
  ultimately show ?thesis using PathSplitToList_join [of "''/a/b/c/''"] by simp
qed

text \<open>C36. \<open>RepositoryName\<close> fails to return in exactly one case: the file exists, no specified
  repository contains it, and there is a \<open>.svn\<close> in its directory and in every directory above,
  the top of the file system included (whose parent is itself).\<close>

theorem RepositoryName_diverges_iff:
  "RepositoryName fs s filename = None \<longleftrightarrow>
     (let fullname = FullName fs filename; project_dir = path_dirname fullname in
      path_exists fs fullname \<and> specified_repository fs s fullname = None
      \<and> (\<forall>k. svn_at fs project_dir k))"
proof -
  have up: "svn_at fs d 0 \<longleftrightarrow> path_exists fs (path_join d ''.svn'')"
    "svn_at fs d (Suc k) = svn_at fs (path_dirname d) k" for d k
    by (simp_all add: svn_at_def funpow_swap1)
  have all: "(\<forall>k. svn_at fs d k) \<longleftrightarrow>
      path_exists fs (path_join d ''.svn'') \<and> (\<forall>k. svn_at fs (path_dirname d) k)" for d
    using up by (metis old.nat.exhaust)
  define full where "full = FullName fs filename"
  show ?thesis
    unfolding full_def [symmetric] Let_def all [of "path_dirname full"]
    by (simp add: RepositoryName_def repository_by_vcs_def full_def [symmetric] Let_def svn_top_None_iff split: option.splits)
qed

end
