(* ===== verification/IncludeState.thy ===== *)
theory IncludeState
  imports LintState
begin

text \<open>
  The class \<open>_IncludeState\<close>: the headers included so far, section by section, the section of the
  include order reached, and the last header seen. The five header types and five sections are
  the constants of the class. The lemmas show that the list of sections is never empty (so
  \<open>include_list[-1]\<close> does not raise), that \<open>FindHeader\<close> finds the first occurrence, and that a
  sequence of includes passes exactly when it follows the order the class announces.
\<close>

datatype header_type = C_SYS_HEADER | CPP_SYS_HEADER | LIKELY_MY_HEADER | POSSIBLE_MY_HEADER | OTHER_HEADER

definition INITIAL_SECTION :: nat where "INITIAL_SECTION = 0"
definition MY_H_SECTION :: nat where "MY_H_SECTION = 1"
definition C_SECTION :: nat where "C_SECTION = 2"
definition CPP_SECTION :: nat where "CPP_SECTION = 3"
definition OTHER_H_SECTION :: nat where "OTHER_H_SECTION = 4"

lemmas section_defs = INITIAL_SECTION_def MY_H_SECTION_def C_SECTION_def CPP_SECTION_def OTHER_H_SECTION_def

fun TYPE_NAMES :: "header_type \<Rightarrow> string" where
  "TYPE_NAMES C_SYS_HEADER = ''C system header''"
| "TYPE_NAMES CPP_SYS_HEADER = ''C++ system header''"
| "TYPE_NAMES LIKELY_MY_HEADER = ''header this file implements''"
| "TYPE_NAMES POSSIBLE_MY_HEADER = ''header this file may implement''"
| "TYPE_NAMES OTHER_HEADER = ''other header''"

definition SECTION_NAMES :: "nat \<Rightarrow> string" where
  \<open>SECTION_NAMES s =
     (if s = INITIAL_SECTION then ''... nothing. (This can\'t be an error.)''
      else if s = MY_H_SECTION then ''a header this file implements''
      else if s = C_SECTION then ''C system header''
      else if s = CPP_SECTION then ''C++ system header''
      else ''other header'')\<close>

record include_state =
  include_list :: "(string \<times> int) list list"
  section_no :: nat
  last_header :: string

definition ResetSection :: "string \<Rightarrow> include_state \<Rightarrow> include_state" where
  "ResetSection directive s =
     (let s = s\<lparr>section_no := INITIAL_SECTION, last_header := []\<rparr> in
      if directive \<in> {''if'', ''ifdef'', ''ifndef''} then s\<lparr>include_list := include_list s @ [[]]\<rparr>
      else if directive \<in> {''else'', ''elif''}
      then s\<lparr>include_list := butlast (include_list s) @ [[]]\<rparr>
      else s)"

definition IncludeState_init :: include_state where
  "IncludeState_init = ResetSection [] \<lparr>include_list = [[]], section_no = 0, last_header = []\<rparr>"

fun find_in_section :: "string \<Rightarrow> (string \<times> int) list \<Rightarrow> int option" where
  "find_in_section header [] = None"
| "find_in_section header (f # fs) = (if fst f = header then Some (snd f) else find_in_section header fs)"

fun find_in_sections :: "string \<Rightarrow> (string \<times> int) list list \<Rightarrow> int" where
  "find_in_sections header [] = -1"
| "find_in_sections header (section_list # sections) =
     (case find_in_section header section_list of
        Some n \<Rightarrow> n | None \<Rightarrow> find_in_sections header sections)"

definition FindHeader :: "string \<Rightarrow> include_state \<Rightarrow> int" where
  "FindHeader header s = find_in_sections header (include_list s)"

definition SetLastHeader :: "string \<Rightarrow> include_state \<Rightarrow> include_state" where
  "SetLastHeader header_path s = s\<lparr>last_header := header_path\<rparr>"

text \<open>\<open>self.include_list[-1].append(...)\<close>, as \<open>CheckIncludeLine\<close> does.\<close>

definition append_include :: "string \<Rightarrow> int \<Rightarrow> include_state \<Rightarrow> include_state result" where
  "append_include header linenum s =
     (if include_list s = [] then Inl IndexError
      else Inr (s\<lparr>include_list :=
        butlast (include_list s) @ [last (include_list s) @ [(header, linenum)]]\<rparr>))"

definition CanonicalizeAlphabeticalOrder :: "string \<Rightarrow> string" where
  "CanonicalizeAlphabeticalOrder header_path =
     py_lower (py_replace (py_replace header_path ''-inl.h'' ''.h'') ''-'' ''_'')"

definition IsInAlphabeticalOrder :: "string list \<Rightarrow> int \<Rightarrow> string \<Rightarrow> include_state \<Rightarrow> bool result" where
  \<open>IsInAlphabeticalOrder elided linenum header_path s =
     (if last_header s > header_path then
        bind_result (py_get elided (linenum - 1)) (\<lambda>line.
          if is_match (rx ''^`s*#`s*include`b'') line then Inr False else Inr True)
      else Inr True)\<close>

definition CheckNextIncludeOrder :: "header_type \<Rightarrow> include_state \<Rightarrow> string \<times> include_state" where
  "CheckNextIncludeOrder header_type s =
     (let error_message = ''Found '' @ TYPE_NAMES header_type @ '' after '' @ SECTION_NAMES (section_no s);
          last_section = section_no s;
          finish = (\<lambda>s'. ([], if last_section \<noteq> section_no s' then s'\<lparr>last_header := []\<rparr> else s'))
      in case header_type of
           C_SYS_HEADER \<Rightarrow>
             if section_no s \<le> C_SECTION then finish (s\<lparr>section_no := C_SECTION\<rparr>)
             else (error_message, s\<lparr>last_header := []\<rparr>)
         | CPP_SYS_HEADER \<Rightarrow>
             if section_no s \<le> CPP_SECTION then finish (s\<lparr>section_no := CPP_SECTION\<rparr>)
             else (error_message, s\<lparr>last_header := []\<rparr>)
         | LIKELY_MY_HEADER \<Rightarrow>
             if section_no s \<le> MY_H_SECTION then finish (s\<lparr>section_no := MY_H_SECTION\<rparr>)
             else finish (s\<lparr>section_no := OTHER_H_SECTION\<rparr>)
         | POSSIBLE_MY_HEADER \<Rightarrow>
             if section_no s \<le> MY_H_SECTION then finish (s\<lparr>section_no := MY_H_SECTION\<rparr>)
             else finish (s\<lparr>section_no := OTHER_H_SECTION\<rparr>)
         | OTHER_HEADER \<Rightarrow> finish (s\<lparr>section_no := OTHER_H_SECTION\<rparr>))"

section \<open>The list of sections\<close>

definition sections_ok :: "include_state \<Rightarrow> bool" where
  "sections_ok s \<longleftrightarrow> include_list s \<noteq> [] \<and> section_no s \<le> OTHER_H_SECTION
     \<and> (\<forall>sec \<in> set (include_list s). \<forall>f \<in> set sec. 0 \<le> snd f)"

lemma sections_ok_init [keeps_inv]: "sections_ok IncludeState_init"
  by (simp add: sections_ok_def IncludeState_init_def ResetSection_def section_defs)

lemma sections_ok_Reset [keeps_inv]: "sections_ok s \<Longrightarrow> sections_ok (ResetSection d s)"
  by (auto simp: sections_ok_def ResetSection_def Let_def section_defs dest: in_set_butlastD)

lemma sections_ok_append [keeps_inv]:
  "sections_ok s \<Longrightarrow> 0 \<le> n \<Longrightarrow> \<exists>s'. append_include h n s = Inr s' \<and> sections_ok s'"
  by (auto simp: sections_ok_def append_include_def dest: in_set_butlastD intro: last_in_set)

lemma sections_ok_Check [keeps_inv]: "sections_ok s \<Longrightarrow> sections_ok (snd (CheckNextIncludeOrder t s))"
  by (cases t) (auto simp: sections_ok_def CheckNextIncludeOrder_def Let_def section_defs)

lemma sections_ok_SetLast [keeps_inv]: "sections_ok s \<Longrightarrow> sections_ok (SetLastHeader h s)"
  by (simp add: sections_ok_def SetLastHeader_def)

section \<open>FindHeader\<close>

lemma find_in_section_map_of: "find_in_section h sec = map_of sec h"
  by (induction sec) auto

lemma find_in_sections_map_of:
  "find_in_sections h secs = (case map_of (concat secs) h of None \<Rightarrow> -1 | Some n \<Rightarrow> n)"
  by (induction secs) (auto simp: find_in_section_map_of map_add_def split: option.splits)

lemma concat_butlast_last: "xs \<noteq> [] \<Longrightarrow> concat (butlast xs) @ last xs = concat xs"
  by (metis append_butlast_last_id concat.simps(1) concat.simps(2) concat_append append_Nil2)

section \<open>The order\<close>

definition my_header :: "header_type \<Rightarrow> bool" where
  "my_header t \<longleftrightarrow> t = LIKELY_MY_HEADER \<or> t = POSSIBLE_MY_HEADER"

fun order_messages :: "header_type list \<Rightarrow> include_state \<Rightarrow> string list" where
  "order_messages [] s = []"
| "order_messages (t # ts) s =
     (let (m, s') = CheckNextIncludeOrder t s in m # order_messages ts s')"

text \<open>The section a header leads to, or none where the class complains.\<close>

fun next_section :: "header_type \<Rightarrow> nat \<Rightarrow> nat option" where
  "next_section C_SYS_HEADER n = (if n \<le> 2 then Some 2 else None)"
| "next_section CPP_SYS_HEADER n = (if n \<le> 3 then Some 3 else None)"
| "next_section LIKELY_MY_HEADER n = Some (if n \<le> 1 then 1 else 4)"
| "next_section POSSIBLE_MY_HEADER n = Some (if n \<le> 1 then 1 else 4)"
| "next_section OTHER_HEADER n = Some 4"

fun in_order :: "header_type list \<Rightarrow> nat \<Rightarrow> bool" where
  "in_order [] n = True"
| "in_order (t # ts) n = (case next_section t n of None \<Rightarrow> False | Some n' \<Rightarrow> in_order ts n')"

lemma CheckNextIncludeOrder_section:
  "next_section t (section_no s) = Some n \<Longrightarrow>
     fst (CheckNextIncludeOrder t s) = [] \<and> section_no (snd (CheckNextIncludeOrder t s)) = n"
  "next_section t (section_no s) = None \<Longrightarrow>
     fst (CheckNextIncludeOrder t s) \<noteq> [] \<and> section_no (snd (CheckNextIncludeOrder t s)) = section_no s"
  by (cases t; auto simp: CheckNextIncludeOrder_def Let_def section_defs split: if_splits)+

lemma order_messages_in_order:
  "(\<forall>m \<in> set (order_messages ts s). m = []) \<longleftrightarrow> in_order ts (section_no s)"
proof (induction ts arbitrary: s)
  case (Cons t ts)
  then show ?case
    using CheckNextIncludeOrder_section [of t s]
    by (auto simp: Let_def case_prod_beta split: option.splits)
qed simp

text \<open>
  The announced order: headers of this file, C system headers, C++ system headers, then other
  headers, among which late headers of this file are allowed.
\<close>

definition late_header :: "header_type \<Rightarrow> bool" where
  "late_header t \<longleftrightarrow> my_header t \<or> t = OTHER_HEADER"

definition announced_order :: "header_type list \<Rightarrow> bool" where
  "announced_order =
     phase my_header (phase (\<lambda>t. t = C_SYS_HEADER) (phase (\<lambda>t. t = CPP_SYS_HEADER) (list_all late_header)))"

lemma header_kind_simps [simp]:
  "my_header LIKELY_MY_HEADER" "my_header POSSIBLE_MY_HEADER" "\<not> my_header C_SYS_HEADER"
  "\<not> my_header CPP_SYS_HEADER" "\<not> my_header OTHER_HEADER"
  "late_header LIKELY_MY_HEADER" "late_header POSSIBLE_MY_HEADER" "late_header OTHER_HEADER"
  "\<not> late_header C_SYS_HEADER" "\<not> late_header CPP_SYS_HEADER"
  by (simp_all add: my_header_def late_header_def)

lemma in_order_4: "in_order ts 4 \<longleftrightarrow> list_all late_header ts"
proof (induction ts)
  case (Cons t ts)
  then show ?case by (cases t) auto
qed simp

lemma in_order_3: "in_order ts 3 \<longleftrightarrow> phase (\<lambda>t. t = CPP_SYS_HEADER) (list_all late_header) ts"
proof (induction ts)
  case (Cons t ts)
  then show ?case
    by (cases t) (auto simp: phase_Cons in_order_4)
qed (simp add: phase_Nil)

lemma in_order_2:
  "in_order ts 2 \<longleftrightarrow>
     phase (\<lambda>t. t = C_SYS_HEADER) (phase (\<lambda>t. t = CPP_SYS_HEADER) (list_all late_header)) ts"
proof (induction ts)
  case (Cons t ts)
  then show ?case
    by (cases t) (auto simp: phase_Cons in_order_3 in_order_4)
qed (simp add: phase_Nil)

lemma phase_rest: "Q xs \<Longrightarrow> phase P Q xs"
proof -
  assume "Q xs"
  then have "xs = [] @ xs \<and> list_all P [] \<and> Q xs" by simp
  then show "phase P Q xs" unfolding phase_def by blast
qed

lemma in_order_1: "n \<le> 1 \<Longrightarrow> in_order ts n \<longleftrightarrow> announced_order ts"
  unfolding announced_order_def
proof (induction ts arbitrary: n)
  case (Cons t ts)
  then show ?case
    by (cases t) (auto simp: phase_Cons in_order_2 in_order_3 in_order_4 intro: phase_rest)
qed (simp add: phase_Nil)

section \<open>Properties\<close>

text \<open>C29. Starting from a fresh section, the include order check raises no complaint about a
  sequence of headers exactly when the sequence is: headers of this file, then C system headers,
  then C++ system headers (each part possibly empty), then in any order other headers and further
  headers of this file (the deprecated location). So a header of this file after other headers is
  not complained about, although the comment at the call says that a lower type after a higher one
  is.\<close>

theorem include_order_accepts_announced:
  "(filter (\<lambda>m. m \<noteq> []) (order_messages ts (ResetSection directive s)) = []) = announced_order ts"
proof -
  have "section_no (ResetSection directive s) = 0"
    by (simp add: ResetSection_def Let_def INITIAL_SECTION_def)
  then show ?thesis
    using order_messages_in_order [of ts "ResetSection directive s"] in_order_1 [of 0 ts]
    by (simp add: filter_empty_conv)
qed

text \<open>The section never moves backwards while headers are checked, stays within the five
  sections, and a complaint leaves it where it was.\<close>

theorem section_moves_monotonically:
  assumes "sections_ok s"
  shows "section_no s \<le> section_no (snd (CheckNextIncludeOrder t s))
    \<and> sections_ok (snd (CheckNextIncludeOrder t s))
    \<and> (fst (CheckNextIncludeOrder t s) = [] \<or> section_no (snd (CheckNextIncludeOrder t s)) = section_no s)"
  using assms sections_ok_Check [OF assms, of t]
  by (cases t) (auto simp: CheckNextIncludeOrder_def Let_def section_defs sections_ok_def)

theorem section_moves_monotonically_witness:
  "0 \<le> section_no (snd (CheckNextIncludeOrder CPP_SYS_HEADER IncludeState_init))
    \<and> sections_ok (snd (CheckNextIncludeOrder CPP_SYS_HEADER IncludeState_init))"
  using section_moves_monotonically [OF sections_ok_init, of CPP_SYS_HEADER] by simp

text \<open>\<open>FindHeader\<close> after recording an include: a header already present keeps the line of its
  first occurrence, the new header is found at its line, and no other header appears.\<close>

theorem FindHeader_after_include:
  assumes "sections_ok s" and "append_include h n s = Inr s'"
  shows "FindHeader g s' = (if FindHeader g s = -1 \<and> g = h then n else FindHeader g s)"
proof -
  have ne: "include_list s \<noteq> []" using assms(1) by (simp add: sections_ok_def)
  then have flat: "concat (include_list s') = concat (include_list s) @ [(h, n)]"
    using assms(2) by (auto simp: append_include_def concat_butlast_last [symmetric] split: if_splits)
  have pos: "map_of (concat (include_list s)) g \<noteq> Some (-1)"
  proof
    assume "map_of (concat (include_list s)) g = Some (-1)"
    then have "(g, -1) \<in> set (concat (include_list s))" by (rule map_of_SomeD)
    with assms(1) show False by (fastforce simp: sections_ok_def)
  qed
  then show ?thesis
    by (auto simp: FindHeader_def find_in_sections_map_of flat map_add_def split: option.splits)
qed

theorem FindHeader_after_include_witness:
  "FindHeader ''a.h'' \<lparr>include_list = [[(''a.h'', 3), (''b.h'', 4)]], section_no = 4, last_header = []\<rparr> = 3
   \<and> FindHeader ''c.h'' \<lparr>include_list = [[(''a.h'', 3), (''b.h'', 4)]], section_no = 4, last_header = []\<rparr> = -1"
proof -
  let ?s = "\<lparr>include_list = [[(''a.h'', 3)]], section_no = 4, last_header = []\<rparr> :: include_state"
  let ?s' = "\<lparr>include_list = [[(''a.h'', 3), (''b.h'', 4)]], section_no = 4, last_header = []\<rparr> :: include_state"
  have ok: "sections_ok ?s" by (simp add: sections_ok_def section_defs)
  have ap: "append_include ''b.h'' 4 ?s = Inr ?s'" by (simp add: append_include_def)
  show ?thesis
    using FindHeader_after_include [OF ok ap, of "''a.h''"] FindHeader_after_include [OF ok ap, of "''c.h''"]
    by (simp add: FindHeader_def)
qed

end
