(* ===== verification/HeaderGuard.thy ===== *)
theory HeaderGuard
  imports Paths Cleanse IncludeState
begin

text \<open>
  The checks that look at a file's place in the tree: \<open>CheckForHeaderGuard\<close> and
  \<open>CheckHeaderFileIncluded\<close>. The first parses NOLINT comments between its reports, so it is a
  function on the lint state; the second may report without a line, so it returns the arguments of
  its calls of \<open>error\<close>.
\<close>

section \<open>The scan for the guard\<close>

record guard_scan =
  g_ifndef :: string
  g_ifndef_linenum :: nat
  g_define :: string
  g_endif :: string
  g_endif_linenum :: nat

definition guard_scan_init :: guard_scan where
  "guard_scan_init = \<lparr>g_ifndef = [], g_ifndef_linenum = 0, g_define = [], g_endif = [], g_endif_linenum = 0\<rparr>"

definition guard_step :: "nat \<Rightarrow> string \<Rightarrow> guard_scan \<Rightarrow> guard_scan" where
  "guard_step linenum line g =
     (let linesplit = py_words line;
          g = (if length linesplit \<ge> 2 then
                 (let g = (if g_ifndef g = [] \<and> linesplit ! 0 = ''#ifndef''
                           then g\<lparr>g_ifndef := linesplit ! 1, g_ifndef_linenum := linenum\<rparr> else g)
                  in if g_define g = [] \<and> linesplit ! 0 = ''#define''
                     then g\<lparr>g_define := linesplit ! 1\<rparr> else g)
               else g)
      in if startswith line ''#endif'' then g\<lparr>g_endif := line, g_endif_linenum := linenum\<rparr> else g)"

fun guard_scan_from :: "nat \<Rightarrow> string list \<Rightarrow> guard_scan \<Rightarrow> guard_scan" where
  "guard_scan_from n [] g = g"
| "guard_scan_from n (line # lines) g = guard_scan_from (Suc n) lines (guard_step n line g)"

definition HAS_COMMENT_PATTERN :: string where
  \<open>HAS_COMMENT_PATTERN = rx ''^(?:(?:\'(?:`.|[^\'])*\')|(?:"(?:`.|[^"])*")|[^\'"])*//''\<close>

definition no_single_line_comments :: "string list \<Rightarrow> bool" where
  "no_single_line_comments raw_lines \<longleftrightarrow>
     \<not> list_ex (is_match HAS_COMMENT_PATTERN) (butlast (drop 1 raw_lines))"

definition endif_line_message :: "string \<Rightarrow> string" where
  \<open>endif_line_message cppvar = ''#endif line should be "#endif  // '' @ cppvar @ ''"''\<close>

text \<open>The part that judges the \<open>#endif\<close> line: the reports after its NOLINT comment is parsed.\<close>

definition endif_reports :: "string list \<Rightarrow> string \<Rightarrow> string \<Rightarrow> nat \<Rightarrow> report list" where
  \<open>endif_reports raw_lines cppvar endif endif_linenum =
     (case Match (rx ''#endif`s*//`s*'' @ cppvar @ rx ''(_)?`b'') endif of
        Some match \<Rightarrow>
          if group match 1 = Some ''_''
          then [report (int endif_linenum) ''build/header_guard'' 0 (endif_line_message cppvar)] else []
      | None \<Rightarrow>
          (case (if no_single_line_comments raw_lines
                 then Match (rx ''#endif`s*/`*`s*'' @ cppvar @ rx ''(_)?`s*`*/'') endif else None) of
             Some match \<Rightarrow>
               if group match 1 = Some ''_''
               then [report (int endif_linenum) ''build/header_guard'' 0
                       (''#endif line should be "#endif  /* '' @ cppvar @ '' */"'')] else []
           | None \<Rightarrow> [report (int endif_linenum) ''build/header_guard'' 5 (endif_line_message cppvar)]))\<close>

definition check_guard :: "string \<Rightarrow> string list \<Rightarrow> string \<Rightarrow> lint \<Rightarrow> lint result" where
  "check_guard filename raw_lines cppvar s =
     (let g = guard_scan_from 0 raw_lines guard_scan_init in
      if g_ifndef g = [] \<or> g_define g = [] \<or> g_ifndef g \<noteq> g_define g then
        emit filename [report 0 ''build/header_guard'' 5
          (''No #ifndef header guard found, suggested CPP variable is: '' @ cppvar)] s
      else
        bind_result
          (if g_ifndef g \<noteq> cppvar then
             (let error_level = (if g_ifndef g \<noteq> cppvar @ ''_'' then 5 else 0) in
              bind_result (py_get raw_lines (int (g_ifndef_linenum g))) (\<lambda>line.
              bind_result (ParseNolintSuppressions filename line (int (g_ifndef_linenum g)) s)
                (emit filename [report (int (g_ifndef_linenum g)) ''build/header_guard'' error_level
                   (''#ifndef header guard has wrong style, please use: '' @ cppvar)])))
           else Inr s)
        (\<lambda>s. bind_result (py_get raw_lines (int (g_endif_linenum g))) (\<lambda>line.
             bind_result (ParseNolintSuppressions filename line (int (g_endif_linenum g)) s)
               (emit filename (endif_reports raw_lines cppvar (g_endif g) (g_endif_linenum g))))))"

definition CheckForHeaderGuard :: "fsys \<Rightarrow> string \<Rightarrow> cleansed \<Rightarrow> lint \<Rightarrow> lint result option" where
  "CheckForHeaderGuard fs filename c s =
     (let raw_lines = cl_lines_without_raw_strings c in
      if list_ex (is_found (rx ''//`s*NOLINT`(build/header_guard`)'')) raw_lines then Some (Inr s)
      else if list_ex (is_found (rx ''^`s*#pragma`s+once'')) raw_lines then Some (Inr s)
      else map_option (\<lambda>cppvar. check_guard filename raw_lines cppvar s)
             (GetHeaderGuardCPPVariable fs s filename))"

section \<open>The header of a source file\<close>

text \<open>The line of the first include with a line number that is not zero; whether a header is found.\<close>

fun scan_includes :: "string \<Rightarrow> (string \<times> int) list \<Rightarrow> int option \<Rightarrow> int option option" where
  "scan_includes headername [] first_include = Some first_include"
| "scan_includes headername (f # fs) first_include =
     (if contains (fst f) headername \<or> contains headername (fst f) then None
      else scan_includes headername fs
             (if first_include = None \<or> first_include = Some 0 then Some (snd f) else first_include))"

fun check_header_exts ::
    "fsys \<Rightarrow> lint \<Rightarrow> string \<Rightarrow> string \<Rightarrow> include_state \<Rightarrow> string list \<Rightarrow> report list option" where
  "check_header_exts fs s filename ext0 inc [] = Some []"
| "check_header_exts fs s filename ext0 inc (ext # exts) =
     (let headerfile = py_slice filename 0 (int (length filename) - int (length ext0)) @ ''.'' @ ext in
      if \<not> path_exists fs headerfile then check_header_exts fs s filename ext0 inc exts
      else
        (case RepositoryName fs s headerfile of
           None \<Rightarrow> None
         | Some headername \<Rightarrow>
             (case scan_includes headername (concat (include_list inc)) None of
                None \<Rightarrow> Some []
              | Some first_include \<Rightarrow>
                  (case RepositoryName fs s filename of
                     None \<Rightarrow> None
                   | Some name \<Rightarrow>
                       map_option (Cons \<lparr>r_line = first_include, r_category = ''build/include'', r_confidence = 5,
                           r_message = name @ '' should include its header file '' @ headername\<rparr>)
                         (check_header_exts fs s filename ext0 inc exts)))))"

text \<open>The line of a report is \<open>None\<close> when the file includes nothing.\<close>

definition CheckHeaderFileIncluded :: "fsys \<Rightarrow> lint \<Rightarrow> string \<Rightarrow> include_state \<Rightarrow> report list option" where
  "CheckHeaderFileIncluded fs s filename inc =
     (case BaseName fs s filename of
        None \<Rightarrow> None
      | Some base \<Rightarrow>
          if is_found TEST_FILE_SUFFIX base then Some []
          else (case Extension fs s filename of
                  None \<Rightarrow> None
                | Some ext0 \<Rightarrow> check_header_exts fs s filename ext0 inc (GetHeaderExtensions s)))"

section \<open>Lemmas\<close>

definition scan_ok :: "nat \<Rightarrow> guard_scan \<Rightarrow> bool" where
  "scan_ok n g \<longleftrightarrow> (g_ifndef g \<noteq> [] \<longrightarrow> g_ifndef_linenum g < n)
     \<and> (g_endif g \<noteq> [] \<longrightarrow> g_endif_linenum g < n) \<and> (g_endif g = [] \<longrightarrow> g_endif_linenum g = 0)"

lemma scan_ok_mono: "scan_ok n g \<Longrightarrow> n \<le> m \<Longrightarrow> scan_ok m g"
  by (auto simp: scan_ok_def)

lemma scan_ok_step: "scan_ok n g \<Longrightarrow> scan_ok (Suc n) (guard_step n line g)"
  by (auto simp: scan_ok_def guard_step_def Let_def startswith_def)

lemma scan_ok_from: "scan_ok n g \<Longrightarrow> scan_ok (n + length lines) (guard_scan_from n lines g)"
proof (induction lines arbitrary: n g)
  case (Cons line lines)
  from Cons.IH [OF scan_ok_step [OF Cons.prems]] show ?case by simp
qed simp

lemma guard_scan_lines:
  "scan_ok (length lines) (guard_scan_from 0 lines guard_scan_init)"
  using scan_ok_from [of 0 guard_scan_init lines] by (simp add: scan_ok_def guard_scan_init_def)

lemma ParseNolint_total:
  "filters_ok s \<Longrightarrow> \<exists>s'. ParseNolintSuppressions f raw n s = Inr s' \<and> filters_ok s'"
proof -
  assume ok: "filters_ok s"
  have add: "filters_ok (add_suppression k l s)" for k l
    using ok by (simp add: filters_ok_def add_suppression_def)
  from ok add Error_total [OF ok] show ?thesis
    unfolding ParseNolintSuppressions_def Let_def by (auto split: option.splits) metis+
qed

lemma emit_total': "filters_ok s \<Longrightarrow> \<exists>s'. emit f rs s = Inr s' \<and> filters_ok s'"
  using emit_total by blast

lemma parse_then_emit:
  assumes "filters_ok s" and "n < length raw_lines"
  shows "\<exists>s'. bind_result (py_get raw_lines (int n)) (\<lambda>line.
      bind_result (ParseNolintSuppressions f line k s) (emit f rs)) = Inr s' \<and> filters_ok s'"
proof -
  obtain t where "ParseNolintSuppressions f (raw_lines ! n) k s = Inr t" "filters_ok t"
    using ParseNolint_total [OF assms(1)] by blast
  with emit_total' [of t f rs] assms(2) show ?thesis by (simp del: emit.simps)
qed

lemma check_guard_total:
  assumes "filters_ok s"
  shows "\<exists>s'. check_guard filename raw_lines cppvar s = Inr s' \<and> filters_ok s'"
proof -
  define g where "g = guard_scan_from 0 raw_lines guard_scan_init"
  have ok: "scan_ok (length raw_lines) g" unfolding g_def by (rule guard_scan_lines)
  show ?thesis
  proof (cases "g_ifndef g = [] \<or> g_define g = [] \<or> g_ifndef g \<noteq> g_define g")
    case True
    then show ?thesis using emit_total' [OF assms]
      by (simp add: check_guard_def g_def [symmetric] del: emit.simps)
  next
    case False
    with ok have b: "g_ifndef_linenum g < length raw_lines" "g_endif_linenum g < length raw_lines"
      by (auto simp: scan_ok_def)
    define first where "first = (if g_ifndef g \<noteq> cppvar then
        bind_result (py_get raw_lines (int (g_ifndef_linenum g))) (\<lambda>line.
          bind_result (ParseNolintSuppressions filename line (int (g_ifndef_linenum g)) s)
            (emit filename [report (int (g_ifndef_linenum g)) ''build/header_guard''
               (if g_ifndef g \<noteq> cppvar @ ''_'' then 5 else 0)
               (''#ifndef header guard has wrong style, please use: '' @ cppvar)])) else Inr s)"
    have "\<exists>t. first = Inr t \<and> filters_ok t"
      unfolding first_def using parse_then_emit [OF assms b(1)] assms by (simp del: emit.simps)
    then obtain t where t: "first = Inr t" "filters_ok t" by blast
    have "check_guard filename raw_lines cppvar s = bind_result first (\<lambda>s.
        bind_result (py_get raw_lines (int (g_endif_linenum g))) (\<lambda>line.
          bind_result (ParseNolintSuppressions filename line (int (g_endif_linenum g)) s)
            (emit filename (endif_reports raw_lines cppvar (g_endif g) (g_endif_linenum g)))))"
      using False unfolding check_guard_def g_def [symmetric] first_def Let_def by simp
    with t parse_then_emit [OF t(2) b(2)] show ?thesis by (simp del: emit.simps)
  qed
qed

section \<open>Properties\<close>

text \<open>C37. In every state with well-formed filters (which the initial state has, and which reports and
  filter operations keep), when the header guard check returns, it returns normally: the two lines
  it looks up again (the one with \<open>#ifndef\<close> and the one with \<open>#endif\<close>) are always lines of the file, also
  when there is no \<open>#endif\<close> at all, and the filters stay well-formed.\<close>

theorem CheckForHeaderGuard_no_exception:
  assumes "filters_ok s" and "CheckForHeaderGuard fs filename c s = Some r"
  shows "\<exists>s'. r = Inr s' \<and> filters_ok s'"
  using assms check_guard_total by (auto simp: CheckForHeaderGuard_def Let_def split: if_splits)

theorem CheckForHeaderGuard_no_exception_witness:
  "\<exists>r s'. CheckForHeaderGuard \<lparr>path_exists = (\<lambda>p. False), getcwd = ''/w''\<rparr> ''a.h''
      \<lparr>cl_elided = [], cl_lines = [], cl_raw_lines = [], cl_num_lines = 3,
       cl_lines_without_raw_strings = [''#ifndef A'', ''#define A'', ''int a;'']\<rparr> CppLintState_init = Some r
    \<and> r = Inr s'"
proof -
  let ?fs = "\<lparr>path_exists = (\<lambda>p. False), getcwd = ''/w''\<rparr>"
  let ?c = "\<lparr>cl_elided = [], cl_lines = [], cl_raw_lines = [], cl_num_lines = 3,
       cl_lines_without_raw_strings = [''#ifndef A'', ''#define A'', ''int a;'']\<rparr>"
  have "RepositoryName ?fs CppLintState_init f \<noteq> None" for f
    by (simp add: RepositoryName_def Let_def)
  then have "CheckForHeaderGuard ?fs ''a.h'' ?c CppLintState_init \<noteq> None"
    by (simp add: CheckForHeaderGuard_def GetHeaderGuardCPPVariable_def Let_def)
  then obtain r where r: "CheckForHeaderGuard ?fs ''a.h'' ?c CppLintState_init = Some r" by blast
  from CheckForHeaderGuard_no_exception [OF filters_ok_init r] r show ?thesis by blast
qed

end
