(* ===== verification/Style.thy ===== *)
theory Style
  imports Constructs HeaderGuard
begin

text \<open>
  The style checks of a line: braces, trailing semicolons, empty bodies, the assertion macros,
  alternative tokens, and \<open>CheckStyle\<close>, which runs them with the spacing checks. One of them
  reads NOLINT comments of other lines, so it changes the lint state; \<open>CheckStyle\<close> computes the
  header guard name, so it may fail to return.
\<close>

section \<open>Braces\<close>

text \<open>Every character of the model has width one and no combining marks.\<close>

definition GetLineWidth :: "string \<Rightarrow> int" where
  "GetLineWidth line = int (length line)"

definition opening_brace_reports :: "lint \<Rightarrow> cleansed \<Rightarrow> nat \<Rightarrow> string \<Rightarrow> report list result" where
  \<open>opening_brace_reports s c linenum line =
     (if is_match (rx ''`s*{`s*$'') line then
        bind_result (GetPreviousNonBlankLine c linenum) (\<lambda>(prevline, n).
          Inr (report_if (\<not> is_found (rx ''[,;:}{(]`s*$'') prevline \<and> \<not> is_match (rx ''`s*#'') prevline
                \<and> \<not> (GetLineWidth prevline > line_length s - 2 \<and> contains prevline ''[]''))
            (report (int linenum) ''whitespace/braces'' 4
               ''{ should almost always be at the end of the previous line'')))
      else Inr [])\<close>

definition else_after_brace_reports :: "cleansed \<Rightarrow> nat \<Rightarrow> string \<Rightarrow> report list result" where
  \<open>else_after_brace_reports c linenum line =
     (if is_match (rx ''`s*else`b`s*(?:if`b|`{|$)'') line then
        bind_result (GetPreviousNonBlankLine c linenum) (\<lambda>(prevline, n).
          Inr (report_if (is_match (rx ''`s*}`s*$'') prevline)
            (report (int linenum) ''whitespace/newline'' 4
               ''An else should appear on the same line as the preceding }'')))
      else Inr [])\<close>

definition ELSE_BRACE_MESSAGE :: string where
  "ELSE_BRACE_MESSAGE = ''If an else has a brace on one side, it should have it on both''"

definition else_brace_reports :: "cleansed \<Rightarrow> nat \<Rightarrow> string \<Rightarrow> report list result" where
  \<open>else_brace_reports c linenum line =
     (if is_found (rx ''else if`s*`('') line then
        (let brace_on_left = is_found (rx ''}`s*else if`s*`('') line;
             pos = py_find_from line ''('' (nat (py_find line ''else if''))
         in if pos > 0 then
              bind_result (CloseExpression c linenum (nat pos)) (\<lambda>(endline, n, endpos).
                let brace_on_right = (py_find (py_from endline endpos) ''{'' \<noteq> -1) in
                Inr (report_if (brace_on_left \<noteq> brace_on_right)
                  (report (int linenum) ''readability/braces'' 5 ELSE_BRACE_MESSAGE)))
            else Inr [])
      else Inr (report_if (is_found (rx ''}`s*else[^{]*$'') line \<or> is_match (rx ''[^}]*else`s*{'') line)
        (report (int linenum) ''readability/braces'' 5 ELSE_BRACE_MESSAGE)))\<close>

definition one_line_reports :: "string \<Rightarrow> nat \<Rightarrow> report list" where
  \<open>one_line_reports line linenum =
     report_if (is_found (rx ''`belse [^`s{]'') line \<and> \<not> is_found (rx ''`belse if`b'') line)
       (report (int linenum) ''whitespace/newline'' 4
          ''Else clause should never be on same line as else (use 2 lines)'') @
     report_if (is_match (rx ''`s*do [^`s{]'') line)
       (report (int linenum) ''whitespace/newline'' 4 ''do/while clauses should not be on a single line'')\<close>

text \<open>The line with the first semicolon, from \<open>endpos\<close> on in the first line.\<close>

fun semicolon_line :: "nat \<Rightarrow> int \<Rightarrow> string list \<Rightarrow> (nat \<times> string) option" where
  "semicolon_line n endpos [] = None"
| "semicolon_line n endpos (line # lines) =
     (if CHR '';'' \<in> set (py_from line endpos) then Some (n, line) else semicolon_line (Suc n) 0 lines)"

definition MULTI_STATEMENT_MESSAGE :: string where
  "MULTI_STATEMENT_MESSAGE = ''If/else bodies with multiple statements require braces''"

definition single_body_reports :: "cleansed \<Rightarrow> nat \<Rightarrow> bool \<Rightarrow> nat \<Rightarrow> nat \<times> string \<Rightarrow> report list" where
  \<open>single_body_reports c linenum has_if if_indent body =
     (let (endlinenum, endline) = body; tail = py_from endline (py_find endline '';'') in
      if \<not> is_match (rx '';[`s}]*(``?)$'') tail then
        report_if (\<not> is_match (rx ''^[^{};]*`[[^`[`]]*`][^{}]*`{[^{}]*`}`s*`)*[;,]`s*$'') endline)
          (report (int linenum) ''readability/braces'' 4 MULTI_STATEMENT_MESSAGE)
      else if endlinenum + 1 < length (cl_elided c) then
        (let next_line = cl_elided c ! (endlinenum + 1); next_indent = GetIndentLevel next_line in
         if has_if \<and> is_match (rx ''`s*else`b'') next_line \<and> next_indent \<noteq> if_indent then
           [report (int linenum) ''readability/braces'' 4
              (''Else clause should be indented at the same level as if. '' @
               ''Ambiguous nested if/else chains require braces.'')]
         else report_if (next_indent > if_indent)
           (report (int linenum) ''readability/braces'' 4 MULTI_STATEMENT_MESSAGE))
      else [])\<close>

definition if_else_reports :: "cleansed \<Rightarrow> nat \<Rightarrow> string \<Rightarrow> report list result" where
  \<open>if_else_reports c linenum line =
     (case Search (rx ''`b(if`s*`(|else`b)'') line of
        None \<Rightarrow> Inr []
      | Some if_else_match \<Rightarrow>
          if is_match (rx ''`s*#'') line then Inr []
          else
            (let if_match = Search (rx ''`bif`s*`('') line in
             bind_result
               (case if_match of
                  None \<Rightarrow> Inr (line, linenum, int (m_end if_else_match))
                | Some m \<Rightarrow> CloseExpression c linenum (m_end m - 1)) (\<lambda>(endline, endlinenum, endpos).
               if is_match (rx ''`s*{'') (py_from endline endpos) then Inr []
               else if is_match (rx ''`s*$'') (py_from endline endpos) \<and> endlinenum + 1 < length (cl_elided c)
                 \<and> is_match (rx ''`s*{'') (cl_elided c ! (endlinenum + 1)) then Inr []
               else Inr (case semicolon_line endlinenum endpos (drop endlinenum (cl_elided c)) of
                           None \<Rightarrow> []
                         | Some body \<Rightarrow> single_body_reports c linenum (if_match \<noteq> None) (GetIndentLevel line) body))))\<close>

definition CheckBraces :: "lint \<Rightarrow> cleansed \<Rightarrow> nat \<Rightarrow> report list result" where
  "CheckBraces s c linenum =
     with_elided c linenum (\<lambda>line.
       bind_result (opening_brace_reports s c linenum line) (\<lambda>rs1.
       bind_result (else_after_brace_reports c linenum line) (\<lambda>rs2.
       bind_result (else_brace_reports c linenum line) (\<lambda>rs3.
       bind_result (if_else_reports c linenum line) (\<lambda>rs4.
         Inr (rs1 @ rs2 @ rs3 @ one_line_reports line linenum @ rs4))))))"

section \<open>Trailing semicolons\<close>

definition SAFE_MACROS :: "string list" where
  "SAFE_MACROS = [''TEST'', ''TEST_F'', ''MATCHER'', ''MATCHER_P'', ''TYPED_TEST'',
     ''EXCLUSIVE_LOCKS_REQUIRED'', ''SHARED_LOCKS_REQUIRED'', ''LOCKS_EXCLUDED'', ''INTERFACE_DEF'']"

text \<open>What comes before the parentheses excludes a function or control statement.\<close>

definition not_a_function :: "string \<Rightarrow> bool" where
  \<open>not_a_function line_prefix \<longleftrightarrow>
     (case Search (rx ''`b([A-Z_][A-Z0-9_]*)`s*$'') line_prefix of
        Some macro \<Rightarrow> grp macro 1 \<notin> set SAFE_MACROS | None \<Rightarrow> False)
     \<or> (case Match (rx ''^(.*`])`s*$'') line_prefix of
          Some func \<Rightarrow> \<not> is_found (rx ''`boperator`s*`[`s*`]'') (grp func 1) | None \<Rightarrow> False)
     \<or> is_found (rx ''`b(?:struct|union)`s+alignas`s*$'') line_prefix
     \<or> is_found (rx ''`bdecltype$'') line_prefix
     \<or> is_found (rx ''`s+=`s*$'') line_prefix\<close>

text \<open>The column of an opening brace that may not be followed by a semicolon after its block.\<close>

definition block_brace :: "cleansed \<Rightarrow> nat \<Rightarrow> string \<Rightarrow> nat option result" where
  \<open>block_brace c linenum line =
     (case Match (rx ''^(.*`)`s*)`{'') line of
        Some match \<Rightarrow>
          bind_result (ReverseCloseExpression c linenum (nat (py_rfind (grp match 1) (CHR '')'')))) (\<lambda>(txt, n, pos).
            if pos > -1 \<and> not_a_function (py_upto txt pos) then Inr None
            else if n > 1 then
              with_elided c (n - 1) (\<lambda>above.
                Inr (if is_found (rx ''`]`s*$'') above then None else Some (length (grp match 1))))
            else Inr (Some (length (grp match 1))))
      | None \<Rightarrow>
          (case Match (rx ''^(.*(?:else|`)`s*const)`s*)`{'') line of
             Some match \<Rightarrow> Inr (Some (length (grp match 1)))
           | None \<Rightarrow>
               bind_result (GetPreviousNonBlankLine c linenum) (\<lambda>(prevline, n).
                 Inr (if prevline \<noteq> [] \<and> is_found (rx ''[;{}]`s*$'') prevline
                      then map_option (\<lambda>match. length (grp match 1)) (Match (rx ''^(`s*)`{'') line)
                      else None))))\<close>

definition CheckTrailingSemicolon :: "string \<Rightarrow> cleansed \<Rightarrow> nat \<Rightarrow> lint \<Rightarrow> lint result" where
  \<open>CheckTrailingSemicolon filename c linenum s =
     with_elided c linenum (\<lambda>line.
       bind_result (block_brace c linenum line) (\<lambda>brace.
         case brace of
           None \<Rightarrow> Inr s
         | Some pos \<Rightarrow>
             bind_result (CloseExpression c linenum pos) (\<lambda>(endline, endlinenum, endpos).
               if endpos > -1 \<and> is_match (rx ''^`s*;'') (py_from endline endpos) then
                 with_line (cl_raw_lines c) (int endlinenum - 1) (\<lambda>raw_above.
                 bind_result (ParseNolintSuppressions filename raw_above (int endlinenum - 1) s) (\<lambda>s.
                 with_line (cl_raw_lines c) (int endlinenum) (\<lambda>raw.
                 bind_result (ParseNolintSuppressions filename raw (int endlinenum) s) (\<lambda>s.
                   emit filename [report (int endlinenum) ''readability/braces'' 4
                     ''You don\'t need a ; after a }''] s))))
               else Inr s)))\<close>

section \<open>Empty bodies\<close>

text \<open>The line and text with the opening brace, unless other code comes first.\<close>

fun find_opening :: "nat \<Rightarrow> string \<Rightarrow> string list \<Rightarrow> (nat \<times> string) option" where
  \<open>find_opening n fragment lines =
     (if is_found (rx ''^`s*`{'') fragment then Some (n, fragment)
      else if is_found (rx ''^(?!`s*$)'') fragment then None
      else (case lines of [] \<Rightarrow> None | l # ls \<Rightarrow> find_opening (Suc n) l ls))\<close>

declare find_opening.simps [simp del]

fun no_else_clause :: "string \<Rightarrow> string list \<Rightarrow> bool" where
  \<open>no_else_clause fragment lines =
     (if is_found (rx ''^`s*$|^(?=`s*else)'') fragment then
        (if is_found (rx ''^(?=`s*else)'') fragment then False
         else (case lines of [] \<Rightarrow> True | l # ls \<Rightarrow> no_else_clause l ls))
      else True)\<close>

declare no_else_clause.simps [simp del]

definition if_body :: "cleansed \<Rightarrow> nat \<Rightarrow> int \<Rightarrow> nat \<Rightarrow> int \<Rightarrow> string result" where
  "if_body c opening_linenum opening_pos closing_linenum closing_pos =
     with_elided c opening_linenum (\<lambda>opening_line.
       if closing_linenum > opening_linenum then
         with_elided c closing_linenum (\<lambda>closing_line.
           Inr (join_with [CHR 0x0A]
             (map (\<lambda>ch. [ch]) (py_from opening_line (opening_pos + 1)) @
              py_slice (cl_raw_lines c) (int opening_linenum + 1) (int closing_linenum) @
              [py_upto closing_line (closing_pos - 1)])))
       else Inr (py_slice opening_line (opening_pos + 1) (closing_pos - 1)))"

definition empty_if_reports :: "cleansed \<Rightarrow> string \<Rightarrow> nat \<Rightarrow> int \<Rightarrow> report list result" where
  \<open>empty_if_reports c end_line end_linenum end_pos =
     (case find_opening end_linenum (py_from end_line end_pos) (drop (end_linenum + 1) (cl_elided c)) of
        None \<Rightarrow> Inr []
      | Some (opening_linenum, fragment) \<Rightarrow>
          (let opening_pos = py_find fragment ''{'' + (if opening_linenum = end_linenum then end_pos else 0) in
           bind_result (CloseExpression c opening_linenum (nat opening_pos)) (\<lambda>(closing_line, closing_linenum, closing_pos).
             if closing_pos < 0 then Inr []
             else
               with_line (cl_raw_lines c) (int opening_linenum) (\<lambda>raw.
                 if raw \<noteq> CleanseComments raw then Inr []
                 else
                   bind_result (if_body c opening_linenum opening_pos closing_linenum closing_pos) (\<lambda>body.
                     Inr (report_if (is_found EMPTY_CONDITIONAL_BODY_PATTERN body
                           \<and> no_else_clause (py_from closing_line closing_pos) (drop (closing_linenum + 1) (cl_elided c)))
                       (report (int end_linenum) ''whitespace/empty_if_body'' 4
                          ''If statement had no body and no else clause'')))))))\<close>

definition CheckEmptyBlockBody :: "cleansed \<Rightarrow> nat \<Rightarrow> report list result" where
  \<open>CheckEmptyBlockBody c linenum =
     with_elided c linenum (\<lambda>line.
       case Match (rx ''`s*(for|while|if)`s*`('') line of
         None \<Rightarrow> Inr []
       | Some matched \<Rightarrow>
           bind_result (CloseExpression c linenum (nat (py_find line ''(''))) (\<lambda>(end_line, end_linenum, end_pos).
             if end_pos < 0 then Inr []
             else
               let rs = (if \<not> is_match '';'' (py_from end_line end_pos) then []
                         else if grp matched 1 = ''if''
                         then [report (int end_linenum) ''whitespace/empty_conditional_body'' 5
                                 ''Empty conditional bodies should use {}'']
                         else [report (int end_linenum) ''whitespace/empty_loop_body'' 5
                                 ''Empty loop bodies should use {} or continue''])
               in if grp matched 1 = ''if'' then
                    bind_result (empty_if_reports c end_line end_linenum end_pos) (\<lambda>rs'. Inr (rs @ rs'))
                  else Inr rs))\<close>

section \<open>Assertion macros\<close>

fun find_macro :: "string \<Rightarrow> string list \<Rightarrow> (string \<times> nat) option" where
  \<open>find_macro line [] = None\<close>
| \<open>find_macro line (macro # macros) =
     (if py_find line macro \<ge> 0 then
        (case Match (rx ''^(.*`b'' @ macro @ rx ''`s*)`('') line of
           None \<Rightarrow> find_macro line macros
         | Some matched \<Rightarrow> Some (macro, length (grp matched 1)))
      else find_macro line macros)\<close>

text \<open>\<open>None\<close> for \<open>(None, -1)\<close>.\<close>

definition FindCheckMacro :: "string \<Rightarrow> (string \<times> nat) option" where
  "FindCheckMacro line = find_macro line CHECK_MACROS"

definition TOKEN_PATTERN :: string where
  \<open>TOKEN_PATTERN = rx ''^`s*(<<|<<=|>>|>>=|->`*|->|&&|`|`||'' @ rx ''==|!=|>=|>|<=|<|`()(.*)$''\<close>

definition OPERAND_PATTERN :: string where
  \<open>OPERAND_PATTERN = ''^([^-=!<>()&|]+)(.*)$''\<close>

definition OPERAND_CHAR_PATTERN :: string where
  \<open>OPERAND_CHAR_PATTERN = rx ''^(`s*`S)(.*)$''\<close>

lemma operand_widths:
  "tail_width TOKEN_PATTERN 2 = Some 1" "tail_width OPERAND_PATTERN 2 = Some 1"
  "tail_width OPERAND_CHAR_PATTERN 2 = Some 1"
  by code_simp+

lemma operand_less:
  "Match TOKEN_PATTERN e = Some m \<Longrightarrow> length (grp m 2) < length e"
  "Match TOKEN_PATTERN e = Some m \<Longrightarrow> length (py_from (grp m 2) i) < length e"
  "Match OPERAND_PATTERN e = Some m \<Longrightarrow> length (grp m 2) < length e"
  "Match OPERAND_CHAR_PATTERN e = Some m \<Longrightarrow> length (grp m 2) < length e"
  using operand_widths [THEN tail_width_bound, of e m] length_py_from [of "grp m 2" i] by linarith+

text \<open>
  The scan of the expression: \<open>None\<close> where the source returns, and otherwise the left-hand side,
  the operator with the right-hand side when one is found.
\<close>

function scan_condition :: "string \<Rightarrow> string \<Rightarrow> (string \<times> (string \<times> string) option) option" where
  \<open>scan_condition lhs expression =
     (if expression = [] then Some (lhs, None)
      else (case Match TOKEN_PATTERN expression of
         Some matched \<Rightarrow>
           (let token = grp matched 1; rest = grp matched 2 in
            if token = ''('' then
              (let end = fst (FindEndOfExpressionInLine rest 0 [CHR ''('']) in
               if end < 0 then None
               else scan_condition (lhs @ ''('' @ py_upto rest end) (py_from rest end))
            else if token = ''&&'' \<or> token = ''||'' then None
            else if token \<in> {''<<'', ''<<='', ''>>'', ''>>='', ''->*'', ''->''} then scan_condition (lhs @ token) rest
            else Some (lhs, Some (token, rest)))
       | None \<Rightarrow>
           (case Match OPERAND_PATTERN expression of
              Some matched \<Rightarrow> scan_condition (lhs @ grp matched 1) (grp matched 2)
            | None \<Rightarrow>
                (case Match OPERAND_CHAR_PATTERN expression of
                   Some matched \<Rightarrow> scan_condition (lhs @ grp matched 1) (grp matched 2)
                 | None \<Rightarrow> Some (lhs, None)))))\<close>
  by pat_completeness auto

termination scan_condition
  by (relation "measure (\<lambda>(lhs, e). length e)") (simp_all add: operand_less)

declare scan_condition.simps [simp del]

definition CONSTANT_PATTERN :: string where
  \<open>CONSTANT_PATTERN = rx ''^([-+]?(`d+|0[xX][0-9a-fA-F]+)[lLuU]{0,3}|".*"|'' @ quote1 @ ''.*'' @ quote1 @ '')$''\<close>

definition condition_text :: "cleansed \<Rightarrow> nat \<Rightarrow> nat \<Rightarrow> string \<times> nat \<times> int \<Rightarrow> string result" where
  "condition_text c linenum start_pos e =
     (case e of (end_text, end_line, end_pos) \<Rightarrow>
        with_elided c linenum (\<lambda>line.
          if linenum = end_line then Inr (py_slice line (int start_pos + 1) (end_pos - 1))
          else bind_result (get_lines (cl_elided c) [linenum + 1..<end_line]) (\<lambda>ls.
            Inr (py_from line (int start_pos + 1) @ concat ls @ py_upto end_text (end_pos - 1)))))"

definition check_report :: "string \<Rightarrow> nat \<Rightarrow> string \<Rightarrow> report list result" where
  \<open>check_report check_macro linenum expression =
     (case scan_condition [] expression of
        Some (lhs, Some (operator, rhs)) \<Rightarrow>
          if lhs = [] \<or> rhs = [] \<or> contains rhs ''&&'' \<or> contains rhs ''||'' then Inr []
          else if is_match CONSTANT_PATTERN (py_strip lhs) \<or> is_match CONSTANT_PATTERN (py_strip rhs) then
            (case CHECK_REPLACEMENT check_macro operator of
               None \<Rightarrow> Inl KeyError
             | Some replacement \<Rightarrow>
                 Inr [report (int linenum) ''readability/check'' 2
                        (''Consider using '' @ replacement @ '' instead of '' @ check_macro @ ''(a '' @ operator @ '' b)'')])
          else Inr []
      | _ \<Rightarrow> Inr [])\<close>

definition CheckCheck :: "cleansed \<Rightarrow> nat \<Rightarrow> report list result" where
  \<open>CheckCheck c linenum =
     with_elided c linenum (\<lambda>line.
       case FindCheckMacro line of
         None \<Rightarrow> Inr []
       | Some (check_macro, start_pos) \<Rightarrow>
           bind_result (CloseExpression c linenum start_pos) (\<lambda>(end_text, end_line, end_pos).
             if end_pos < 0 \<or> \<not> is_match (rx ''`s*;'') (py_from end_text end_pos) then Inr []
             else bind_result (condition_text c linenum start_pos (end_text, end_line, end_pos))
                    (check_report check_macro linenum)))\<close>

section \<open>Alternative tokens\<close>

definition CheckAltTokens :: "cleansed \<Rightarrow> nat \<Rightarrow> report list result" where
  \<open>CheckAltTokens c linenum =
     with_elided c linenum (\<lambda>line.
       if is_match (rx ''^`s*#'') line \<or> py_find line ''/*'' \<ge> 0 \<or> py_find line ''*/'' \<ge> 0 then Inr []
       else
         (case re_compile no_flags ALT_TOKEN_REPLACEMENT_PATTERN of
            None \<Rightarrow> Inl (ValueError ''re.error'')
          | Some fr \<Rightarrow>
              map_result (\<lambda>match.
                case map_of ALT_TOKEN_REPLACEMENT (grp match 1) of
                  None \<Rightarrow> Inl KeyError
                | Some replacement \<Rightarrow>
                    Inr (report (int linenum) ''readability/alt_tokens'' 2
                      (''Use operator '' @ replacement @ '' instead of '' @ grp match 1)))
                (re_finditer fr line)))\<close>

section \<open>The style of a line\<close>

text \<open>A check that only reports, and checks one after the other.\<close>

definition reporting :: "string \<Rightarrow> report list result \<Rightarrow> lint \<Rightarrow> lint result" where
  "reporting filename check s = bind_result check (\<lambda>rs. emit filename rs s)"

fun run_checks :: "(lint \<Rightarrow> lint result) list \<Rightarrow> lint \<Rightarrow> lint result" where
  "run_checks [] s = Inr s"
| "run_checks (check # checks) s = bind_result (check s) (run_checks checks)"

definition layout_reports :: "string \<Rightarrow> string \<Rightarrow> string \<Rightarrow> string \<Rightarrow> nat \<Rightarrow> report list" where
  \<open>layout_reports line prev raw cleansed_line linenum =
     report_if (CHR 0x09 \<in> set line)
       (report (int linenum) ''whitespace/tab'' 1 ''Tab found; better to use spaces'') @
     report_if (\<not> is_found ''[",=><] *$'' prev
           \<and> length (takeWhile (\<lambda>ch. ch = CHR '' '') line) \<in> {1, 3}
           \<and> \<not> is_match (rx ''`s*`w+`s*:`s*``?$'') cleansed_line
           \<and> \<not> (raw \<noteq> line \<and> is_match (rx ''^`s*""'') line))
       (report (int linenum) ''whitespace/indent'' 3
          (''Weird number of spaces at line-start.  '' @ ''Are you using a 2-space indent?'')) @
     report_if (line \<noteq> [] \<and> is_space (last line))
       (report (int linenum) ''whitespace/end_of_line'' 4
          ''Line ends in whitespace.  Consider deleting these extra spaces.'')\<close>

definition is_header_guard :: "string option \<Rightarrow> string \<Rightarrow> bool" where
  "is_header_guard cppvar line \<longleftrightarrow>
     (case cppvar of
        None \<Rightarrow> False
      | Some v \<Rightarrow> startswith line (''#ifndef '' @ v) \<or> startswith line (''#define '' @ v)
                 \<or> startswith line (''#endif  // '' @ v))"

definition length_reports :: "lint \<Rightarrow> string option \<Rightarrow> string \<Rightarrow> nat \<Rightarrow> report list" where
  \<open>length_reports s cppvar line linenum =
     report_if (\<not> startswith line ''#include'' \<and> \<not> is_header_guard cppvar line
           \<and> \<not> is_match (rx ''^`s*//.*http(s?)://`S*$'') line
           \<and> \<not> is_match (rx ''^`s*//`s*[^`s]*$'') line
           \<and> \<not> is_match (rx ''^// `$Id:.*#[0-9]+ `$$'') line
           \<and> \<not> is_match (rx ''^`s*/// [@``](copydoc|copydetails|copybrief) .*$'') line
           \<and> GetLineWidth line > line_length s)
       (report (int linenum) ''whitespace/line_length'' 2
          (''Lines should be <= '' @ str_int (line_length s) @ '' characters long''))\<close>

definition command_reports :: "cleansed \<Rightarrow> nat \<Rightarrow> string \<Rightarrow> string \<Rightarrow> report list result" where
  \<open>command_reports c linenum line cleansed_line =
     (if py_count cleansed_line '';'' > 1
         \<and> \<not> is_match (rx ''^[^{};]*`[[^`[`]]*`][^{}]*`{[^{}`n`r]*`}'') line
         \<and> py_find cleansed_line ''for'' = -1 then
        bind_result (GetPreviousNonBlankLine c linenum) (\<lambda>(prevline, n).
          Inr (report_if ((py_find prevline ''for'' = -1 \<or> py_find prevline '';'' \<noteq> -1)
                \<and> \<not> ((py_find cleansed_line ''case '' \<noteq> -1 \<or> py_find cleansed_line ''default:'' \<noteq> -1)
                       \<and> py_find cleansed_line ''break;'' \<noteq> -1))
            (report (int linenum) ''whitespace/newline'' 0 ''More than one command on the same line'')))
      else Inr [])\<close>

definition line_style_reports :: "lint \<Rightarrow> cleansed \<Rightarrow> nat \<Rightarrow> string option \<Rightarrow> report list result" where
  "line_style_reports s c linenum cppvar =
     with_line (cl_lines_without_raw_strings c) (int linenum) (\<lambda>line.
     bind_result (if linenum > 0 then py_get (cl_lines_without_raw_strings c) (int linenum - 1) else Inr []) (\<lambda>prev.
     with_elided c linenum (\<lambda>cleansed_line.
     with_line (cl_raw_lines c) (int linenum) (\<lambda>raw.
     bind_result (command_reports c linenum line cleansed_line) (\<lambda>rs.
       Inr (layout_reports line prev raw cleansed_line linenum @ length_reports s cppvar line linenum @ rs))))))"

definition section_spacing_reports :: "cleansed \<Rightarrow> nat \<Rightarrow> nesting \<Rightarrow> report list result" where
  "section_spacing_reports c linenum st =
     (case InnermostClass st of
        None \<Rightarrow> Inr []
      | Some b \<Rightarrow> (case blk_kind b of ClassBlock ci \<Rightarrow> CheckSectionSpacing c b ci linenum | _ \<Rightarrow> Inr []))"

definition style_checks :: "string \<Rightarrow> cleansed \<Rightarrow> nat \<Rightarrow> nesting \<Rightarrow> string option \<Rightarrow> (lint \<Rightarrow> lint result) list" where
  "style_checks filename c linenum st cppvar =
     [\<lambda>s. reporting filename (line_style_reports s c linenum cppvar) s,
      \<lambda>s. reporting filename (CheckBraces s c linenum) s,
      CheckTrailingSemicolon filename c linenum,
      reporting filename (CheckEmptyBlockBody c linenum),
      reporting filename (CheckSpacing c linenum st),
      reporting filename (CheckOperatorSpacing c linenum),
      reporting filename (CheckParenthesisSpacing c linenum),
      reporting filename (CheckCommaSpacing c linenum),
      reporting filename (CheckBracesSpacing c linenum st),
      reporting filename (CheckSpacingForFunctionCall c linenum),
      reporting filename (CheckCheck c linenum),
      reporting filename (CheckAltTokens c linenum),
      reporting filename (section_spacing_reports c linenum st)]"

definition CheckStyle ::
    "fsys \<Rightarrow> string \<Rightarrow> cleansed \<Rightarrow> nat \<Rightarrow> string \<Rightarrow> nesting \<Rightarrow> lint \<Rightarrow> lint outcome" where
  "CheckStyle fs filename c linenum file_extension st s =
     bind_outcome
       (if IsHeaderExtension s file_extension
        then bind_outcome (may_diverge (GetHeaderGuardCPPVariable fs s filename)) (\<lambda>v. ret (Some v))
        else ret None) (\<lambda>cppvar.
       Some (run_checks (style_checks filename c linenum st cppvar) s))"

end
