(* ===== verification/Includes.thy ===== *)
theory Includes
  imports HeaderGuard "HOL-Library.Product_Lexorder"
begin

text \<open>
  The checks of includes: the kind of a header relative to the file (\<open>_ClassifyInclude\<close>), the
  rules for an include line (\<open>CheckIncludeLine\<close>), the files of a module
  (\<open>FilesBelongToSameModule\<close>) and the headers a file must include for the library names it uses
  (\<open>CheckForIncludeWhatYouUse\<close>). The contents of files are a parameter: \<open>read name\<close> is the
  decoded text of the file, or \<open>None\<close> where \<open>io.open\<close> raises \<open>IOError\<close>. As repository names are
  looked up, everything here may fail to return.
\<close>

section \<open>The kind of a header\<close>

definition common_suffixes :: "lint \<Rightarrow> string list" where
  "common_suffixes s =
     concat (map (\<lambda>test_suffix. map (\<lambda>ext. lstrip_char (CHR ''_'') test_suffix @ ''.'' @ ext) (GetNonHeaderExtensions s))
               TEST_SUFFIXES) @
     concat (map (\<lambda>sfx. map (\<lambda>ext. sfx @ ''.'' @ ext) (GetHeaderExtensions s)) [''inl'', ''imp'', ''internal''])"

fun drop_suffix :: "string \<Rightarrow> string list \<Rightarrow> string" where
  "drop_suffix filename [] = fst (path_splitext filename)"
| "drop_suffix filename (sfx # sfxs) =
     (if endswith filename sfx \<and> length filename > length sfx
         \<and> filename ! (length filename - length sfx - 1) \<in> {CHR ''-'', CHR ''_''}
      then take (length filename - length sfx - 1) filename
      else drop_suffix filename sfxs)"

definition DropCommonSuffixes :: "lint \<Rightarrow> string \<Rightarrow> string" where
  "DropCommonSuffixes s filename = drop_suffix filename (common_suffixes s)"

definition ClassifyInclude :: "fsys \<Rightarrow> lint \<Rightarrow> string \<Rightarrow> string \<Rightarrow> bool \<Rightarrow> header_type option" where
  "ClassifyInclude fs s fileinfo include is_system =
     (let is_cpp_h = include \<in> set CPP_HEADERS;
          is_system = (is_system \<and> snd (path_splitext include) \<notin> {''.hpp'', ''.hxx'', ''.h++''})
      in if is_system then Some (if is_cpp_h then CPP_SYS_HEADER else C_SYS_HEADER)
         else map_option (\<lambda>name.
           let (target_dir, target_base) = path_split (DropCommonSuffixes s name);
               (include_dir, include_base) = path_split (DropCommonSuffixes s include);
               target_dir_pub = py_replace (path_normpath (target_dir @ ''/../public'')) [CHR 0x5C] ''/''
           in if target_base = include_base \<and> (include_dir = target_dir \<or> include_dir = target_dir_pub)
              then LIKELY_MY_HEADER
              else (case (Match RE_FIRST_COMPONENT target_base, Match RE_FIRST_COMPONENT include_base) of
                      (Some t, Some i) \<Rightarrow> if m_text t = m_text i then POSSIBLE_MY_HEADER else OTHER_HEADER
                    | _ \<Rightarrow> OTHER_HEADER))
           (RepositoryName fs s fileinfo))"

section \<open>Include lines\<close>

definition INCLUDE_H_PATTERN :: string where
  \<open>INCLUDE_H_PATTERN = rx ''#include`s*"([^/]+`.h)"''\<close>

definition include_subdir_reports :: "string \<Rightarrow> nat \<Rightarrow> report list" where
  "include_subdir_reports line linenum =
     (case Match INCLUDE_H_PATTERN line of
        None \<Rightarrow> []
      | Some match \<Rightarrow>
          if is_match THIRD_PARTY_HEADERS_PATTERN (grp match 1) then []
          else [report (int linenum) ''build/include_subdir'' 4 ''Include the directory when naming .h files''])"

text \<open>The extension with which a source file of another package is included.\<close>

fun foreign_source :: "fsys \<Rightarrow> lint \<Rightarrow> string \<Rightarrow> string \<Rightarrow> string list \<Rightarrow> string option option" where
  "foreign_source fs s filename include [] = Some None"
| "foreign_source fs s filename include (extension # exts) =
     (if endswith include (''.'' @ extension) then
        (case RepositoryName fs s filename of
           None \<Rightarrow> None
         | Some name \<Rightarrow>
             if path_dirname name \<noteq> path_dirname include then Some (Some extension)
             else foreign_source fs s filename include exts)
      else foreign_source fs s filename include exts)"

text \<open>Whether the include names a header of the file itself.\<close>

fun own_header :: "fsys \<Rightarrow> lint \<Rightarrow> string \<Rightarrow> string \<Rightarrow> string list \<Rightarrow> bool option" where
  "own_header fs s filename include [] = Some False"
| "own_header fs s filename include (ext # exts) =
     (case Extension fs s filename of
        None \<Rightarrow> None
      | Some ext0 \<Rightarrow>
          (case RepositoryName fs s (py_slice filename 0 (int (length filename) - int (length ext0)) @ ''.'' @ ext) of
             None \<Rightarrow> None
           | Some headername \<Rightarrow>
               if contains include headername \<or> contains headername include then Some True
               else own_header fs s filename include exts))"

text \<open>An include that is recorded: its place in the order and its alphabetical place.\<close>

definition record_include ::
    "fsys \<Rightarrow> lint \<Rightarrow> string \<Rightarrow> cleansed \<Rightarrow> nat \<Rightarrow> string \<Rightarrow> bool \<Rightarrow> include_state \<Rightarrow> (report list \<times> include_state) outcome" where
  \<open>record_include fs s filename c linenum include is_system inc =
     bind_outcome (Some (append_include include (int linenum) inc)) (\<lambda>inc.
     bind_outcome (may_diverge (ClassifyInclude fs s filename include is_system)) (\<lambda>kind.
       let (error_message, inc) = CheckNextIncludeOrder kind inc in
     bind_outcome
       (if error_message = [] then ret []
        else bind_outcome (may_diverge (BaseName fs s filename)) (\<lambda>base.
          ret [report (int linenum) ''build/include_order'' 4
                 (error_message @ ''. Should be: '' @ base @ ''.h, c system, c++ system, other.'')])) (\<lambda>rs.
       let canonical_include = CanonicalizeAlphabeticalOrder include in
     bind_outcome (Some (IsInAlphabeticalOrder (cl_elided c) (int linenum) canonical_include inc)) (\<lambda>ordered.
       ret (rs @ (if ordered then [] else
                    [report (int linenum) ''build/include_alpha'' 4
                       (''Include "'' @ include @ ''" not in alphabetical order'')]),
            SetLastHeader canonical_include inc)))))\<close>

definition CheckIncludeLine ::
    "fsys \<Rightarrow> lint \<Rightarrow> string \<Rightarrow> cleansed \<Rightarrow> nat \<Rightarrow> include_state \<Rightarrow> (report list \<times> include_state) outcome" where
  \<open>CheckIncludeLine fs s filename c linenum inc =
     bind_outcome (Some (py_get (cl_lines c) (int linenum))) (\<lambda>line.
       let rs = include_subdir_reports line linenum in
       case Search RE_PATTERN_INCLUDE line of
         None \<Rightarrow> ret (rs, inc)
       | Some match \<Rightarrow>
           (let include = grp match 2; is_system = (grp match 1 = ''<'');
                duplicate_line = FindHeader include inc
            in if duplicate_line \<ge> 0 then
                 ret (rs @ [report (int linenum) ''build/include'' 4
                        (''"'' @ include @ ''" already included at '' @ filename @ '':'' @ str_int duplicate_line)], inc)
               else
                 bind_outcome (may_diverge (foreign_source fs s filename include (GetNonHeaderExtensions s))) (\<lambda>foreign.
                   case foreign of
                     Some extension \<Rightarrow>
                       ret (rs @ [report (int linenum) ''build/include'' 4
                              (''Do not include .'' @ extension @ '' files from other packages'')], inc)
                   | None \<Rightarrow>
                       bind_outcome (may_diverge (own_header fs s filename include (GetHeaderExtensions s))) (\<lambda>third_src_header.
                         if third_src_header \<or> \<not> is_match THIRD_PARTY_HEADERS_PATTERN include then
                           bind_outcome (record_include fs s filename c linenum include is_system inc)
                             (\<lambda>(rs', inc'). ret (rs @ rs', inc'))
                         else ret (rs, inc)))))\<close>

section \<open>Library names and their headers\<close>

definition HEADERS_CONTAINING_TEMPLATES :: "(string \<times> string list) list" where
  "HEADERS_CONTAINING_TEMPLATES =
     [(''<deque>'', [''deque'']),
      (''<functional>'', [''unary_function'', ''binary_function'', ''plus'', ''minus'',
          ''multiplies'', ''divides'', ''modulus'', ''negate'', ''equal_to'', ''not_equal_to'',
          ''greater'', ''less'', ''greater_equal'', ''less_equal'', ''logical_and'', ''logical_or'',
          ''logical_not'', ''unary_negate'', ''not1'', ''binary_negate'', ''not2'', ''bind1st'',
          ''bind2nd'', ''pointer_to_unary_function'', ''pointer_to_binary_function'', ''ptr_fun'',
          ''mem_fun_t'', ''mem_fun'', ''mem_fun1_t'', ''mem_fun1_ref_t'', ''mem_fun_ref_t'',
          ''const_mem_fun_t'', ''const_mem_fun1_t'', ''const_mem_fun_ref_t'',
          ''const_mem_fun1_ref_t'', ''mem_fun_ref'']),
      (''<limits>'', [''numeric_limits'']),
      (''<list>'', [''list'']),
      (''<map>'', [''multimap'']),
      (''<memory>'', [''allocator'', ''make_shared'', ''make_unique'', ''shared_ptr'',
          ''unique_ptr'', ''weak_ptr'']),
      (''<queue>'', [''queue'', ''priority_queue'']),
      (''<set>'', [''multiset'']),
      (''<stack>'', [''stack'']),
      (''<string>'', [''char_traits'', ''basic_string'']),
      (''<tuple>'', [''tuple'']),
      (''<unordered_map>'', [''unordered_map'', ''unordered_multimap'']),
      (''<unordered_set>'', [''unordered_set'', ''unordered_multiset'']),
      (''<utility>'', [''pair'']),
      (''<vector>'', [''vector'']),
      (''<hash_map>'', [''hash_map'', ''hash_multimap'']),
      (''<hash_set>'', [''hash_set'', ''hash_multiset'']),
      (''<slist>'', [''slist''])]"

definition HEADERS_MAYBE_TEMPLATES :: "(string \<times> string list) list" where
  "HEADERS_MAYBE_TEMPLATES =
     [(''<algorithm>'', [''copy'', ''max'', ''min'', ''min_element'', ''sort'', ''transform'']),
      (''<utility>'', [''forward'', ''make_pair'', ''move'', ''swap''])]"

definition RE_PATTERN_STRING :: string where
  \<open>RE_PATTERN_STRING = rx ''`bstring`b''\<close>

text \<open>The compiled patterns with the name reported and its header.\<close>

definition header_patterns :: "(string \<Rightarrow> string \<times> string) \<Rightarrow> (string \<times> string list) list \<Rightarrow> (string \<times> string \<times> string) list" where
  "header_patterns f table =
     concat (map (\<lambda>(header, templates). map (\<lambda>t. case f t of (pattern, shown) \<Rightarrow> (pattern, shown, header)) templates) table)"

definition RE_PATTERN_HEADERS_MAYBE_TEMPLATES :: "(string \<times> string \<times> string) list" where
  \<open>RE_PATTERN_HEADERS_MAYBE_TEMPLATES =
     header_patterns (\<lambda>template. (rx ''[^>.]`b'' @ template @ rx ''(<.*?>)?`([^`)]'', template)) HEADERS_MAYBE_TEMPLATES @
     [(rx ''[^>.]`bset`s*`<'', ''set<>'', ''<set>''),
      (rx ''(std`b::`bmap`s*`<)|(^(std`b::`b)map`b`(`s*`<)'', ''map<>'', ''<map>'')]\<close>

definition RE_PATTERN_TEMPLATES :: "(string \<times> string \<times> string) list" where
  \<open>RE_PATTERN_TEMPLATES =
     header_patterns (\<lambda>template. (rx ''(`<|`b)'' @ template @ rx ''`s*`<'', template @ ''<>'')) HEADERS_CONTAINING_TEMPLATES\<close>

section \<open>The files of a module\<close>

definition FilesBelongToSameModule :: "fsys \<Rightarrow> lint \<Rightarrow> string \<Rightarrow> string \<Rightarrow> (bool \<times> string) option" where
  "FilesBelongToSameModule fs s filename_cc filename_h =
     (case Extension fs s filename_cc of
        None \<Rightarrow> None
      | Some ext_cc \<Rightarrow>
          if lstrip_char (CHR ''.'') ext_cc \<notin> set (GetNonHeaderExtensions s) then Some (False, [])
          else
            (case Extension fs s filename_h of
               None \<Rightarrow> None
             | Some ext_h \<Rightarrow>
                 if \<not> IsHeaderExtension s (lstrip_char (CHR ''.'') ext_h) then Some (False, [])
                 else
                   map_option (\<lambda>base.
                     let cc = py_upto filename_cc (- int (length ext_cc));
                         cc = (case Search TEST_FILE_SUFFIX base of
                                 None \<Rightarrow> cc
                               | Some m \<Rightarrow> py_upto cc (- int (length (grp m 1))));
                         cc = py_replace (py_replace cc ''/public/'' ''/'') ''/internal/'' ''/'';
                         h = py_upto filename_h (- int (length ext_h));
                         h = (if endswith h ''-inl'' then py_upto h (- 4) else h);
                         h = py_replace (py_replace h ''/public/'' ''/'') ''/internal/'' ''/'';
                         same_module = endswith cc h
                     in (same_module, if same_module then py_upto cc (- int (length h)) else []))
                   (BaseName fs s filename_cc)))"

type_synonym include_dict = "(string \<times> int) list"

definition setdefault :: "string \<Rightarrow> int \<Rightarrow> include_dict \<Rightarrow> include_dict" where
  "setdefault k v d = (if k \<in> fst ` set d then d else d @ [(k, v)])"

fun update_includes :: "string list \<Rightarrow> int \<Rightarrow> include_dict \<Rightarrow> include_dict" where
  "update_includes [] linenum d = d"
| "update_includes (line # lines) linenum d =
     update_includes lines (linenum + 1)
       (case Search RE_PATTERN_INCLUDE (CleanseComments line) of
          None \<Rightarrow> d
        | Some match \<Rightarrow> setdefault (grp match 2) (linenum + 1) d)"

definition UpdateIncludeState :: "(string \<Rightarrow> string option) \<Rightarrow> string \<Rightarrow> include_dict \<Rightarrow> bool \<times> include_dict" where
  "UpdateIncludeState read filename d =
     (case read filename of
        None \<Rightarrow> (False, d)
      | Some contents \<Rightarrow> (True, update_includes (py_splitlines contents) 0 d))"

section \<open>Include what you use\<close>

type_synonym required = "(string \<times> nat \<times> string) list"

definition std_or_plain :: "string \<Rightarrow> bool" where
  "std_or_plain text_before \<longleftrightarrow> endswith text_before ''std::'' \<or> \<not> endswith text_before ''::''"

definition require_plain :: "string \<Rightarrow> nat \<Rightarrow> string \<times> string \<times> string \<Rightarrow> required \<Rightarrow> required" where
  "require_plain line linenum t d =
     (case t of (pattern, template, header) \<Rightarrow>
        if is_found pattern line then dict_set header (linenum, template) d else d)"

definition require_qualified :: "string \<Rightarrow> nat \<Rightarrow> string \<times> string \<times> string \<Rightarrow> required \<Rightarrow> required" where
  "require_qualified line linenum t d =
     (case t of (pattern, template, header) \<Rightarrow>
        (case Search pattern line of
           None \<Rightarrow> d
         | Some matched \<Rightarrow>
             if std_or_plain (take (m_start matched) line) then dict_set header (linenum, template) d else d))"

definition required_by_line :: "nat \<times> string \<Rightarrow> required \<Rightarrow> required" where
  "required_by_line numbered d =
     (case numbered of (linenum, line) \<Rightarrow>
        if line = [] \<or> hd line = CHR ''#'' then d
        else
          let d = require_qualified line linenum (RE_PATTERN_STRING, ''string'', ''<string>'') d;
              d = fold (require_plain line linenum) RE_PATTERN_HEADERS_MAYBE_TEMPLATES d
          in if CHR ''<'' \<notin> set line then d
             else fold (require_qualified line linenum) RE_PATTERN_TEMPLATES d)"

definition required_headers :: "string list \<Rightarrow> required" where
  "required_headers lines = fold required_by_line (enumerate 0 lines) []"

text \<open>The includes of the headers of the module; \<open>True\<close> when one of them could be read.\<close>

fun module_headers ::
    "fsys \<Rightarrow> lint \<Rightarrow> (string \<Rightarrow> string option) \<Rightarrow> string \<Rightarrow> string list \<Rightarrow> include_dict \<Rightarrow> (bool \<times> include_dict) option" where
  "module_headers fs s read abs_filename [] d = Some (False, d)"
| "module_headers fs s read abs_filename (header # headers) d =
     (case FilesBelongToSameModule fs s abs_filename header of
        None \<Rightarrow> None
      | Some (same_module, common_path) \<Rightarrow>
          (let (found, d) = (if same_module then UpdateIncludeState read (common_path @ header) d else (False, d))
           in map_option (\<lambda>(found', d'). (found \<or> found', d')) (module_headers fs s read abs_filename headers d)))"

definition missing_reports :: "required \<Rightarrow> include_dict \<Rightarrow> report list" where
  "missing_reports req d =
     map (\<lambda>header. case the (map_of req header) of (linenum, template) \<Rightarrow>
            report (int linenum) ''build/include_what_you_use'' 4
              (''Add #include '' @ header @ '' for '' @ template))
         (filter (\<lambda>header. strip_set [CHR ''<'', CHR ''>'', CHR 0x22] header \<notin> fst ` set d)
            (sort_key (\<lambda>header. the (map_of req header)) (map fst req)))"

definition CheckForIncludeWhatYouUse ::
    "fsys \<Rightarrow> lint \<Rightarrow> (string \<Rightarrow> string option) \<Rightarrow> string \<Rightarrow> cleansed \<Rightarrow> include_state \<Rightarrow> report list option" where
  "CheckForIncludeWhatYouUse fs s read filename c inc =
     (let required = required_headers (take (NumLines c) (cl_elided c));
          include_dict = fold (\<lambda>(k, v). dict_set k v) (concat (include_list inc)) [];
          abs_filename = ReplaceAll (rx ''_flymake`.cc$'') ''.cc'' (FullName fs filename)
      in map_option (\<lambda>(header_found, d).
           if \<not> header_found \<and> list_ex (\<lambda>extension. endswith filename (''.'' @ extension)) (GetNonHeaderExtensions s)
           then [] else missing_reports required d)
         (module_headers fs s read abs_filename (map fst include_dict) include_dict))"

section \<open>Lemmas\<close>

lemma include_patterns_compile:
  "list_all (\<lambda>p. re_compile no_flags p \<noteq> None)
     (INCLUDE_H_PATTERN # RE_PATTERN_STRING # [fst (hd RE_PATTERN_TEMPLATES), fst (last RE_PATTERN_HEADERS_MAYBE_TEMPLATES)])"
  by code_simp

text \<open>The headers recorded; none is recorded twice.\<close>

definition recorded :: "include_state \<Rightarrow> string list" where
  "recorded inc = map fst (concat (include_list inc))"

definition includes_ok :: "include_state \<Rightarrow> bool" where
  "includes_ok inc \<longleftrightarrow> sections_ok inc \<and> distinct (recorded inc)"

lemma includes_ok_init [keeps_inv]: "includes_ok IncludeState_init"
  using sections_ok_init by (simp add: includes_ok_def recorded_def IncludeState_init_def ResetSection_def)

lemma concat_snoc_Nil: "concat (xs @ [[]]) = concat xs"
  by simp

lemma includes_ok_Reset [keeps_inv]:
  assumes "includes_ok inc" shows "includes_ok (ResetSection d inc)"
proof -
  have "concat (include_list inc) = concat (butlast (include_list inc)) @ last (include_list inc)"
    using assms by (simp add: includes_ok_def sections_ok_def concat_butlast_last)
  then have "distinct (map fst (concat (butlast (include_list inc))))"
    using assms by (simp add: includes_ok_def recorded_def)
  with assms sections_ok_Reset [of inc d] show ?thesis
    by (auto simp: includes_ok_def recorded_def ResetSection_def Let_def)
qed

lemma FindHeader_absent: "includes_ok inc \<Longrightarrow> FindHeader h inc < 0 \<longleftrightarrow> h \<notin> set (recorded inc)"
proof -
  assume ok: "includes_ok inc"
  have "0 \<le> n" if "map_of (concat (include_list inc)) h = Some n" for n
    using that ok by (fastforce simp: includes_ok_def sections_ok_def dest: map_of_SomeD)
  moreover have "h \<notin> set (recorded inc) \<longleftrightarrow> map_of (concat (include_list inc)) h = None"
    by (simp add: recorded_def map_of_eq_None_iff)
  ultimately show ?thesis
    by (auto simp: FindHeader_def find_in_sections_map_of split: option.split)
qed

lemma include_list_Check [simp]: "include_list (snd (CheckNextIncludeOrder t s)) = include_list s"
  by (cases t) (auto simp: CheckNextIncludeOrder_def Let_def)

lemma recorded_SetLast [simp]: "recorded (SetLastHeader h s) = recorded s"
  by (simp add: recorded_def SetLastHeader_def)

lemma append_include_ok:
  assumes "includes_ok inc" "0 \<le> n" "h \<notin> set (recorded inc)"
  obtains inc' where "append_include h n inc = Inr inc'" "includes_ok inc'" "recorded inc' = recorded inc @ [h]"
proof -
  from sections_ok_append [of inc n h] assms(1,2) obtain inc' where
    inc': "append_include h n inc = Inr inc'" "sections_ok inc'" by (auto simp: includes_ok_def)
  from assms(1) have "include_list inc \<noteq> []" by (simp add: includes_ok_def sections_ok_def)
  then have "recorded inc' = recorded inc @ [h]"
    using inc'(1) by (auto simp: append_include_def recorded_def concat_butlast_last [symmetric] split: if_splits)
  with inc' assms show thesis by (intro that) (auto simp: includes_ok_def)
qed

lemma IsInAlphabeticalOrder_total:
  "linenum < length elided \<Longrightarrow> \<exists>b. IsInAlphabeticalOrder elided (int linenum) h inc = Inr b"
  using py_get_Inr_iff [of elided "int linenum - 1"] by (auto simp: IsInAlphabeticalOrder_def)

text \<open>A check that returns does not raise and keeps the invariant.\<close>

definition include_check_ok :: "include_state \<Rightarrow> string \<Rightarrow> (report list \<times> include_state) outcome \<Rightarrow> bool" where
  "include_check_ok inc h r \<longleftrightarrow> r = None \<or>
     (\<exists>rs inc'. r = ret (rs, inc') \<and> includes_ok inc' \<and> recorded inc' \<in> {recorded inc, recorded inc @ [h]})"

lemma record_include_ok:
  assumes "includes_ok inc" "h \<notin> set (recorded inc)" "linenum < length (cl_elided c)"
  shows "include_check_ok inc h (record_include fs s filename c linenum h is_system inc)"
proof -
  obtain inc1 where a: "append_include h (int linenum) inc = Inr inc1" "includes_ok inc1"
      "recorded inc1 = recorded inc @ [h]"
    using append_include_ok [OF assms(1) _ assms(2)] by (metis of_nat_0_le_iff)
  show ?thesis
  proof (cases "ClassifyInclude fs s filename h is_system")
    case None
    then show ?thesis by (simp add: record_include_def a include_check_ok_def)
  next
    case (Some kind)
    obtain msg inc2 where k: "CheckNextIncludeOrder kind inc1 = (msg, inc2)" by force
    have inc2: "includes_ok inc2" "recorded inc2 = recorded inc @ [h]"
      using a sections_ok_Check [of inc1 kind] include_list_Check [of kind inc1] k
      by (auto simp: includes_ok_def recorded_def)
    have "includes_ok (SetLastHeader l inc2)" for l
      using inc2 sections_ok_SetLast by (simp add: includes_ok_def)
    moreover obtain b where "IsInAlphabeticalOrder (cl_elided c) (int linenum) (CanonicalizeAlphabeticalOrder h) inc2 = Inr b"
      using IsInAlphabeticalOrder_total [OF assms(3)] by blast
    ultimately show ?thesis
      using a Some k inc2
      by (cases "BaseName fs s filename") (auto simp: record_include_def include_check_ok_def Let_def)
  qed
qed

lemma CheckIncludeLine_ok:
  assumes "includes_ok inc" "linenum < length (cl_lines c)" "linenum < length (cl_elided c)"
  shows "include_check_ok inc (case Search RE_PATTERN_INCLUDE (cl_lines c ! linenum) of None \<Rightarrow> [] | Some m \<Rightarrow> grp m 2)
    (CheckIncludeLine fs s filename c linenum inc)"
proof (cases "Search RE_PATTERN_INCLUDE (cl_lines c ! linenum)")
  case None
  with assms show ?thesis by (simp add: CheckIncludeLine_def include_check_ok_def)
next
  case (Some m)
  let ?h = "grp m 2"
  show ?thesis
  proof (cases "0 \<le> FindHeader ?h inc")
    case True
    with assms Some show ?thesis by (simp add: CheckIncludeLine_def include_check_ok_def Let_def)
  next
    case False
    then have "?h \<notin> set (recorded inc)" using FindHeader_absent [OF assms(1), of "grp m 2"] by simp
    from record_include_ok [OF assms(1) this assms(3), of fs s filename "grp m 1 = ''<''"]
    show ?thesis using assms Some False
      by (auto simp: CheckIncludeLine_def include_check_ok_def Let_def may_diverge_def ret_def
          bind_outcome_def split: option.splits)
  qed
qed

text \<open>The names a line uses, without the bookkeeping of the dictionary.\<close>

definition needs :: "string \<Rightarrow> string \<Rightarrow> string \<Rightarrow> bool" where
  "needs line header template \<longleftrightarrow>
     (\<exists>pattern. is_found pattern line \<and> (pattern, template, header) \<in> set
        ((RE_PATTERN_STRING, ''string'', ''<string>'') # RE_PATTERN_HEADERS_MAYBE_TEMPLATES @ RE_PATTERN_TEMPLATES))"

definition required_ok :: "(nat \<times> string) set \<Rightarrow> required \<Rightarrow> bool" where
  "required_ok L req \<longleftrightarrow> distinct (map fst req) \<and>
     (\<forall>(header, linenum, template) \<in> set req. \<exists>line. (linenum, line) \<in> L \<and> needs line header template)"

lemma set_dict_set: "x \<in> set (dict_set k v d) \<Longrightarrow> x = (k, v) \<or> x \<in> set d"
  by (induction k v d rule: dict_set.induct) (auto split: if_splits)

lemma required_ok_set:
  "required_ok L req \<Longrightarrow> (linenum, line) \<in> L \<Longrightarrow> needs line header template \<Longrightarrow>
   required_ok L (dict_set header (linenum, template) req)"
  by (auto simp: required_ok_def distinct_dict_set dest!: set_dict_set)

lemma fold_invariant: "(\<And>x s. x \<in> set xs \<Longrightarrow> P s \<Longrightarrow> P (f x s)) \<Longrightarrow> P s \<Longrightarrow> P (fold f xs s)"
  by (induction xs arbitrary: s) auto

lemma required_ok_plain:
  assumes "required_ok L req" "(linenum, line) \<in> L" "t \<in> set RE_PATTERN_HEADERS_MAYBE_TEMPLATES"
  shows "required_ok L (require_plain line linenum t req)"
proof -
  obtain pattern template header where t: "t = (pattern, template, header)" by (cases t)
  then have "is_found pattern line \<Longrightarrow> needs line header template"
    using assms(3) unfolding needs_def by auto
  with assms t required_ok_set show ?thesis by (simp add: require_plain_def)
qed

lemma required_ok_qualified:
  assumes "required_ok L req" "(linenum, line) \<in> L"
    and "t \<in> set ((RE_PATTERN_STRING, ''string'', ''<string>'') # RE_PATTERN_TEMPLATES)"
  shows "required_ok L (require_qualified line linenum t req)"
proof -
  obtain pattern template header where t: "t = (pattern, template, header)" by (cases t)
  then have "is_found pattern line \<Longrightarrow> needs line header template"
    using assms(3) unfolding needs_def by auto
  with assms t required_ok_set show ?thesis
    by (auto simp: require_qualified_def is_found_def split: option.split)
qed

lemma required_ok_line:
  assumes "required_ok L req" "numbered \<in> L" shows "required_ok L (required_by_line numbered req)"
proof -
  obtain linenum line where numbered: "numbered = (linenum, line)" by force
  have q: "required_ok L r \<Longrightarrow> t \<in> set ((RE_PATTERN_STRING, ''string'', ''<string>'') # RE_PATTERN_TEMPLATES) \<Longrightarrow>
      required_ok L (require_qualified line linenum t r)" for r t
    using required_ok_qualified assms(2) numbered by blast
  have m: "required_ok L r \<Longrightarrow> required_ok L (fold (require_plain line linenum) RE_PATTERN_HEADERS_MAYBE_TEMPLATES r)" for r
    by (rule fold_invariant [where P = "required_ok L"]) (use required_ok_plain assms(2) numbered in blast)+
  have t: "required_ok L r \<Longrightarrow> required_ok L (fold (require_qualified line linenum) RE_PATTERN_TEMPLATES r)" for r
    by (rule fold_invariant [where P = "required_ok L"]) (use q in auto)
  show ?thesis
    using assms(1) q [of req "(RE_PATTERN_STRING, ''string'', ''<string>'')"] m t
    by (simp add: required_by_line_def numbered Let_def)
qed

lemma required_headers_ok: "required_ok (set (enumerate 0 lines)) (required_headers lines)"
  unfolding required_headers_def
  by (rule fold_invariant [where P = "required_ok (set (enumerate 0 lines))"])
     (auto intro: required_ok_line, simp add: required_ok_def)

lemma keys_setdefault: "fst ` set (setdefault k v d) = insert k (fst ` set d)"
  by (auto simp: setdefault_def)

lemma keys_update_includes: "fst ` set d \<subseteq> fst ` set (update_includes lines n d)"
proof (induction lines n d rule: update_includes.induct)
  case (2 line lines linenum d)
  then show ?case by (auto simp: keys_setdefault split: option.splits)
qed simp

lemma keys_UpdateIncludeState: "fst ` set d \<subseteq> fst ` set (snd (UpdateIncludeState read f d))"
  using keys_update_includes [of d] by (simp add: UpdateIncludeState_def split: option.split)

lemma keys_module_headers:
  "module_headers fs s read f hs d = Some (found, d') \<Longrightarrow> fst ` set d \<subseteq> fst ` set d'"
proof (induction hs arbitrary: d found)
  case (Cons h hs)
  from Cons.prems obtain same common where m: "FilesBelongToSameModule fs s f h = Some (same, common)"
    by (auto split: option.splits)
  define r where "r = (if same then UpdateIncludeState read (common @ h) d else (False, d))"
  have "fst ` set d \<subseteq> fst ` set (snd r)"
    using keys_UpdateIncludeState [of d read "common @ h"] by (simp add: r_def)
  moreover from Cons.prems m obtain found' where "module_headers fs s read f hs (snd r) = Some (found', d')"
    by (auto simp: r_def split: prod.splits)
  ultimately show ?case using Cons.IH by blast
qed simp

lemma sorted_lines: "sorted ps \<Longrightarrow> sorted (map (\<lambda>p. int (fst p)) (ps :: (nat \<times> string) list))"
  by (induction ps) (auto simp: less_eq_prod_def)

lemma keys_fold_dict_set: "fst ` set (fold (\<lambda>(k, v). dict_set k v) xs d) = fst ` set d \<union> fst ` set xs"
proof (induction xs arbitrary: d)
  case (Cons x xs)
  then show ?case using keys_dict_set [of "fst x" "snd x" d] by (cases x) auto
qed simp

section \<open>Properties\<close>

text \<open>C39. An include line, wherever it is in the file, never raises when the check returns, and keeps
  the record of includes: no header is recorded twice, the only header that can be added is that of
  the line, and it is added last; opening or closing a conditional keeps the record as well.\<close>

theorem CheckIncludeLine_invariant:
  assumes "includes_ok inc" and "linenum < length (cl_lines c)" and "length (cl_elided c) = length (cl_lines c)"
  shows "include_check_ok inc (case Search RE_PATTERN_INCLUDE (cl_lines c ! linenum) of None \<Rightarrow> [] | Some m \<Rightarrow> grp m 2)
      (CheckIncludeLine fs s filename c linenum inc) \<and> includes_ok (ResetSection d inc)"
  using CheckIncludeLine_ok [of inc linenum c fs s filename] includes_ok_Reset [of inc d] assms by simp

definition include_example :: cleansed where
  \<open>include_example = \<lparr>cl_elided = [''#include "b/c.h"'', ''std::string s;''], cl_lines = [''#include "b/c.h"'', ''std::string s;''],
     cl_raw_lines = [''#include "b/c.h"'', ''std::string s;''], cl_num_lines = 2,
     cl_lines_without_raw_strings = [''#include "b/c.h"'', ''std::string s;'']\<rparr>\<close>

theorem CheckIncludeLine_invariant_witness:
  "include_check_ok IncludeState_init (case Search RE_PATTERN_INCLUDE (cl_lines include_example ! 0) of None \<Rightarrow> [] | Some m \<Rightarrow> grp m 2)
      (CheckIncludeLine example_fs CppLintState_init ''b/a.cc'' include_example 0 IncludeState_init)
   \<and> includes_ok (ResetSection ''if'' IncludeState_init)"
  by (rule CheckIncludeLine_invariant) (simp_all add: includes_ok_init include_example_def)

text \<open>C40. The reports of missing headers are right and in order: each is for a line of the file that
  uses the library name, asks for the header of that name, and that header is not among the
  includes of the file; the lines of the reports never decrease.\<close>

theorem missing_includes_are_missing:
  assumes "CheckForIncludeWhatYouUse fs s read filename c inc = Some rs"
  shows "sorted (map (\<lambda>r. the (r_line r)) rs) \<and>
    (\<forall>r \<in> set rs. \<exists>k header template.
       r = report (int k) ''build/include_what_you_use'' 4 (''Add #include '' @ header @ '' for '' @ template)
       \<and> k < length (cl_elided c) \<and> needs (cl_elided c ! k) header template
       \<and> strip_set [CHR ''<'', CHR ''>'', CHR 0x22] header \<notin> set (recorded inc))"
proof -
  let ?lines = "take (NumLines c) (cl_elided c)"
  let ?req = "required_headers ?lines" and ?key = "\<lambda>h. the (map_of (required_headers ?lines) h)"
  define d0 where "d0 = fold (\<lambda>(k, v). dict_set k v) (concat (include_list inc)) []"
  from assms obtain found d where
    m: "module_headers fs s read (ReplaceAll (rx ''_flymake`.cc$'') ''.cc'' (FullName fs filename)) (map fst d0) d0 = Some (found, d)"
    and rs: "rs = [] \<or> rs = missing_reports ?req d"
    by (auto simp: CheckForIncludeWhatYouUse_def Let_def d0_def split: if_splits)
  have inc_d: "set (recorded inc) \<subseteq> fst ` set d"
    using keys_module_headers [OF m] keys_fold_dict_set [of "concat (include_list inc)" "[]"]
    by (auto simp: d0_def recorded_def)
  have key_ok: "\<exists>k template. ?key h = (k, template) \<and> k < length (cl_elided c)
      \<and> needs (cl_elided c ! k) h template" if "h \<in> set (map fst ?req)" for h
  proof -
    from that obtain k template where *: "(h, k, template) \<in> set ?req" by auto
    then have "map_of ?req h = Some (k, template)"
      using required_headers_ok [of ?lines] by (simp add: required_ok_def)
    moreover from * required_headers_ok [of ?lines] obtain line where
      "(k, line) \<in> set (enumerate 0 ?lines)" "needs line h template" by (auto simp: required_ok_def)
    ultimately show ?thesis by (auto simp: in_set_enumerate_eq)
  qed
  have srt: "sorted (map (\<lambda>h. int (fst (?key h))) (filter P (sort_key ?key (map fst ?req))))" for P
  proof -
    have "sorted (map ?key (filter P (sort_key ?key (map fst ?req))))"
      by (intro sorted_filter sorted_sort_key)
    from sorted_lines [OF this] show ?thesis by (simp add: comp_def)
  qed
  define P hs where
    "P = (\<lambda>h. strip_set [CHR ''<'', CHR ''>'', CHR 0x22] h \<notin> fst ` set d)" and
    "hs = filter P (sort_key ?key (map fst ?req))"
  have hs: "sorted (map (\<lambda>h. int (fst (?key h))) hs)" unfolding hs_def by (rule srt)
  have ok: "\<exists>k template. ?key h = (k, template) \<and> k < length (cl_elided c) \<and> needs (cl_elided c ! k) h template
      \<and> strip_set [CHR ''<'', CHR ''>'', CHR 0x22] h \<notin> set (recorded inc)" if "h \<in> set hs" for h
  proof -
    from that have "h \<in> set (map fst ?req)" "P h" by (simp_all add: hs_def)
    with key_ok [of h] inc_d show ?thesis unfolding P_def by blast
  qed
  define msg where "msg h = report (int (fst (?key h))) ''build/include_what_you_use'' 4
      (''Add #include '' @ h @ '' for '' @ snd (?key h))" for h
  have rs': "rs = [] \<or> rs = map msg hs"
    using rs unfolding missing_reports_def hs_def P_def msg_def case_prod_beta .
  have msg_ok: "\<exists>k header template. msg h = report (int k) ''build/include_what_you_use'' 4
       (''Add #include '' @ header @ '' for '' @ template)
       \<and> k < length (cl_elided c) \<and> needs (cl_elided c ! k) header template
       \<and> strip_set [CHR ''<'', CHR ''>'', CHR 0x22] header \<notin> set (recorded inc)" if "h \<in> set hs" for h
    using ok [OF that] unfolding msg_def by (metis fst_conv snd_conv)
  have lines: "map (\<lambda>r. the (r_line r)) (map msg hs) = map (\<lambda>h. int (fst (?key h))) hs"
    by (simp add: msg_def report_def)
  from rs' show ?thesis
  proof
    assume eq: "rs = map msg hs"
    show ?thesis
      unfolding eq lines by (rule conjI [OF hs]) (use msg_ok in \<open>simp only: list.set_map ball_simps, blast\<close>)
  qed simp
qed

theorem missing_includes_are_missing_witness:
  "CheckForIncludeWhatYouUse example_fs CppLintState_init (\<lambda>_. None) ''a.h'' include_example IncludeState_init
     = Some [report 1 ''build/include_what_you_use'' 4 ''Add #include <string> for string'']
   \<and> strip_set [CHR ''<'', CHR ''>'', CHR 0x22] ''<string>'' \<notin> set (recorded IncludeState_init)"
proof -
  have "CheckForIncludeWhatYouUse example_fs CppLintState_init (\<lambda>_. None) ''a.h'' include_example IncludeState_init
     = Some [report 1 ''build/include_what_you_use'' 4 ''Add #include <string> for string'']"
    by code_simp
  with missing_includes_are_missing [OF this] show ?thesis by (simp add: recorded_def IncludeState_init_def ResetSection_def)
qed

end
