(* ===== verification/Language.thy ===== *)
theory Language
  imports Style Includes
begin

text \<open>
  The language checks of a line: C types, format strings, variable-length arrays, namespaces,
  global objects, references that are not constant, and casts. \<open>CheckLanguage\<close> also passes include
  lines to \<open>CheckIncludeLine\<close> and starts a new section of includes at a conditional.
\<close>

section \<open>Text inside brackets\<close>

definition matching_punctuation :: "char \<Rightarrow> char option" where
  "matching_punctuation ch =
     (if ch = CHR ''('' then Some (CHR '')'') else if ch = CHR ''{'' then Some (CHR ''}'')
      else if ch = CHR ''['' then Some (CHR '']'') else None)"

definition closing_punctuation :: "char \<Rightarrow> bool" where
  "closing_punctuation ch \<longleftrightarrow> ch = CHR '')'' \<or> ch = CHR ''}'' \<or> ch = CHR '']''"

text \<open>The number of characters up to the one that closes the last bracket of the stack.\<close>

fun punctuation_scan :: "char list \<Rightarrow> string \<Rightarrow> nat \<Rightarrow> nat option" where
  "punctuation_scan [] rest k = Some k"
| "punctuation_scan (p # ps) [] k = None"
| "punctuation_scan (p # ps) (ch # rest) k =
     (if ch = p then punctuation_scan ps rest (Suc k)
      else if closing_punctuation ch then None
      else (case matching_punctuation ch of
              Some q \<Rightarrow> punctuation_scan (q # p # ps) rest (Suc k)
            | None \<Rightarrow> punctuation_scan (p # ps) rest (Suc k)))"

definition GetTextInside :: "string \<Rightarrow> string \<Rightarrow> string option result" where
  "GetTextInside txt start_pattern =
     (case SearchF (no_flags\<lparr>multi_line := True\<rparr>) start_pattern txt of
        None \<Rightarrow> Inr None
      | Some match \<Rightarrow>
          (let start_position = m_end match in
           if start_position = 0 then Inl AssertionError
           else (case matching_punctuation (txt ! (start_position - 1)) of
                   None \<Rightarrow> Inl AssertionError
                 | Some p \<Rightarrow>
                     Inr (map_option (\<lambda>k. take (k - 1) (drop start_position txt))
                       (punctuation_scan [p] (drop start_position txt) 0)))))"

section \<open>Patterns of references\<close>

definition RE_PATTERN_IDENT :: string where
  \<open>RE_PATTERN_IDENT = rx ''[_a-zA-Z]`w*''\<close>

definition RE_PATTERN_TYPE :: string where
  \<open>RE_PATTERN_TYPE = rx ''(?:const`s+)?(?:typename`s+|class`s+|struct`s+|union`s+|enum`s+)?'' @ rx ''(?:`w|'' @
     rx ''`s*<(?:<(?:<[^<>]*>|[^<>])*>|[^<>])*>|'' @ ''::)+''\<close>

definition RE_PATTERN_REF_PARAM :: string where
  \<open>RE_PATTERN_REF_PARAM = ''('' @ RE_PATTERN_TYPE @ rx ''(?:`s*(?:`bconst`b|[*]))*`s*'' @ rx ''&`s*'' @
     RE_PATTERN_IDENT @ rx '')`s*(?:=[^,()]+)?[,)]''\<close>

definition RE_PATTERN_CONST_REF_PARAM :: string where
  \<open>RE_PATTERN_CONST_REF_PARAM = rx ''(?:.*`s*`bconst`s*&`s*'' @ RE_PATTERN_IDENT @ rx ''|const`s+'' @ RE_PATTERN_TYPE @
     rx ''`s*&`s*'' @ RE_PATTERN_IDENT @ '')''\<close>

definition RE_PATTERN_REF_STREAM_PARAM :: string where
  \<open>RE_PATTERN_REF_STREAM_PARAM = rx ''(?:.*stream`s*&`s*'' @ RE_PATTERN_IDENT @ '')''\<close>

lemma reference_patterns_compile:
  "list_all (\<lambda>p. re_compile no_flags p \<noteq> None)
     [RE_PATTERN_REF_PARAM, RE_PATTERN_CONST_REF_PARAM, RE_PATTERN_REF_STREAM_PARAM]"
  by code_simp

section \<open>Casts\<close>

definition ExpectingFunctionArgs :: "cleansed \<Rightarrow> nat \<Rightarrow> bool result" where
  \<open>ExpectingFunctionArgs c linenum =
     with_elided c linenum (\<lambda>line.
       if is_match (rx ''^`s*MOCK_(CONST_)?METHOD`d+(_T)?`('') line then Inr True
       else if linenum < 2 then Inr False
       else
         with_elided c (linenum - 1) (\<lambda>line1.
         with_elided c (linenum - 2) (\<lambda>line2.
           Inr (is_match (rx ''^`s*MOCK_(?:CONST_)?METHOD`d+(?:_T)?`((?:`S+,)?`s*$'') line1
              \<or> is_match (rx ''^`s*MOCK_(?:CONST_)?METHOD`d+(?:_T)?`(`s*$'') line2
              \<or> is_found (rx ''`bstd::m?function`s*`<`s*$'') line1))))\<close>

text \<open>The reports of a check of C-style casts; \<open>True\<close> when it reports.\<close>

definition CheckCStyleCast :: "cleansed \<Rightarrow> nat \<Rightarrow> string \<Rightarrow> string \<Rightarrow> (bool \<times> report list) result" where
  \<open>CheckCStyleCast c linenum cast_type pattern =
     with_elided c linenum (\<lambda>line.
       case Search pattern line of
         None \<Rightarrow> Inr (False, [])
       | Some match \<Rightarrow>
           (let text_before = py_slice line 0 (group_start match 1 - 1) in
            if is_match (rx ''.*`b(?:sizeof|alignof|alignas|[_A-Z][_A-Z0-9]*)`s*$'') text_before then Inr (False, [])
            else
              bind_result (get_lines (cl_elided c) [linenum - 5 + 1..<linenum]) (\<lambda>above.
                let text_before = concat above @ text_before; remainder = drop (m_end match) line in
                if is_match (rx ''.*`b[_A-Z][_A-Z0-9]*`s*`((?:`([^()]*`)|[^()])*$'') text_before
                   \<or> endswith text_before '' operator++'' \<or> endswith text_before '' operator--''
                   \<or> is_match (rx ''^`s*(?:;|const`b|throw`b|final`b|override`b|[=>{),]|->)'') remainder
                then Inr (False, [])
                else Inr (True, [report (int linenum) ''readability/casting'' 4
                       (''Using C-style cast.  Use '' @ cast_type @ ''<'' @ grp match 1 @ ''>(...) instead'')]))))\<close>

definition CONVERSION_PATTERN :: string where
  \<open>CONVERSION_PATTERN = rx ''(`bnew`s+(?:const`s+)?|`S<`s*(?:const`s+)?)?`b'' @
     rx ''(int|float|double|bool|char|int32|uint32|int64|uint64)'' @ rx ''(`([^)].*)''\<close>

text \<open>\<open>None\<close> where the source returns at once.\<close>

definition conversion_reports :: "string \<Rightarrow> nat \<Rightarrow> report list option" where
  \<open>conversion_reports line linenum =
     (case Search CONVERSION_PATTERN line of
        None \<Rightarrow> Some []
      | Some match \<Rightarrow>
          (let matched_type = grp match 2; matched_funcptr = grp match 3 in
           if is_match (rx ''`([^()]+`)`s*`['') matched_funcptr then None
           else Some (report_if (group match 1 = None
                  \<and> \<not> (matched_funcptr \<noteq> [] \<and>
                       (is_match (rx ''`((?:[^() ]+::`s*`*`s*)?[^() ]+`)`s*`('') matched_funcptr
                        \<or> startswith matched_funcptr ''(*)''))
                  \<and> \<not> is_match (rx ''`s*using`s+`S+`s*=`s*'' @ matched_type) line
                  \<and> \<not> is_found (rx ''new`(`S+`)`s*'' @ matched_type) line)
                (report (int linenum) ''readability/casting'' 4
                   (''Using deprecated casting style.  '' @ ''Use static_cast<'' @ matched_type @ ''>(...) instead'')))))\<close>

definition ADDRESS_PATTERN :: string where
  \<open>ADDRESS_PATTERN = rx ''(?:[^`w]&`(([^)*][^)]*)`)[`w(])|'' @ rx ''(?:[^`w]&(static|dynamic|down|reinterpret)_cast`b)''\<close>

text \<open>Whether the address is taken of something dereferenced from the cast.\<close>

definition dereferenced_cast :: "cleansed \<Rightarrow> nat \<Rightarrow> string \<Rightarrow> bool result" where
  \<open>dereferenced_cast c linenum line =
     (case Match (rx ''^(.*&(?:static|dynamic|down|reinterpret)_cast`b)<'') line of
        None \<Rightarrow> Inr False
      | Some match \<Rightarrow>
          bind_result (CloseExpression c linenum (length (grp match 1))) (\<lambda>(l, y1, x1).
            if x1 < 0 then Inr False
            else
              with_elided c y1 (\<lambda>line1.
              bind_result (py_get line1 x1) (\<lambda>ch.
                if ch \<noteq> CHR ''('' then Inr False
                else
                  bind_result (CloseExpression c y1 (nat x1)) (\<lambda>(l, y2, x2).
                    if x2 < 0 then Inr False
                    else
                      with_elided c y2 (\<lambda>line2.
                      bind_result (if y2 + 1 < NumLines c then py_get (cl_elided c) (int y2 + 1) else Inr []) (\<lambda>next_line.
                        Inr (is_match (rx ''`s*(?:->|`[)'') (py_from line2 x2 @ next_line)))))))))\<close>

definition address_reports :: "cleansed \<Rightarrow> nat \<Rightarrow> string \<Rightarrow> report list result" where
  \<open>address_reports c linenum line =
     (if \<not> is_found ADDRESS_PATTERN line then Inr []
      else
        bind_result (dereferenced_cast c linenum line) (\<lambda>parenthesis_error.
          Inr (if parenthesis_error
               then [report (int linenum) ''readability/casting'' 4
                       (''Are you taking an address of something dereferenced '' @
                        ''from a cast?  Wrapping the dereferenced expression in '' @
                        ''parentheses will make the binding more obvious'')]
               else [report (int linenum) ''runtime/casting'' 4
                       (''Are you taking an address of a cast?  '' @
                        ''This is dangerous: could be a temp var.  '' @
                        ''Take the address before doing the cast, rather than after'')])))\<close>

definition CheckCasts :: "cleansed \<Rightarrow> nat \<Rightarrow> report list result" where
  \<open>CheckCasts c linenum =
     with_elided c linenum (\<lambda>line.
       bind_result (ExpectingFunctionArgs c linenum) (\<lambda>expecting_function.
         case (if expecting_function then Some [] else conversion_reports line linenum) of
           None \<Rightarrow> Inr []
         | Some rs1 \<Rightarrow>
             bind_result
               (if expecting_function then Inr (False, [])
                else CheckCStyleCast c linenum ''static_cast'' (rx ''`((int|float|double|bool|char|u?int(16|32|64))`)'')) (\<lambda>(b, rs2).
             bind_result (CheckCStyleCast c linenum ''const_cast'' (rx ''`((char`s?`*+`s?)`)`s*"'')) (\<lambda>(is_const, rs3).
             bind_result
               (if is_const then Inr (False, [])
                else CheckCStyleCast c linenum ''reinterpret_cast'' (rx ''`((`w+`s?`*+`s?)`)'')) (\<lambda>(b, rs4).
             bind_result (address_reports c linenum line) (\<lambda>rs5.
               Inr (rs1 @ rs2 @ rs3 @ rs4 @ rs5)))))))\<close>

section \<open>Global objects and printf\<close>

definition GLOBAL_STRING_PATTERN :: string where
  \<open>GLOBAL_STRING_PATTERN = rx ''((?:|static +)(?:|const +))(?::*std::)?string( +const)? +'' @ rx ''([a-zA-Z0-9_:]+)`b(.*)''\<close>

definition global_string_reports :: "string \<Rightarrow> nat \<Rightarrow> report list" where
  \<open>global_string_reports line linenum =
     (case Match GLOBAL_STRING_PATTERN line of
        None \<Rightarrow> []
      | Some match \<Rightarrow>
          if is_found (rx ''`bstring`b(`s+const)?`s*[`*`&]`s*(const`s+)?`w'') line
             \<or> is_found (rx ''`boperator`W'') line
             \<or> is_match (rx ''`s*(<.*>)?(::[a-zA-Z0-9_]+)*`s*`(([^"]|$)'') (grp match 4) then []
          else if is_found (rx ''`bconst`b'') line then
            [report (int linenum) ''runtime/string'' 4
               (''For a static/global string constant, use a C style string '' @
                ''instead: "'' @ grp match 1 @ ''char'' @ grp match 2 @ '' '' @ grp match 3 @ ''[]".'')]
          else [report (int linenum) ''runtime/string'' 4 ''Static/global string variables are not permitted.''])\<close>

definition CheckGlobalStatic :: "cleansed \<Rightarrow> nat \<Rightarrow> report list result" where
  \<open>CheckGlobalStatic c linenum =
     with_elided c linenum (\<lambda>line.
     bind_result (if linenum + 1 < NumLines c \<and> \<not> is_found (rx ''[;({]'') line
                  then with_elided c (linenum + 1) (\<lambda>l. Inr (line @ py_strip l)) else Inr line) (\<lambda>line.
       Inr (global_string_reports line linenum @
            report_if (is_found (rx ''`b([A-Za-z0-9_]*_)`(`1`)'') line
                  \<or> is_found (rx ''`b([A-Za-z0-9_]*_)`(CHECK_NOTNULL`(`1`)`)'') line)
              (report (int linenum) ''runtime/init'' 4
                 ''You seem to be initializing a member variable with itself.''))))\<close>

definition CheckPrintf :: "cleansed \<Rightarrow> nat \<Rightarrow> report list result" where
  \<open>CheckPrintf c linenum =
     with_elided c linenum (\<lambda>line.
       Inr ((case Search (rx ''snprintf`s*`(([^,]*),`s*([0-9]*)`s*,'') line of
               None \<Rightarrow> []
             | Some match \<Rightarrow>
                 report_if (grp match 2 \<noteq> ''0'')
                   (report (int linenum) ''runtime/printf'' 3
                      (''If you can, use sizeof('' @ grp match 1 @ '') instead of '' @ grp match 2 @ '' as the 2nd arg '' @
                       ''to snprintf.''))) @
            report_if (is_found (rx ''`bsprintf`s*`('') line)
              (report (int linenum) ''runtime/printf'' 5 ''Never use sprintf. Use snprintf instead.'') @
            (case Search (rx ''`b(strcpy|strcat)`s*`('') line of
               None \<Rightarrow> []
             | Some match \<Rightarrow>
                 [report (int linenum) ''runtime/printf'' 4
                    (''Almost always, snprintf is better than '' @ grp match 1)])))\<close>

section \<open>References that are not constant\<close>

text \<open>The first of some lines that starts a function.\<close>

definition FUNCTION_START_PATTERN :: string where
  \<open>FUNCTION_START_PATTERN = rx ''^([^()]*`w+)`(''\<close>

fun function_start :: "cleansed \<Rightarrow> nat list \<Rightarrow> (nat \<times> string \<times> pymatch) option result" where
  "function_start c [] = Inr None"
| "function_start c (i # is) =
     with_elided c i (\<lambda>line.
       case Match FUNCTION_START_PATTERN line of
         Some match \<Rightarrow> Inr (Some (i, line, match))
       | None \<Rightarrow> function_start c is)"

definition IsDerivedFunction :: "cleansed \<Rightarrow> nat \<Rightarrow> bool result" where
  \<open>IsDerivedFunction c linenum =
     bind_result (function_start c (rev [linenum - 9..<Suc linenum])) (\<lambda>found.
       case found of
         None \<Rightarrow> Inr False
       | Some (i, l, match) \<Rightarrow>
           bind_result (CloseExpression c i (length (grp match 1))) (\<lambda>(line, n, closing_paren).
             Inr (closing_paren \<ge> 0 \<and> is_found (rx ''`boverride`b'') (py_from line closing_paren))))\<close>

definition IsOutOfLineMethodDefinition :: "cleansed \<Rightarrow> nat \<Rightarrow> bool result" where
  \<open>IsOutOfLineMethodDefinition c linenum =
     bind_result (function_start c (rev [linenum - 9..<Suc linenum])) (\<lambda>found.
       Inr (case found of
              None \<Rightarrow> False
            | Some (i, line, match) \<Rightarrow> is_match (rx ''^[^()]*`w+::`w+`('') line))\<close>

fun initializer_scan :: "cleansed \<Rightarrow> nat \<Rightarrow> nat list \<Rightarrow> bool result" where
  \<open>initializer_scan c linenum [] = Inr False\<close>
| \<open>initializer_scan c linenum (i # is) =
     with_elided c i (\<lambda>line.
       let line = (if i = linenum
                   then (case Match (rx ''^(.*)`{`s*$'') line of
                           Some remove_function_body \<Rightarrow> grp remove_function_body 1 | None \<Rightarrow> line)
                   else line)
       in if is_found (rx ''`s:`s*`w+[({]'') line then Inr True
          else if is_found (rx ''`}`s*,`s*$'') line then Inr True
          else if is_found (rx ''[{};]`s*$'') line then Inr False
          else initializer_scan c linenum is)\<close>

definition IsInitializerList :: "cleansed \<Rightarrow> nat \<Rightarrow> bool result" where
  "IsInitializerList c linenum = initializer_scan c linenum (rev [2..<Suc linenum])"

text \<open>The line with the parts of its type that stand on the lines above.\<close>

definition previous_part :: "string \<Rightarrow> string \<Rightarrow> string option" where
  \<open>previous_part line prev =
     (if is_match (rx ''`s*::(?:[`w<>]|::)+`s*&`s*`S'') line
      then map_option (\<lambda>m. grp m 1) (Search (rx ''`b((?:const`s*)?(?:[`w<>]|::)+[`w<>])`s*$'') prev)
      else if is_match (rx ''`s*[a-zA-Z_]([`w<>]|::)+`s*&`s*`S'') line
      then map_option (\<lambda>m. grp m 1) (Search (rx ''`b((?:const`s*)?(?:[`w<>]|::)+::)`s*$'') prev)
      else None)\<close>

definition join_type :: "cleansed \<Rightarrow> nat \<Rightarrow> string \<Rightarrow> string result" where
  \<open>join_type c linenum line =
     (if linenum \<le> 1 then Inr line
      else
        with_elided c (linenum - 1) (\<lambda>above.
          case previous_part line above of
            Some previous \<Rightarrow> Inr (previous @ py_lstrip line)
          | None \<Rightarrow>
              (let endpos = py_rfind line (CHR ''>'') in
               if endpos > -1 then
                 bind_result (ReverseCloseExpression c linenum (nat endpos)) (\<lambda>(l, startline, startpos).
                   if startpos > -1 \<and> startline < linenum then
                     bind_result (get_lines (cl_elided c) [startline..<Suc linenum]) (\<lambda>pieces.
                       Inr (concat (map py_strip pieces)))
                   else Inr line)
               else Inr line)))\<close>

text \<open>Whether one of the lines above starts an initializer list.\<close>

fun after_colon :: "cleansed \<Rightarrow> nat list \<Rightarrow> bool result" where
  \<open>after_colon c [] = Inr False\<close>
| \<open>after_colon c (i # is) =
     with_elided c i (\<lambda>previous_line.
       if \<not> is_found (rx ''[),]`s*$'') previous_line then Inr False
       else if is_match (rx ''^`s*:`s+`S'') previous_line then Inr True
       else after_colon c is)\<close>

definition WHITELISTED_FUNCTIONS :: string where
  \<open>WHITELISTED_FUNCTIONS = rx ''(?:[sS]wap(?:<`w:+>)?|'' @ rx ''operator`s*[<>][<>]|'' @
     ''static_assert|COMPILE_ASSERT'' @ rx '')`s*`(''\<close>

definition whitelisted :: "cleansed \<Rightarrow> nat \<Rightarrow> string \<Rightarrow> bool result" where
  \<open>whitelisted c linenum line =
     (if is_found WHITELISTED_FUNCTIONS line then Inr True
      else if \<not> is_found (rx ''`S+`([^)]*$'') line then
        bind_result (get_lines (cl_elided c) (rev [linenum - 2..<linenum])) (\<lambda>above.
          Inr (list_ex (is_found WHITELISTED_FUNCTIONS) above))
      else Inr False)\<close>

definition reference_reports :: "string \<Rightarrow> nat \<Rightarrow> report list" where
  \<open>reference_reports line linenum =
     (let decls = ReplaceAll ''{[^}]*}'' '' '' line;
          parameters = (case re_compile no_flags RE_PATTERN_REF_PARAM of
                          None \<Rightarrow> [] | Some fr \<Rightarrow> map (\<lambda>m. grp m 1) (re_finditer fr decls))
      in concat (map (\<lambda>parameter.
           report_if (\<not> is_match RE_PATTERN_CONST_REF_PARAM parameter \<and> \<not> is_match RE_PATTERN_REF_STREAM_PARAM parameter)
             (report (int linenum) ''runtime/references'' 2
                (''Is this a non-const reference? '' @ ''If so, make const or use a pointer: '' @
                 ReplaceAll '' *<'' ''<'' parameter))) parameters))\<close>

definition in_function_body :: "nesting \<Rightarrow> bool" where
  "in_function_body st \<longleftrightarrow>
     (case previous_stack_top st of None \<Rightarrow> False | Some b \<Rightarrow> \<not> is_class b \<and> \<not> is_namespace b)"

text \<open>Stops at the first condition that holds.\<close>

fun unless_any :: "bool result list \<Rightarrow> 'a list result \<Rightarrow> 'a list result" where
  "unless_any [] k = k"
| "unless_any (b # bs) k = bind_result b (\<lambda>yes. if yes then Inr [] else unless_any bs k)"

definition CheckForNonConstReference :: "cleansed \<Rightarrow> nat \<Rightarrow> nesting \<Rightarrow> report list result" where
  \<open>CheckForNonConstReference c linenum st =
     with_elided c linenum (\<lambda>line.
       unless_any [Inr (CHR ''&'' \<notin> set line), IsDerivedFunction c linenum, IsOutOfLineMethodDefinition c linenum]
         (bind_result (join_type c linenum line) (\<lambda>line.
            unless_any
              [Inr (in_function_body st), after_colon c (rev [(linenum - 10) + 1..<linenum]),
               Inr (is_found (rx ''```s*$'') line), IsInitializerList c linenum, whitelisted c linenum line]
              (Inr (reference_reports line linenum)))))\<close>

section \<open>The language checks of a line\<close>

definition integer_type_reports :: "string \<Rightarrow> nat \<Rightarrow> report list" where
  \<open>integer_type_reports line linenum =
     (if is_found (rx ''`bshort port`b'') line then
        report_if (\<not> is_found (rx ''`bunsigned short port`b'') line)
          (report (int linenum) ''runtime/int'' 4 ''Use "unsigned short" for ports, not "short"'')
      else
        (case Search (rx ''`b(short|long(?! +double)|long long)`b'') line of
           None \<Rightarrow> []
         | Some match \<Rightarrow>
             [report (int linenum) ''runtime/int'' 4
                (''Use int16/int64/etc, rather than the C type '' @ grp match 1)]))\<close>

definition operator_reports :: "string \<Rightarrow> nat \<Rightarrow> report list" where
  \<open>operator_reports line linenum =
     report_if (is_found (rx ''`boperator`s*&`s*`(`s*`)'') line)
       (report (int linenum) ''runtime/operator'' 4 ''Unary operator& is dangerous.  Do not use it.'') @
     report_if (is_found (rx ''`}`s*if`s*`('') line)
       (report (int linenum) ''readability/braces'' 4 ''Did you mean "else if"? If not, start a new line for "if".'')\<close>

definition format_reports :: "string \<Rightarrow> nat \<Rightarrow> report list result" where
  \<open>format_reports line linenum =
     bind_result (GetTextInside line (rx ''(?i)`b(string)?printf`s*`('')) (\<lambda>printf_args.
       case printf_args of
         None \<Rightarrow> Inr []
       | Some args \<Rightarrow>
           (case (if args = [] then None else Match (rx ''([`w.`->()]+)$'') args) of
              None \<Rightarrow> Inr []
            | Some match \<Rightarrow>
                if grp match 1 = ''__VA_ARGS__'' then Inr []
                else
                  (case SearchF (no_flags\<lparr>ignore_case := True\<rparr>) (rx ''`b((?:string)?printf)`s*`('') line of
                     None \<Rightarrow> Inl AttributeError
                   | Some name \<Rightarrow>
                       Inr [report (int linenum) ''runtime/printf'' 4
                              (''Potential format string bug. Do '' @ grp name 1 @ ''("%s", '' @ grp match 1 @ '') instead.'')])))\<close>

definition memset_reports :: "string \<Rightarrow> nat \<Rightarrow> report list" where
  \<open>memset_reports line linenum =
     (case Search (rx ''memset`s*`(([^,]*),`s*([^,]*),`s*0`s*`)'') line of
        None \<Rightarrow> []
      | Some match \<Rightarrow>
          report_if (\<not> is_match (''^'' @ quote1 @ quote1 @ ''|-?[0-9]+|0x[0-9A-Fa-f]$'') (grp match 2))
            (report (int linenum) ''runtime/memset'' 4
               (''Did you mean "memset('' @ grp match 1 @ '', 0, '' @ grp match 2 @ '')"?'')))\<close>

definition using_reports :: "string \<Rightarrow> nat \<Rightarrow> report list" where
  \<open>using_reports line linenum =
     (if is_found (rx ''`busing namespace`b'') line then
        [report (int linenum)
           (if is_found (rx ''`bliterals`b'') line then ''build/namespaces_literals'' else ''build/namespaces'') 5
           (''Do not use namespace using-directives.  '' @ ''Use using-declarations instead.'')]
      else [])\<close>

text \<open>\<open>re.split\<close> for a pattern that has no groups and never matches the empty text.\<close>

fun split_pieces :: "nat \<Rightarrow> pymatch list \<Rightarrow> string \<Rightarrow> string list" where
  "split_pieces i [] s = [drop i s]"
| "split_pieces i (m # ms) s = take (m_start m - i) (drop i s) # split_pieces (m_end m) ms s"

definition re_split :: "string \<Rightarrow> string \<Rightarrow> string list" where
  "re_split p s = (case re_compile no_flags p of None \<Rightarrow> [s] | Some fr \<Rightarrow> split_pieces 0 (re_finditer fr s) s)"

text \<open>Whether every token of an array size is a compile-time constant.\<close>

definition SIZE_PATTERNS :: "string list" where
  \<open>SIZE_PATTERNS = [rx ''`d+'', ''0[xX][0-9a-fA-F]+'', rx ''k[A-Z0-9]`w*'', rx ''(.+::)?k[A-Z0-9]`w*'',
     ''(.+::)?[A-Z][A-Z0-9_]*'']\<close>

fun constant_size :: "bool \<Rightarrow> string list \<Rightarrow> bool" where
  \<open>constant_size skip_next [] = True\<close>
| \<open>constant_size skip_next (tok # toks) =
     (if skip_next then constant_size False toks
      else if is_found (rx ''sizeof`(.+`)'') tok \<or> is_found (rx ''arraysize`(`w+`)'') tok then constant_size False toks
      else
        (let tok = rstrip_char (CHR '')'') (lstrip_char (CHR ''('') tok) in
         if tok = [] \<or> list_ex (\<lambda>p. is_match p tok) SIZE_PATTERNS then constant_size False toks
         else startswith tok ''sizeof'' \<and> constant_size True toks))\<close>

definition array_reports :: "string \<Rightarrow> nat \<Rightarrow> report list" where
  \<open>array_reports line linenum =
     (case Match (rx ''`s*(.+::)?(`w+) [a-z]`w*`[(.+)];'') line of
        None \<Rightarrow> []
      | Some match \<Rightarrow>
          report_if (grp match 2 \<noteq> ''return'' \<and> grp match 2 \<noteq> ''delete'' \<and> CHR '']'' \<notin> set (grp match 3)
                \<and> \<not> constant_size False (re_split (rx ''`s|`+|`-|`*|`/|<<|>>]'') (grp match 3)))
            (report (int linenum) ''runtime/arrays'' 1
               (''Do not use variable-length arrays.  Use an appropriately named '' @
                ''(\'k\' followed by CamelCase) compile-time constant for the size.'')))\<close>

definition unnamed_namespace_reports :: "bool \<Rightarrow> string \<Rightarrow> nat \<Rightarrow> report list" where
  \<open>unnamed_namespace_reports is_header line linenum =
     report_if (is_header \<and> is_found (rx ''`bnamespace`s*{'') line \<and> last line \<noteq> CHR 0x5C)
       (report (int linenum) ''build/namespaces'' 4
          (''Do not use unnamed namespaces in header files.  See '' @
           ''https://google-styleguide.googlecode.com/svn/trunk/cppguide.xml#Namespaces'' @
           '' for more information.''))\<close>

definition statement_reports :: "bool \<Rightarrow> string \<Rightarrow> nat \<Rightarrow> report list result" where
  "statement_reports is_header line linenum =
     bind_result (format_reports line linenum) (\<lambda>rs.
       Inr (integer_type_reports line linenum @ operator_reports line linenum @ rs @
            memset_reports line linenum @ using_reports line linenum @ array_reports line linenum @
            unnamed_namespace_reports is_header line linenum))"

text \<open>Starts a new section of includes at a conditional of the preprocessor.\<close>

definition conditional_section :: "string \<Rightarrow> include_state \<Rightarrow> include_state" where
  \<open>conditional_section line inc =
     (case Match (rx ''^`s*#`s*(if|ifdef|ifndef|elif|else|endif)`b'') line of
        None \<Rightarrow> inc | Some match \<Rightarrow> ResetSection (grp match 1) inc)\<close>

definition CheckLanguage ::
    "fsys \<Rightarrow> lint \<Rightarrow> string \<Rightarrow> cleansed \<Rightarrow> nat \<Rightarrow> string \<Rightarrow> include_state \<Rightarrow> (report list \<times> include_state) outcome" where
  "CheckLanguage fs s filename c linenum file_extension inc =
     bind_outcome (Some (py_get (cl_elided c) (int linenum))) (\<lambda>line.
       if line = [] then ret ([], inc)
       else if Search RE_PATTERN_INCLUDE line \<noteq> None then CheckIncludeLine fs s filename c linenum inc
       else
         bind_outcome (Some (CheckCasts c linenum)) (\<lambda>rs1.
         bind_outcome (Some (CheckGlobalStatic c linenum)) (\<lambda>rs2.
         bind_outcome (Some (CheckPrintf c linenum)) (\<lambda>rs3.
         bind_outcome (Some (statement_reports (IsHeaderExtension s file_extension) line linenum)) (\<lambda>rs4.
           ret (rs1 @ rs2 @ rs3 @ rs4, conditional_section line inc))))))"

end
