(* ===== verification/TextInside.thy ===== *)
theory TextInside
  imports Language
begin

text \<open>
  What \<open>GetTextInside\<close> extracts. The scan with a stack of brackets is compared with a grammar of
  texts whose brackets match: the scan ends exactly behind such a text and its closing bracket.
\<close>

section \<open>Texts whose brackets match\<close>

inductive well_nested :: "string \<Rightarrow> bool" where
  nothing: "well_nested []"
| plain: "matching_punctuation c = None \<Longrightarrow> \<not> closing_punctuation c \<Longrightarrow> well_nested t \<Longrightarrow> well_nested (c # t)"
| brackets: "matching_punctuation c = Some q \<Longrightarrow> well_nested t \<Longrightarrow> well_nested u \<Longrightarrow> well_nested (c # t @ q # u)"

text \<open>Texts one after the other, each closed by the next bracket of the stack; their length.\<close>

inductive closed_by :: "char list \<Rightarrow> string \<Rightarrow> nat \<Rightarrow> bool" where
  "closed_by [] s 0"
| "well_nested t \<Longrightarrow> closed_by ps u n \<Longrightarrow> closed_by (p # ps) (t @ p # u) (Suc (length t + n))"

inductive_cases closed_by_ConsE: "closed_by (p # ps) s n"
inductive_cases closed_by_NilE: "closed_by [] s n"

lemma matching_closes: "matching_punctuation c = Some q \<Longrightarrow> closing_punctuation q \<and> \<not> closing_punctuation c"
  by (auto simp: matching_punctuation_def closing_punctuation_def split: if_splits)

lemma scan_well_nested:
  "well_nested t \<Longrightarrow> closing_punctuation p \<Longrightarrow>
     punctuation_scan (p # ps) (t @ rest) k = punctuation_scan (p # ps) rest (k + length t)"
proof (induction arbitrary: p ps rest k rule: well_nested.induct)
  case (plain c t)
  then have "c \<noteq> p" by blast
  with plain show ?case by simp
next
  case (brackets c q t u)
  from brackets.hyps(1) brackets.prems have "c \<noteq> p" "\<not> closing_punctuation c" "closing_punctuation q"
    using matching_closes by blast+
  then show ?case
    using brackets.hyps(1) brackets.prems brackets.IH(1) [of q "p # ps" "q # u @ rest"]
      brackets.IH(2) [of p ps rest] by (simp add: ac_simps)
qed simp

lemma scan_closed:
  "punctuation_scan ps s k = Some n \<Longrightarrow> \<exists>m. closed_by ps s m \<and> n = k + m"
proof (induction ps s k rule: punctuation_scan.induct)
  case (1 rest k)
  then show ?case by (auto intro: closed_by.intros)
next
  case (3 p ps ch rest k)
  consider "ch = p" | "ch \<noteq> p" "\<not> closing_punctuation ch" "matching_punctuation ch = None"
    | q where "ch \<noteq> p" "\<not> closing_punctuation ch" "matching_punctuation ch = Some q"
    using "3.prems" by (cases "matching_punctuation ch") (auto split: if_splits)
  then show ?case
  proof cases
    case 1
    with "3.IH"(1) "3.prems" obtain m where m: "closed_by ps rest m" "n = Suc k + m" by auto
    from closed_by.intros(2) [OF well_nested.nothing m(1), of p] show ?thesis using m(2) 1 by auto
  next
    case 2
    with "3.IH" "3.prems" obtain m where m: "closed_by (p # ps) rest m" "n = Suc k + m" by fastforce
    from m(1) obtain t u m' where t: "rest = t @ p # u" "well_nested t" "closed_by ps u m'" "m = Suc (length t + m')"
      by (rule closed_by_ConsE)
    from closed_by.intros(2) [OF well_nested.plain [OF 2(3,2) t(2)] t(3), of p] show ?thesis
      using t(1,4) m(2) by auto
  next
    case 3
    with "3.IH" "3.prems" obtain m where m: "closed_by (q # p # ps) rest m" "n = Suc k + m" by fastforce
    from m(1) obtain t u m' where t: "rest = t @ q # u" "well_nested t" "closed_by (p # ps) u m'" "m = Suc (length t + m')"
      by (rule closed_by_ConsE)
    from t(3) obtain v x m'' where v: "u = v @ p # x" "well_nested v" "closed_by ps x m''" "m' = Suc (length v + m'')"
      by (rule closed_by_ConsE)
    from closed_by.intros(2) [OF well_nested.brackets [OF 3(3) t(2) v(2)] v(3), of p] show ?thesis
      using t(1,4) v(1,4) m(2) by (auto simp: add.assoc numeral_3_eq_3)
  qed
qed simp

lemma scan_one:
  assumes "closing_punctuation p"
  shows "punctuation_scan [p] s 0 = Some n \<longleftrightarrow> (\<exists>t u. s = t @ p # u \<and> well_nested t \<and> n = Suc (length t))"
proof
  assume "punctuation_scan [p] s 0 = Some n"
  then have "closed_by [p] s n" using scan_closed by fastforce
  then show "\<exists>t u. s = t @ p # u \<and> well_nested t \<and> n = Suc (length t)"
    by (auto elim!: closed_by_ConsE closed_by_NilE)
next
  assume "\<exists>t u. s = t @ p # u \<and> well_nested t \<and> n = Suc (length t)"
  then show "punctuation_scan [p] s 0 = Some n" using scan_well_nested [OF _ assms, of _ "[]"] by auto
qed

text \<open>C11. Where the pattern is found and ends in an opening bracket, the text inside is exactly the text
  with matching brackets that the bracket's counterpart closes; there is none when no such text
  follows.\<close>

theorem GetTextInside_exact:
  assumes "SearchF (no_flags\<lparr>multi_line := True\<rparr>) start_pattern txt = Some m" and "0 < m_end m"
    and "matching_punctuation (txt ! (m_end m - 1)) = Some p"
  shows "GetTextInside txt start_pattern = Inr r \<longleftrightarrow>
    (case r of
       Some t \<Rightarrow> well_nested t \<and> (\<exists>u. drop (m_end m) txt = t @ p # u)
     | None \<Rightarrow> \<nexists>t u. well_nested t \<and> drop (m_end m) txt = t @ p # u)"
proof -
  let ?rest = "drop (m_end m) txt"
  have p: "closing_punctuation p" using matching_closes [OF assms(3)] by blast
  have g: "GetTextInside txt start_pattern = Inr (map_option (\<lambda>k. take (k - 1) ?rest) (punctuation_scan [p] ?rest 0))"
    using assms by (simp add: GetTextInside_def Let_def)
  show ?thesis
  proof (cases "punctuation_scan [p] ?rest 0")
    case None
    then have "\<nexists>t u. well_nested t \<and> ?rest = t @ p # u" using scan_one [OF p, of ?rest] by auto
    then show ?thesis by (auto simp: g None split: option.split)
  next
    case (Some n)
    with scan_one [OF p] obtain t u where t: "?rest = t @ p # u" "well_nested t" "n = Suc (length t)" by blast
    then have found: "GetTextInside txt start_pattern = Inr (Some t)"
      unfolding g Some by (simp add: t)
    have "t' = t" if "?rest = t' @ p # u'" "well_nested t'" for t' u'
      using scan_one [OF p, of ?rest "Suc (length t')"] that Some t by auto
    then show ?thesis using t(1,2) unfolding found by (cases r) auto
  qed
qed

theorem GetTextInside_exact_witness:
  "GetTextInside ''printf(a(), b(c()));'' (rx ''printf`('') = Inr (Some ''a(), b(c())'')"
proof -
  have m: "SearchF (no_flags\<lparr>multi_line := True\<rparr>) (rx ''printf`('') ''printf(a(), b(c()));''
      = Some \<lparr>m_start = 0, m_end = 7, m_text = ''printf('', m_groups = []\<rparr>"
    by code_simp
  have paren: "well_nested (c # CHR ''('' # t @ CHR '')'' # u)" if "well_nested t" "well_nested u" "c \<in> {CHR ''a'', CHR ''b'', CHR ''c''}" for c t u
    using that by (auto intro!: well_nested.plain well_nested.brackets simp: matching_punctuation_def closing_punctuation_def)
  have sep: "well_nested (CHR '','' # CHR '' '' # t)" if "well_nested t" for t
    using that by (auto intro!: well_nested.plain simp: matching_punctuation_def closing_punctuation_def)
  have "well_nested ''a(), b(c())''"
    using paren [OF well_nested.nothing sep [OF paren [OF paren [OF well_nested.nothing well_nested.nothing] well_nested.nothing]],
      of "CHR ''c''" "CHR ''b''" "CHR ''a''"] by simp
  then show ?thesis
    using GetTextInside_exact [OF m, of "CHR '')''" "Some ''a(), b(c())''"] by (simp add: matching_punctuation_def)
qed

end
