(* ===== verification/FileFacts.thy ===== *)
theory FileFacts
  imports FileChecks
begin

text \<open>
  Facts about the processing of a file as a whole. First, that every check of a file returns when
  above each directory there is one without \<open>.svn\<close> (the facts of \<open>returning\<close>): the loop over the
  SVN directories is the only one of the program whose end depends on the file system. Second, that
  all checks of a file only add reports and suppressions: they keep every setting, the number of
  errors does not fall, and the filters stay well formed (\<open>only_reports\<close>).
\<close>

named_theorems returning \<open>a check returns when the repository name does\<close>

section \<open>Every check returns\<close>

definition returns :: "'a option \<Rightarrow> bool" where
  "returns m \<longleftrightarrow> m \<noteq> None"

lemma returns_simps [simp]:
  "returns (Some x)" "returns (ret y)" "\<not> returns None"
  "returns (may_diverge m) \<longleftrightarrow> returns m" "returns (map_option f m) \<longleftrightarrow> returns m"
  by (auto simp: returns_def may_diverge_def)

lemma returns_bind: "returns m \<Longrightarrow> (\<And>x. returns (k x)) \<Longrightarrow> returns (bind_outcome m k)"
  by (auto simp: returns_def bind_outcome_def split: option.splits sum.splits)

lemma returns_case: "returns m \<Longrightarrow> (\<And>x. returns (k x)) \<Longrightarrow> returns (case m of None \<Rightarrow> None | Some x \<Rightarrow> k x)"
  by (cases m) auto

lemma returns_option:
  "(\<And>x. returns (k x)) \<Longrightarrow> returns (case m of None \<Rightarrow> ret a | Some x \<Rightarrow> k x)"
  "(\<And>y. returns (h y)) \<Longrightarrow> returns (case n of None \<Rightarrow> Some b | Some y \<Rightarrow> h y)"
  "returns (bind_outcome p q) \<Longrightarrow> (\<And>x. returns (k x)) \<Longrightarrow> returns (case m of None \<Rightarrow> bind_outcome p q | Some x \<Rightarrow> k x)"
  by (auto split: option.split)

lemma returns_prod: "(\<And>a b. returns (k a b)) \<Longrightarrow> returns (case p of (a, b) \<Rightarrow> k a b)"
  by (cases p) auto

lemma returns_if: "returns a \<Longrightarrow> returns b \<Longrightarrow> returns (if c then a else b)"
  by simp

lemmas returns_intros = returns_bind returns_case returns_option returns_prod returns_if

definition names_known :: "fsys \<Rightarrow> bool" where
  "names_known fs \<longleftrightarrow> (\<forall>s f. returns (RepositoryName fs s f))"

lemma no_svn_names_known:
  assumes "\<forall>d. \<exists>k. \<not> svn_at fs d k"
  shows "names_known fs"
proof -
  have "svn_top fs dir up \<noteq> None" for dir up
    using assms svn_top_None_iff [of fs dir up] by blast
  then show ?thesis
    by (auto simp: names_known_def returns_def RepositoryName_def repository_by_vcs_def Let_def split: option.splits if_splits)
qed

lemma returning_name [returning]: "names_known fs \<Longrightarrow> returns (RepositoryName fs s f)"
  by (simp add: names_known_def)

lemma returning_parts [returning]:
  assumes "names_known fs"
  shows "returns (BaseName fs s f)" "returns (Extension fs s f)"
    "returns (GetHeaderGuardCPPVariable fs s f)" "returns (ClassifyInclude fs s f i b)"
  using returning_name [OF assms]
  by (simp_all add: Split_def BaseName_def Extension_def GetHeaderGuardCPPVariable_def ClassifyInclude_def Let_def)

lemma returning_scans [returning]:
  assumes "names_known fs"
  shows "returns (foreign_source fs s f i exts)" "returns (own_header fs s f i exts)"
    "returns (check_header_exts fs s f e inc exts)"
  using returning_name [OF assms] returning_parts [OF assms]
  by (induction exts) (auto simp: Let_def intro!: returns_intros)

lemma returning_module [returning]:
  assumes "names_known fs"
  shows "returns (FilesBelongToSameModule fs s cc h)" "returns (module_headers fs s read f hs d)"
proof -
  show same: "returns (FilesBelongToSameModule fs s cc h)" for cc h
    using returning_parts [OF assms] by (auto simp: FilesBelongToSameModule_def intro!: returns_intros)
  show "returns (module_headers fs s read f hs d)"
    by (induction hs arbitrary: d) (use same in \<open>auto intro!: returns_intros split: prod.splits\<close>)
qed

lemma returning_file_checks [returning]:
  assumes "names_known fs"
  shows "returns (CheckForIncludeWhatYouUse fs s read f c inc)" "returns (CheckHeaderFileIncluded fs s f inc)"
    "returns (CheckForHeaderGuard fs f c s)"
  using returning_module [OF assms] returning_parts [OF assms] returning_scans [OF assms]
  by (auto simp: CheckForIncludeWhatYouUse_def CheckHeaderFileIncluded_def CheckForHeaderGuard_def Let_def
      intro!: returns_intros)

lemma returning_include [returning]:
  assumes "names_known fs"
  shows "returns (record_include fs s f c n i sys inc)" "returns (CheckIncludeLine fs s f c n inc)"
proof -
  show rec: "returns (record_include fs s f c n i sys inc)" for i sys
    using returning_parts [OF assms] unfolding record_include_def Let_def
    by (auto intro!: returns_intros)
  show "returns (CheckIncludeLine fs s f c n inc)"
    using returning_scans [OF assms] rec unfolding CheckIncludeLine_def Let_def
    by (auto intro!: returns_intros)
qed

lemma returning_line [returning]:
  assumes "names_known fs"
  shows "returns (CheckStyle fs f c n e st s)" "returns (CheckLanguage fs s f c n e inc)"
    "returns (ProcessLine fs extra f e c n t)"
proof -
  show style: "returns (CheckStyle fs f c n e st s)" for s st
    using returning_parts [OF assms] unfolding CheckStyle_def by (auto intro!: returns_intros)
  show lang: "returns (CheckLanguage fs s f c n e inc)" for s inc
    using returning_include [OF assms] unfolding CheckLanguage_def by (auto intro!: returns_intros)
  show "returns (ProcessLine fs extra f e c n t)"
    using style lang unfolding ProcessLine_def check_line_def Let_def by (auto intro!: returns_intros)
qed

lemma returning_lines [returning]:
  assumes "names_known fs"
  shows "returns (process_lines fs extra f e c ns t)"
  by (induction ns arbitrary: t) (auto intro!: returns_intros returning_line [OF assms])

lemma returning_file [returning]:
  assumes "names_known fs"
  shows "returns (ProcessFileData fs read extra f e lines s)"
  using returning_file_checks [OF assms] returning_lines [OF assms]
  unfolding ProcessFileData_def finish_file_def by (auto intro!: returns_intros)

section \<open>The checks only report\<close>

text \<open>
  The contract of a step that may raise: a relation between the states before and after that is
  reflexive and transitive is kept by sequences of steps that keep it.
\<close>

locale step_contract =
  fixes kept :: "'s \<Rightarrow> 's \<Rightarrow> bool"
  assumes kept_refl: "kept s s"
    and kept_trans: "kept s t \<Longrightarrow> kept t u \<Longrightarrow> kept s u"
begin

definition keeps :: "('s \<Rightarrow> 's result) \<Rightarrow> bool" where
  "keeps f \<longleftrightarrow> (\<forall>s s'. f s = Inr s' \<longrightarrow> kept s s')"

lemma keepsI: "(\<And>s s'. f s = Inr s' \<Longrightarrow> kept s s') \<Longrightarrow> keeps f"
  by (simp add: keeps_def)

lemma keepsD: "keeps f \<Longrightarrow> f s = Inr s' \<Longrightarrow> kept s s'"
  by (simp add: keeps_def)

lemma keeps_then: "keeps f \<Longrightarrow> keeps g \<Longrightarrow> bind_result (f s) g = Inr s' \<Longrightarrow> kept s s'"
  by (auto simp: bind_result_eq_Inr dest: keepsD intro: kept_trans)

primrec run_all :: "('s \<Rightarrow> 's result) list \<Rightarrow> 's \<Rightarrow> 's result" where
  "run_all [] s = Inr s"
| "run_all (f # fs) s = bind_result (f s) (run_all fs)"

lemma keeps_run_all: "\<forall>f \<in> set fs. keeps f \<Longrightarrow> keeps (run_all fs)"
proof (induction fs)
  case (Cons f fs)
  then have "keeps f" "keeps (run_all fs)" by auto
  then show ?case by (intro keepsI) (auto intro: keeps_then)
qed (simp add: keeps_def kept_refl)

end

definition unsuppressed :: "lint \<Rightarrow> lint" where
  "unsuppressed s = s\<lparr>error_suppressions := \<lambda>_. {}, global_error_suppressions := Map.empty\<rparr>"

definition only_reports :: "lint \<Rightarrow> lint \<Rightarrow> bool" where
  "only_reports s s' \<longleftrightarrow> same_settings (unsuppressed s) (unsuppressed s') \<and> error_count s \<le> error_count s'
     \<and> (counts_ok s \<longrightarrow> counts_ok s') \<and> out s' = out s"

interpretation reports: step_contract only_reports
  by unfold_locales (auto simp: only_reports_def intro: same_settings_trans)

lemma run_checks_run_all: "run_checks fs s = reports.run_all fs s"
  by (induction fs arbitrary: s) (auto simp: bind_result_def split: sum.splits)

lemma only_reports_settings: "same_settings s s' \<Longrightarrow> same_settings (unsuppressed s) (unsuppressed s')"
  by (simp add: same_settings_def unsuppressed_def)

lemma only_reports_Error: "Error f l c k m s = Inr s' \<Longrightarrow> only_reports s s'"
proof -
  assume e: "Error f l c k m s = Inr s'"
  then obtain p where p: "ShouldPrintError c k l s = Inr p" by (auto simp: Error_def bind_result_eq_Inr)
  from Error_cases [OF p, of f m] e have "error_count s \<le> error_count s'" by (cases p) auto
  moreover from e have "out s' = out s"
    by (auto simp: Error_def bind_result_eq_Inr Let_def PrintError_def stderr_write_def AddJUnitFailure_def
        IncrementErrorCount_def split: if_splits)
  ultimately show ?thesis
    using only_reports_settings [OF Error_settings [OF e]] counts_ok_Error [OF _ e] by (simp add: only_reports_def)
qed

lemma keeps_emit: "reports.keeps (emit f rs)"
proof (rule reports.keepsI)
  show "emit f rs s = Inr s' \<Longrightarrow> only_reports s s'" for s s'
    by (induction rs arbitrary: s)
      (auto simp: bind_result_eq_Inr reports.kept_refl dest: only_reports_Error intro: reports.kept_trans)
qed

declare emit.simps [simp del]

lemma keeps_nolint: "reports.keeps (ParseNolintSuppressions f line n)"
proof (rule reports.keepsI)
  have add: "only_reports s (add_suppression c n s)" for c n s
    by (simp add: only_reports_def same_settings_def unsuppressed_def add_suppression_def counts_ok_def)
  show "ParseNolintSuppressions f line n s = Inr s' \<Longrightarrow> only_reports s s'" for s s'
    using add reports.kept_refl only_reports_Error
    by (auto simp: ParseNolintSuppressions_def Let_def split: option.splits if_splits)
qed

lemma keeps_reporting: "reports.keeps (reporting f check)"
  by (rule reports.keepsI) (auto simp: reporting_def bind_result_eq_Inr dest: reports.keepsD [OF keeps_emit])

lemmas keeps_basic = reports.keepsD [OF keeps_emit] reports.keepsD [OF keeps_nolint] reports.keepsD [OF keeps_reporting]

lemma keeps_reporting_at: "(\<lambda>s. reporting f (check s) s) s = Inr s' \<Longrightarrow> only_reports s s'"
  by (rule keeps_basic(3))

lemma keeps_semicolon: "reports.keeps (CheckTrailingSemicolon f c n)"
proof (rule reports.keepsI)
  show "CheckTrailingSemicolon f c n s = Inr s' \<Longrightarrow> only_reports s s'" for s s'
    by (auto simp: CheckTrailingSemicolon_def with_elided_def with_line_def bind_result_eq_Inr reports.kept_refl
        split: option.splits if_splits dest!: keeps_basic(1,2)) (blast intro: reports.kept_trans)
qed

lemma keeps_style: "reports.keeps (run_checks (style_checks f c n st v))"
  unfolding run_checks_run_all [abs_def]
  by (rule reports.keeps_run_all) (auto simp: style_checks_def keeps_semicolon keeps_reporting
      intro: reports.keepsI keeps_basic)

lemma keeps_late: "reports.keeps (run_checks (late_checks f c n st extra))"
  unfolding run_checks_run_all [abs_def]
  by (rule reports.keeps_run_all) (auto simp: late_checks_def keeps_reporting)

lemma keeps_guard: "check_guard f lines v s = Inr s' \<Longrightarrow> only_reports s s'"
  by (auto simp: check_guard_def Let_def bind_result_eq_Inr split: if_splits
      dest!: keeps_basic(1,2)) (blast intro: reports.kept_trans)+

lemma Some_eq_ret: "Some r = ret y \<longleftrightarrow> r = Inr y"
  by (cases r) (simp_all add: ret_def)

lemma may_diverge_eq_ret: "may_diverge m = ret y \<longleftrightarrow> m = Some y"
  by (cases m) (auto simp: ret_def)

lemmas outcome_eqs = bind_outcome_eq_ret Some_eq_ret may_diverge_eq_ret bind_result_eq_Inr

lemma only_reports_CheckStyle: "CheckStyle fs f c n e st s = ret s' \<Longrightarrow> only_reports s s'"
  by (auto simp: CheckStyle_def outcome_eqs dest: reports.keepsD [OF keeps_style])

lemma only_reports_update:
  assumes "update_nesting f c n t = Inr t'"
  shows "only_reports (ls_lint t) (ls_lint t')"
proof -
  from assms obtain raw s1 s2 s3 rs st where
    "ParseNolintSuppressions f raw (int n) (ls_lint t) = Inr s1" "emit f rs s1 = Inr s2"
    "reporting f (CheckForNamespaceIndentation st c n) s2 = Inr s3" "ls_lint t' = s3"
    by (auto simp: update_nesting_def with_line_def outcome_eqs split: prod.splits)
  then show ?thesis using keeps_basic by (blast intro: reports.kept_trans)
qed

lemma only_reports_check_line:
  assumes "check_line fs extra f e c n t = ret t'"
  shows "only_reports (ls_lint t) (ls_lint t')"
proof -
  from assms obtain rs s1 s2 s3 rs' s4 s5 where "emit f rs (ls_lint t) = Inr s1"
    "reporting f (CheckForMultilineCommentsAndStrings c n) s1 = Inr s2"
    "CheckStyle fs f c n e (ls_nest t) s2 = ret s3" "emit f rs' s3 = Inr s4"
    "run_checks (late_checks f c n (ls_nest t) extra) s4 = Inr s5" "ls_lint t' = s5"
    by (auto simp: check_line_def Let_def outcome_eqs split: prod.splits)
  then show ?thesis
    by (metis keeps_basic(1,3) only_reports_CheckStyle reports.keepsD [OF keeps_late] reports.kept_trans)
qed

lemma only_reports_ProcessLine:
  "ProcessLine fs extra f e c n t = ret t' \<Longrightarrow> only_reports (ls_lint t) (ls_lint t')"
  by (auto simp: ProcessLine_def outcome_eqs split: if_splits
      dest!: only_reports_update only_reports_check_line intro: reports.kept_trans)

lemma only_reports_lines:
  "process_lines fs extra f e c ns t = ret t' \<Longrightarrow> only_reports (ls_lint t) (ls_lint t')"
proof (induction ns arbitrary: t)
  case (Cons n ns)
  then obtain t1 s1 where "ProcessLine fs extra f e c n t = ret t1"
    "reporting f (FlagCxx11Features c n) (ls_lint t1) = Inr s1"
    "process_lines fs extra f e c ns (t1\<lparr>ls_lint := s1\<rparr>) = ret t'"
    by (auto simp: outcome_eqs)
  then show ?case
    using only_reports_ProcessLine keeps_basic(3) Cons.IH [of "t1\<lparr>ls_lint := s1\<rparr>"]
    by (force intro: reports.kept_trans)
qed (simp add: reports.kept_refl)

lemma only_reports_suppressions:
  "only_reports s (ResetNolintSuppressions s)" "only_reports s (ProcessGlobalSuppresions lines s)"
proof -
  show "only_reports s (ResetNolintSuppressions s)"
    by (simp add: only_reports_def same_settings_def unsuppressed_def ResetNolintSuppressions_def counts_ok_def)
  have all: "only_reports s (suppress_all cs s)" for cs s
  proof (induction cs arbitrary: s)
    case (Cons c cs)
    have "only_reports s (s\<lparr>global_error_suppressions := (global_error_suppressions s)(c \<mapsto> True)\<rparr>)"
      by (simp add: only_reports_def same_settings_def unsuppressed_def counts_ok_def)
    from reports.kept_trans [OF this Cons.IH] show ?case by (simp add: suppress_all_def)
  qed (simp add: suppress_all_def reports.kept_refl)
  show "only_reports s (ProcessGlobalSuppresions lines s)"
    by (induction lines arbitrary: s)
      (auto simp: Let_def reports.kept_refl intro: reports.kept_trans [OF all] reports.kept_trans [OF reports.kept_trans [OF all all]])
qed

lemma only_reports_prepare:
  "prepare_file f lines s = Inr (lines', c, s') \<Longrightarrow> only_reports s s'"
proof -
  assume "prepare_file f lines s = Inr (lines', c, s')"
  then obtain rs s1 where "emit f (CheckForCopyright lines) (ResetNolintSuppressions s) = Inr s1"
    "emit f rs (ProcessGlobalSuppresions lines s1) = Inr s'"
    by (cases "RemoveMultiLineComments lines") (auto simp: prepare_file_def Let_def outcome_eqs)
  then show ?thesis using only_reports_suppressions keeps_basic(1) by (blast intro: reports.kept_trans)
qed

lemma only_reports_finish:
  "finish_file fs read f e lines c t = ret s' \<Longrightarrow> only_reports (ls_lint t) s'"
  by (auto simp: finish_file_def outcome_eqs dest!: keeps_basic(1)) (blast intro: reports.kept_trans)

lemma only_reports_file:
  assumes "ProcessFileData fs read extra f e lines s = ret s'"
  shows "only_reports s s'"
proof -
  from assms obtain lines' c s1 s2 t where
    prep: "prepare_file f (with_markers lines) s = Inr (lines', c, s1)"
    and guard: "(if IsHeaderExtension s1 e then CheckForHeaderGuard fs f c s1 else ret s1) = ret s2"
    and "process_lines fs extra f e c [0..<NumLines c] (line_state_init s2) = ret t"
      "finish_file fs read f e lines' c t = ret s'"
    by (auto simp: ProcessFileData_def outcome_eqs)
  moreover from guard have "only_reports s1 s2"
    by (auto simp: CheckForHeaderGuard_def Let_def ret_def reports.kept_refl split: if_splits dest!: keeps_guard)
  ultimately show ?thesis
    using only_reports_prepare only_reports_lines only_reports_finish
    by (metis line_state.select_convs(1) line_state_init_def reports.kept_trans)
qed

lemma only_reports_fields:
  assumes "only_reports s s'"
  shows "filters s' = filters s" "filters_backup s' = filters_backup s" "verbose_level s' = verbose_level s"
    "quiet s' = quiet s" "output_format s' = output_format s" "counting s' = counting s"
    "line_length s' = line_length s" "root_dir s' = root_dir s" "repository s' = repository s"
    "valid_extensions s' = valid_extensions s" "hpp_headers s' = hpp_headers s" "excludes s' = excludes s"
    "error_count s \<le> error_count s'" "counts_ok s \<Longrightarrow> counts_ok s'" "out s' = out s"
  using assms by (auto simp: only_reports_def same_settings_def unsuppressed_def)

end
