(* ===== verification/FileOutput.thy ===== *)
theory FileOutput
  imports FileFacts
begin

text \<open>
  What a file contributes to the output. Everything a check does to the lint state is to print
  reports and to add suppressions, and which it prints depends on the settings alone: started in two
  states with the same settings (but with other reports so far), a check prints the same reports in
  both (\<open>agree\<close>). The contract is composed along the calls up to \<open>ProcessFileData\<close>, so that no file
  sees what was reported for, or suppressed in, the files before it.
\<close>

named_theorems by_settings \<open>a function reads only the settings\<close>

section \<open>Settings and reports\<close>

definition settings :: "lint \<Rightarrow> lint" where
  "settings s = s\<lparr>error_count := 0, errors_by_category := [], junit_errors := [], junit_failures := [],
     out := [], err := []\<rparr>"

definition with_supp :: "lint \<Rightarrow> lint \<Rightarrow> lint" where
  "with_supp u s = s\<lparr>error_suppressions := error_suppressions u, global_error_suppressions := global_error_suppressions u\<rparr>"

text \<open>The part of \<open>Error\<close> that follows the decision to print.\<close>

definition print_report :: "string \<Rightarrow> report \<Rightarrow> lint \<Rightarrow> lint" where
  "print_report filename r s =
     (let s = IncrementErrorCount (r_category r) s; linenum = line_text (r_line r) in
      if output_format s = ''vs7'' then
        PrintError (filename @ ''('' @ linenum @ ''): error cpplint: ['' @ r_category r @
          ''] '' @ r_message r @ '' ['' @ str_int (r_confidence r) @ '']'' @ nl) s
      else if output_format s = ''eclipse'' then
        stderr_write (filename @ '':'' @ linenum @ '': warning: '' @ r_message r @ ''  ['' @
          r_category r @ ''] ['' @ str_int (r_confidence r) @ '']'' @ nl) s
      else if output_format s = ''junit'' then
        AddJUnitFailure filename (r_line r) (r_message r) (r_category r) (r_confidence r) s
      else
        stderr_write (filename @ '':'' @ linenum @ '':  '' @ r_message r @ ''  ['' @
          r_category r @ ''] ['' @ str_int (r_confidence r) @ '']'' @ nl) s)"

lemma Error_prints:
  "Error f (r_line r) (r_category r) (r_confidence r) (r_message r) s =
     bind_result (ShouldPrintError (r_category r) (r_confidence r) (r_line r) s)
       (\<lambda>p. Inr (if p then print_report f r s else s))"
  by (simp add: Error_def print_report_def Let_def bind_result_def split: sum.split)

lemma settings_fields [simp]:
  "verbose_level (settings s) = verbose_level s" "filters (settings s) = filters s"
  "output_format (settings s) = output_format s" "error_suppressions (settings s) = error_suppressions s"
  "global_error_suppressions (settings s) = global_error_suppressions s" "line_length (settings s) = line_length s"
  "valid_extensions (settings s) = valid_extensions s" "hpp_headers (settings s) = hpp_headers s"
  "root_dir (settings s) = root_dir s" "repository (settings s) = repository s" "counting (settings s) = counting s"
  "filters_backup (settings s) = filters_backup s" "quiet (settings s) = quiet s" "excludes (settings s) = excludes s"
  by (simp_all add: settings_def)

lemma print_report_output:
  "\<exists>n d js jf e. print_report f r s = s\<lparr>error_count := n, errors_by_category := d, junit_errors := js, junit_failures := jf, err := e\<rparr>"
  unfolding print_report_def IncrementErrorCount_def PrintError_def stderr_write_def AddJUnitFailure_def Let_def
  by (cases s) auto

lemma settings_print [simp]: "settings (print_report f r s) = settings s"
  using print_report_output [of f r s] by (auto simp: settings_def)

lemma settings_supp [simp]: "settings (with_supp u s) = with_supp u (settings s)"
  by (simp add: settings_def with_supp_def)

lemma print_supp: "print_report f r (with_supp u s) = with_supp u (print_report f r s)"
  by (simp add: print_report_def with_supp_def IncrementErrorCount_def count_key_def PrintError_def stderr_write_def
      AddJUnitFailure_def Let_def)

lemma with_supp_twice [simp]: "with_supp u (with_supp v s) = with_supp u s" "with_supp s s = s"
  by (simp_all add: with_supp_def)

lemma with_supp_cong: "settings u = settings v \<Longrightarrow> with_supp u s = with_supp v s"
  using settings_fields(4,5) by (metis with_supp_def)

text \<open>Printing some reports and changing the suppressions to those of \<open>u\<close>.\<close>

definition after :: "string \<Rightarrow> lint \<Rightarrow> report list \<Rightarrow> lint \<Rightarrow> lint" where
  "after f u ps s = with_supp u (fold (print_report f) ps s)"

lemma fold_print_supp: "fold (print_report f) ps (with_supp u s) = with_supp u (fold (print_report f) ps s)"
  by (induction ps arbitrary: s) (simp_all add: print_supp)

lemma after_after: "after f v qs (after f u ps s) = after f v (ps @ qs) s"
  by (simp add: after_def fold_print_supp)

lemma settings_fold [simp]: "settings (fold (print_report f) ps s) = settings s"
  by (induction ps arbitrary: s) simp_all

lemma settings_after: "settings (after f u ps s) = with_supp u (settings s)"
  by (simp add: after_def)

section \<open>What reads only the settings\<close>

lemma by_settings_eq: "(\<And>u. h (settings u) = h u) \<Longrightarrow> settings s = settings t \<Longrightarrow> h s = h t"
  by metis

lemma extensions_by_settings [by_settings]:
  "GetHeaderExtensions (settings s) = GetHeaderExtensions s" "IsHeaderExtension (settings s) e = IsHeaderExtension s e"
  "GetAllExtensions (settings s) = GetAllExtensions s" "GetNonHeaderExtensions (settings s) = GetNonHeaderExtensions s"
  "IsSourceExtension (settings s) e = IsSourceExtension s e"
  unfolding GetHeaderExtensions_def IsHeaderExtension_def GetAllExtensions_def
    GetNonHeaderExtensions_def IsSourceExtension_def settings_fields
  by (rule refl)+

lemma name_by_settings [by_settings]: "RepositoryName fs (settings s) f = RepositoryName fs s f"
  unfolding RepositoryName_def specified_repository_def settings_fields by (rule refl)

lemma guard_by_settings [by_settings]:
  "BaseName fs (settings s) f = BaseName fs s f" "Extension fs (settings s) f = Extension fs s f"
  "GetHeaderGuardCPPVariable fs (settings s) f = GetHeaderGuardCPPVariable fs s f"
  unfolding Split_def BaseName_def Extension_def FixupPathFromRoot_def GetHeaderGuardCPPVariable_def
    by_settings settings_fields
  by (rule refl)+

lemma scans_by_settings [by_settings]:
  "foreign_source fs (settings s) f i exts = foreign_source fs s f i exts"
  "own_header fs (settings s) f i exts = own_header fs s f i exts"
  "check_header_exts fs (settings s) f e inc exts = check_header_exts fs s f e inc exts"
  by (induction exts) (simp_all add: by_settings Let_def cong: option.case_cong if_cong)

lemma includes_by_settings [by_settings]:
  "ClassifyInclude fs (settings s) f i b = ClassifyInclude fs s f i b"
  "record_include fs (settings s) f c n i b inc = record_include fs s f c n i b inc"
  "CheckIncludeLine fs (settings s) f c n inc = CheckIncludeLine fs s f c n inc"
  unfolding ClassifyInclude_def DropCommonSuffixes_def common_suffixes_def record_include_def CheckIncludeLine_def by_settings
  by (rule refl)+

lemma module_by_settings [by_settings]:
  "FilesBelongToSameModule fs (settings s) a b = FilesBelongToSameModule fs s a b"
  unfolding FilesBelongToSameModule_def by_settings by (rule refl)

lemma headers_by_settings [by_settings]:
  "module_headers fs (settings s) read a hs d = module_headers fs s read a hs d"
  by (induction hs arbitrary: d)
    (simp_all add: by_settings Let_def split: prod.split cong: option.case_cong if_cong)

lemma file_by_settings [by_settings]:
  "CheckForIncludeWhatYouUse fs (settings s) read f c inc = CheckForIncludeWhatYouUse fs s read f c inc"
  "CheckHeaderFileIncluded fs (settings s) f inc = CheckHeaderFileIncluded fs s f inc"
  unfolding CheckForIncludeWhatYouUse_def CheckHeaderFileIncluded_def by_settings by (rule refl)+

lemma checks_by_settings [by_settings]:
  "CheckBraces (settings s) c n = CheckBraces s c n"
  "line_style_reports (settings s) c n v = line_style_reports s c n v"
  "CheckLanguage fs (settings s) f c n e inc = CheckLanguage fs s f c n e inc"
  unfolding CheckBraces_def opening_brace_reports_def line_style_reports_def length_reports_def
    CheckLanguage_def by_settings settings_fields
  by (rule refl)+

lemma decision_by_settings [by_settings]: "ShouldPrintError k n l (settings s) = ShouldPrintError k n l s"
  unfolding ShouldPrintError_def IsErrorSuppressedByNolint_def settings_fields by (rule refl)

section \<open>Agreement\<close>

definition supp_le :: "lint \<Rightarrow> lint \<Rightarrow> bool" where
  "supp_le s s' \<longleftrightarrow> (\<forall>k. error_suppressions s k \<subseteq> error_suppressions s' k)
     \<and> (\<forall>c. global_error_suppressions s c = Some True \<longrightarrow> global_error_suppressions s' c = Some True)"

definition printable :: "lint \<Rightarrow> report \<Rightarrow> bool" where
  "printable s r \<longleftrightarrow> ShouldPrintError (r_category r) (r_confidence r) (r_line r) s = Inr True"

lemma supp_le_refl [simp]: "supp_le s s"
  by (simp add: supp_le_def)

lemma supp_le_trans: "supp_le s t \<Longrightarrow> supp_le t u \<Longrightarrow> supp_le s u"
  unfolding supp_le_def by blast

lemma printable_earlier:
  assumes "supp_le s (after f u ps s)" and "printable (after f u ps s) r"
  shows "printable s r"
proof -
  have "settings (after f u ps s) = with_supp u (settings s)" by (rule settings_after)
  then have "verbose_level (after f u ps s) = verbose_level s" "filters (after f u ps s) = filters s"
    using settings_fields(1,2) [of "after f u ps s"] by (simp_all add: with_supp_def)
  with assms show ?thesis
    by (fastforce simp: printable_def ShouldPrintError_def IsErrorSuppressedByNolint_def supp_le_def
        split: if_splits option.splits)
qed

text \<open>
  Two runs of a step, from \<open>s\<close> and from \<open>t\<close>, agree: both do not return, raise the same exception, or print
  the same reports, all of which \<open>s\<close> lets pass, and end with the same suppressions and result, which
  holds the lint state at the place given by \<open>get\<close> and \<open>put\<close>.
\<close>

definition agree ::
    "('a \<Rightarrow> lint) \<Rightarrow> (lint \<Rightarrow> 'a \<Rightarrow> 'a) \<Rightarrow> string \<Rightarrow> lint \<Rightarrow> lint \<Rightarrow> 'a outcome \<Rightarrow> 'a outcome \<Rightarrow> bool" where
  "agree get put f s t m n \<longleftrightarrow>
     (case m of
        None \<Rightarrow> n = None
      | Some (Inl e) \<Rightarrow> n = Some (Inl e)
      | Some (Inr x) \<Rightarrow>
          \<exists>ps. get x = after f (get x) ps s \<and> n = ret (put (after f (get x) ps t) x)
            \<and> supp_le s (get x) \<and> list_all (printable s) ps)"

abbreviation agree_lint :: "string \<Rightarrow> lint \<Rightarrow> lint \<Rightarrow> lint outcome \<Rightarrow> lint outcome \<Rightarrow> bool" where
  "agree_lint \<equiv> agree (\<lambda>x. x) (\<lambda>u x. u)"

abbreviation agree_line :: "string \<Rightarrow> lint \<Rightarrow> lint \<Rightarrow> line_state outcome \<Rightarrow> line_state outcome \<Rightarrow> bool" where
  "agree_line \<equiv> agree ls_lint (\<lambda>u x. x\<lparr>ls_lint := u\<rparr>)"

lemma agree_bind:
  assumes m: "agree get put f s t m n" and st: "settings s = settings t"
    and k: "\<And>x u. settings (get x) = settings u \<Longrightarrow> agree get' put' f (get x) u (k x) (l (put u x))"
  shows "agree get' put' f s t (bind_outcome m k) (bind_outcome n l)"
proof (cases m)
  case None
  with m show ?thesis by (simp add: agree_def)
next
  case (Some r)
  show ?thesis
  proof (cases r)
    case (Inl e)
    with m Some show ?thesis by (simp add: agree_def)
  next
    case (Inr x)
    with m Some obtain ps where x: "get x = after f (get x) ps s" "supp_le s (get x)" "list_all (printable s) ps"
      and n: "n = ret (put (after f (get x) ps t) x)" by (auto simp: agree_def)
    define u where "u = after f (get x) ps t"
    have "settings (get x) = settings u"
      by (subst x(1)) (simp add: u_def settings_after st)
    from k [OF this] have K: "agree get' put' f (get x) u (k x) (l (put u x))" .
    have b: "bind_outcome m k = k x" "bind_outcome n l = l (put u x)" by (simp_all add: Some Inr n u_def)
    have earlier: "printable (get x) r \<Longrightarrow> printable s r" for r
      using printable_earlier [of s f "get x" ps r] x(1,2) by simp
    have s2: "after f v qs (get x) = after f v (ps @ qs) s" for v qs
      by (subst x(1)) (simp add: after_after)
    have t2: "after f v qs u = after f v (ps @ qs) t" for v qs
      by (simp add: u_def after_after)
    show ?thesis
    proof (cases "k x")
      case None
      with K show ?thesis by (simp add: b agree_def)
    next
      case (Some r')
      show ?thesis
      proof (cases r')
        case (Inl e)
        with K Some show ?thesis by (simp add: b agree_def)
      next
        case (Inr y)
        with K Some obtain qs where y: "get' y = after f (get' y) qs (get x)" "l (put u x) = ret (put' (after f (get' y) qs u) y)"
          "supp_le (get x) (get' y)" "list_all (printable (get x)) qs" by (auto simp: agree_def)
        from y(4) have "list_all (printable s) (ps @ qs)" using x(3) earlier by (auto simp: list_all_iff)
        then show ?thesis
          using Some Inr y(1-3) x(2) supp_le_trans [OF x(2) y(3)]
          by (auto simp: b agree_def s2 t2 intro!: exI [of _ "ps @ qs"])
      qed
    qed
  qed
qed

lemma agree_ret: "settings s = settings t \<Longrightarrow> get x = s \<Longrightarrow> y = put t x \<Longrightarrow> agree get put f s t (ret x) (ret y)"
proof -
  assume st: "settings s = settings t" and x: "get x = s" "y = put t x"
  have "with_supp s t = with_supp t t" using with_supp_cong [OF st] by simp
  then have "after f s [] t = t" "after f s [] s = s" by (simp_all add: after_def)
  then show ?thesis by (auto simp: agree_def ret_def x intro!: exI [of _ "[]"])
qed

lemma agree_raise: "agree get put f s t (Some (Inl e)) (Some (Inl e))" "agree get put f s t None None"
  by (simp_all add: agree_def)

lemma agree_value:
  "m = n \<Longrightarrow> (\<And>v. agree get put f s t (k v) (l v)) \<Longrightarrow> agree get put f s t (bind_outcome m k) (bind_outcome n l)"
  by (auto simp: bind_outcome_def agree_raise split: option.split sum.split)

lemma agree_prod:
  "(\<And>a b. agree get put f s t (k a b) (l a b)) \<Longrightarrow> agree get put f s t (case p of (a, b) \<Rightarrow> k a b) (case p of (a, b) \<Rightarrow> l a b)"
  by (cases p) simp

lemma Some_bind: "Some (bind_result r k) = bind_outcome (Some r) (\<lambda>x. Some (k x))"
  by (cases r) simp_all

lemma Some_ret: "Some (Inr x) = ret x"
  by (simp add: ret_def)

lemma decision_eq: "settings s = settings t \<Longrightarrow> ShouldPrintError k n l s = ShouldPrintError k n l t"
  by (rule by_settings_eq [of "ShouldPrintError k n l"]) (rule by_settings)

lemma agree_Error:
  assumes "settings s = settings t"
  shows "agree_lint f s t (Some (Error f l k n m s)) (Some (Error f l k n m t))"
proof -
  define r where "r = \<lparr>r_line = l, r_category = k, r_confidence = n, r_message = m\<rparr>"
  have e: "Error f l k n m u = bind_result (ShouldPrintError k n l u) (\<lambda>p. Inr (if p then print_report f r u else u))" for u
    using Error_prints [of f r u] by (simp add: r_def)
  have d: "ShouldPrintError k n l t = ShouldPrintError k n l s" using decision_eq [OF assms] by simp
  show ?thesis
  proof (cases "ShouldPrintError k n l s")
    case (Inl x)
    then show ?thesis by (simp add: e d agree_raise)
  next
    case (Inr p)
    have pr: "agree_lint f s t (ret (print_report f r s)) (ret (print_report f r t))" if p
    proof -
      have supp: "with_supp (print_report f r s) u = u" if "settings u = settings s" for u
        using with_supp_cong [of "print_report f r s" u u] that by simp
      have "after f (print_report f r s) [r] s = print_report f r s" "after f (print_report f r s) [r] t = print_report f r t"
        using supp [of "print_report f r s"] supp [of "print_report f r t"] assms by (simp_all add: after_def)
      moreover have "supp_le s (print_report f r s)"
        using settings_fields(4,5) [of s] settings_fields(4,5) [of "print_report f r s"] by (simp add: supp_le_def)
      moreover have "printable s r" using Inr that by (simp add: printable_def r_def)
      ultimately show ?thesis by (auto simp: agree_def ret_def intro!: exI [of _ "[r]"])
    qed
    show ?thesis
      using pr agree_ret [OF assms, of "\<lambda>x. x" s t "\<lambda>u x. u"] by (auto simp: e d Inr Some_ret)
  qed
qed

lemma agree_emit:
  "settings s = settings t \<Longrightarrow> agree_lint f s t (Some (emit f rs s)) (Some (emit f rs t))"
proof (induction rs arbitrary: s t)
  case (Cons r rs)
  show ?case
    unfolding emit.simps Some_bind
    by (rule agree_bind [OF agree_Error [OF Cons.prems] Cons.prems Cons.IH])
qed (simp add: emit.simps Some_ret agree_ret)

text \<open>A check that changes the lint state only, in agreement with itself.\<close>

definition traced :: "string \<Rightarrow> (lint \<Rightarrow> lint result) \<Rightarrow> bool" where
  "traced f g \<longleftrightarrow> (\<forall>s t. settings s = settings t \<longrightarrow> agree_lint f s t (Some (g s)) (Some (g t)))"

lemma tracedI: "(\<And>s t. settings s = settings t \<Longrightarrow> agree_lint f s t (Some (g s)) (Some (g t))) \<Longrightarrow> traced f g"
  by (simp add: traced_def)

lemma tracedD: "traced f g \<Longrightarrow> settings s = settings t \<Longrightarrow> agree_lint f s t (Some (g s)) (Some (g t))"
  by (simp add: traced_def)

lemma traced_emit: "traced f (emit f rs)"
  by (rule tracedI) (rule agree_emit)

lemma traced_bind: "traced f g \<Longrightarrow> traced f h \<Longrightarrow> traced f (\<lambda>s. bind_result (g s) h)"
  unfolding Some_bind traced_def by (blast intro: agree_bind)

lemma traced_value: "(\<And>v. traced f (h v)) \<Longrightarrow> traced f (\<lambda>s. bind_result m (\<lambda>v. h v s))"
  unfolding Some_bind traced_def by (blast intro: agree_value)

lemma traced_return: "traced f Inr" "traced f (\<lambda>s. Inl e)"
  by (auto intro!: tracedI simp: Some_ret agree_ret agree_raise)

lemma traced_case: "traced f g \<Longrightarrow> (\<And>x. traced f (h x)) \<Longrightarrow> traced f (\<lambda>s. case m of None \<Rightarrow> g s | Some x \<Rightarrow> h x s)"
  by (cases m) simp_all

lemma traced_if: "traced f g \<Longrightarrow> traced f h \<Longrightarrow> traced f (\<lambda>s. if b then g s else h s)"
  by (cases b) simp_all

lemma traced_prod: "(\<And>a b. traced f (h a b)) \<Longrightarrow> traced f (\<lambda>s. case p of (a, b) \<Rightarrow> h a b s)"
  by (cases p) simp

lemma traced_reporting: "traced f (reporting f check)"
  unfolding reporting_def [abs_def] by (rule traced_value) (rule traced_emit)

lemma traced_reporting_at:
  assumes "\<And>s. check (settings s) = check s"
  shows "traced f (\<lambda>s. reporting f (check s) s)"
proof (rule tracedI)
  fix s t assume st: "settings s = settings t"
  have "check s = check t" by (rule by_settings_eq [of check, OF assms st])
  with tracedD [OF traced_reporting st] show "agree_lint f s t (Some (reporting f (check s) s)) (Some (reporting f (check t) t))"
    by simp
qed

lemma traced_add: "traced f (\<lambda>s. Inr (add_suppression k n s))"
proof (rule tracedI)
  fix s t assume st: "settings s = settings t"
  let ?s' = "add_suppression k n s"
  have supp: "error_suppressions t = error_suppressions s" "global_error_suppressions t = global_error_suppressions s"
    using settings_fields(4,5) [of s] settings_fields(4,5) [of t] st by simp_all
  have "after f ?s' [] s = ?s'" "after f ?s' [] t = add_suppression k n t" "supp_le s ?s'"
    by (simp_all add: after_def with_supp_def add_suppression_def supp_le_def supp subset_insertI)
  then show "agree_lint f s t (Some (Inr ?s')) (Some (Inr (add_suppression k n t)))"
    by (auto simp: agree_def ret_def intro!: exI [of _ "[]"])
qed

lemma traced_nolint: "traced f (ParseNolintSuppressions f raw n)"
  unfolding ParseNolintSuppressions_def [abs_def] Let_def
  by (intro traced_case traced_if traced_return traced_add tracedI [OF agree_Error])

lemmas traced_intros = traced_nolint traced_emit traced_reporting traced_return traced_case traced_if traced_prod

lemma traced_semicolon: "traced f (CheckTrailingSemicolon f c n)"
  unfolding CheckTrailingSemicolon_def [abs_def] with_elided_def with_line_def
  by (intro traced_value traced_bind traced_intros)

lemma traced_guard: "traced f (check_guard f raw v)"
  unfolding check_guard_def [abs_def] Let_def
  by (intro traced_value traced_bind traced_intros)

lemma traced_checks: "\<forall>g \<in> set gs. traced f g \<Longrightarrow> traced f (run_checks gs)"
proof (induction gs)
  case (Cons g gs)
  then have "traced f g" "traced f (run_checks gs)" by simp_all
  from traced_bind [OF this] show ?case by (simp add: traced_def)
qed (simp add: traced_def Some_ret agree_ret)

lemma traced_style: "traced f (run_checks (style_checks f c n st v))"
  by (rule traced_checks)
    (auto simp: style_checks_def intro!: traced_semicolon traced_reporting traced_reporting_at by_settings)

lemma traced_late: "traced f (run_checks (late_checks f c n st extra))"
  by (rule traced_checks) (auto simp: late_checks_def traced_reporting)

section \<open>One line\<close>

lemma agree_CheckStyle:
  assumes st: "settings s = settings t"
  shows "agree_lint f s t (CheckStyle fs f c n e nst s) (CheckStyle fs f c n e nst t)"
proof -
  have "IsHeaderExtension t e = IsHeaderExtension s e" "GetHeaderGuardCPPVariable fs t f = GetHeaderGuardCPPVariable fs s f"
    using extensions_by_settings(2) guard_by_settings(3) st by metis+
  then show ?thesis
    unfolding CheckStyle_def by (auto intro!: agree_value tracedD [OF traced_style st])
qed

lemma agree_check_line:
  assumes st: "settings (ls_lint x) = settings u"
  shows "agree_line f (ls_lint x) u (check_line fs extra f e c n x) (check_line fs extra f e c n (x\<lparr>ls_lint := u\<rparr>))"
proof -
  obtain s inc fn nst where x: "x = \<lparr>ls_lint = s, ls_inc = inc, ls_fun = fn, ls_nest = nst\<rparr>" by (cases x)
  have su: "settings s = settings u" using st by (simp add: x)
  have v: "verbose_level u = verbose_level s" using settings_fields(1) su by metis
  have lang: "CheckLanguage fs s f c n e inc = CheckLanguage fs t f c n e inc" if "settings s = settings t" for s t inc
    using checks_by_settings(3) that by metis
  show ?thesis
    unfolding x check_line_def Let_def line_state.simps v
    by (intro agree_value [OF refl] agree_prod agree_bind [OF agree_emit] agree_bind [OF tracedD [OF traced_reporting]]
        agree_bind [OF agree_CheckStyle] agree_value [OF lang] agree_bind [OF tracedD [OF traced_late]] agree_ret su)
      (assumption | simp)+
qed

lemma Some_prod: "Some (case p of (a, b) \<Rightarrow> g a b) = (case p of (a, b) \<Rightarrow> Some (g a b))"
  by (cases p) simp

lemma agree_update:
  assumes st: "settings (ls_lint x) = settings u"
  shows "agree_line f (ls_lint x) u (Some (update_nesting f c n x)) (Some (update_nesting f c n (x\<lparr>ls_lint := u\<rparr>)))"
proof -
  obtain s inc fn nst where x: "x = \<lparr>ls_lint = s, ls_inc = inc, ls_fun = fn, ls_nest = nst\<rparr>" by (cases x)
  have su: "settings s = settings u" using st by (simp add: x)
  show ?thesis
    unfolding x update_nesting_def with_line_def line_state.simps Some_bind Some_prod Some_ret
    by (intro agree_value [OF refl] agree_bind [OF tracedD [OF traced_nolint]] agree_prod agree_bind [OF agree_emit]
        agree_bind [OF tracedD [OF traced_reporting]] agree_ret su)
      (assumption | simp)+
qed

lemma agree_ProcessLine:
  assumes st: "settings (ls_lint x) = settings u"
  shows "agree_line f (ls_lint x) u (ProcessLine fs extra f e c n x) (ProcessLine fs extra f e c n (x\<lparr>ls_lint := u\<rparr>))"
  unfolding ProcessLine_def
  by (intro agree_bind [OF agree_update [OF st] st])
    (auto simp: agree_ret intro: agree_check_line)

lemma agree_process_lines:
  "settings (ls_lint x) = settings u \<Longrightarrow>
     agree_line f (ls_lint x) u (process_lines fs extra f e c ns x) (process_lines fs extra f e c ns (x\<lparr>ls_lint := u\<rparr>))"
proof (induction ns arbitrary: x u)
  case (Cons n ns)
  have rest: "agree_line f (ls_lint y) v
      (bind_outcome (Some (reporting f (FlagCxx11Features c n) (ls_lint y))) (\<lambda>s. process_lines fs extra f e c ns (y\<lparr>ls_lint := s\<rparr>)))
      (bind_outcome (Some (reporting f (FlagCxx11Features c n) v)) (\<lambda>s. process_lines fs extra f e c ns (y\<lparr>ls_lint := s\<rparr>)))"
    if y: "settings (ls_lint y) = settings v" for y v
  proof (rule agree_bind [OF tracedD [OF traced_reporting y] y])
    fix s t assume "settings s = settings t"
    then show "agree_line f s t (process_lines fs extra f e c ns (y\<lparr>ls_lint := s\<rparr>)) (process_lines fs extra f e c ns (y\<lparr>ls_lint := t\<rparr>))"
      using Cons.IH [of "y\<lparr>ls_lint := s\<rparr>" t] by simp
  qed
  show ?case
    unfolding process_lines.simps
    by (rule agree_bind [OF agree_ProcessLine [OF Cons.prems] Cons.prems]) (use rest in simp)
qed (simp add: agree_ret)

section \<open>One file\<close>

lemma supp_le_suppress: "supp_le s (suppress_all cs s)"
proof (induction cs arbitrary: s)
  case (Cons c cs)
  have "supp_le s (s\<lparr>global_error_suppressions := (global_error_suppressions s)(c \<mapsto> True)\<rparr>)"
    by (simp add: supp_le_def)
  from supp_le_trans [OF this Cons.IH] show ?case by (simp add: suppress_all_def)
qed (simp add: suppress_all_def)

lemma suppress_all_after:
  "settings s = settings t \<Longrightarrow> suppress_all cs s = with_supp (suppress_all cs s) s
     \<and> suppress_all cs t = with_supp (suppress_all cs s) t"
proof (induction cs arbitrary: s t)
  case (Cons c cs)
  let ?g = "\<lambda>s. s\<lparr>global_error_suppressions := (global_error_suppressions s)(c \<mapsto> True)\<rparr>"
  have "global_error_suppressions s = global_error_suppressions t"
    using Cons.prems settings_fields(5) by metis
  moreover have "settings (s\<lparr>global_error_suppressions := m\<rparr>) = (settings s)\<lparr>global_error_suppressions := m\<rparr>" for s m
    by (simp add: settings_def)
  ultimately have "settings (?g s) = settings (?g t)" using Cons.prems by simp
  from Cons.IH [OF this] have "suppress_all cs (?g s) = with_supp (suppress_all cs (?g s)) (?g s)"
    "suppress_all cs (?g t) = with_supp (suppress_all cs (?g s)) (?g t)" by blast+
  then show ?case by (simp add: suppress_all_def with_supp_def)
next
  case Nil
  then show ?case using with_supp_cong [of s t t] by (simp add: suppress_all_def)
qed

lemma traced_global: "traced f (\<lambda>s. Inr (ProcessGlobalSuppresions ls s))"
proof (induction ls)
  case (Cons l ls)
  have all: "traced f (\<lambda>s. Inr (suppress_all cs s))" for cs
  proof (rule tracedI)
    fix s t assume st: "settings s = settings t"
    from suppress_all_after [OF st, of cs] show "agree_lint f s t (Some (Inr (suppress_all cs s))) (Some (Inr (suppress_all cs t)))"
      using supp_le_suppress [of s cs] by (auto simp: agree_def ret_def after_def intro!: exI [of _ "[]"])
  qed
  have "traced f (\<lambda>s. bind_result (if b then Inr (suppress_all cs s) else Inr s) (\<lambda>s.
      bind_result (if b' then Inr (suppress_all cs' s) else Inr s) (\<lambda>s. Inr (ProcessGlobalSuppresions ls s))))" for b b' cs cs'
    by (intro traced_bind traced_if all traced_return Cons.IH)
  moreover have "Inr (ProcessGlobalSuppresions (l # ls) s) =
      bind_result (if is_found SEARCH_C_FILE l then Inr (suppress_all DEFAULT_C_SUPPRESSED_CATEGORIES s) else Inr s) (\<lambda>s.
      bind_result (if is_found SEARCH_KERNEL_FILE l then Inr (suppress_all DEFAULT_KERNEL_SUPPRESSED_CATEGORIES s) else Inr s)
        (\<lambda>s. Inr (ProcessGlobalSuppresions ls s)))" for s
    unfolding ProcessGlobalSuppresions.simps Let_def
    by (cases "is_found SEARCH_C_FILE l"; cases "is_found SEARCH_KERNEL_FILE l") (simp_all only: if_True if_False bind_result_simps)
  ultimately show ?case by (simp only:)
qed (simp add: traced_return)


lemma agree_step:
  assumes "traced f (\<lambda>s. Inr (g s))" and "settings s = settings t"
    and "\<And>s t. settings s = settings t \<Longrightarrow> agree get put f s t (k s) (l t)"
  shows "agree get put f s t (k (g s)) (l (g t))"
  using agree_bind [OF tracedD [OF assms(1,2)] assms(2), of get put k l] assms(3) by simp

abbreviation agree_prepared ::
    "string \<Rightarrow> lint \<Rightarrow> lint \<Rightarrow> (string list \<times> cleansed \<times> lint) outcome \<Rightarrow> (string list \<times> cleansed \<times> lint) outcome \<Rightarrow> bool" where
  "agree_prepared \<equiv> agree (\<lambda>(lines, c, s). s) (\<lambda>u (lines, c, s). (lines, c, u))"

lemma agree_prepare:
  assumes st: "settings (ResetNolintSuppressions s) = settings (ResetNolintSuppressions t)"
  shows "agree_prepared f (ResetNolintSuppressions s) (ResetNolintSuppressions t)
    (Some (prepare_file f lines s)) (Some (prepare_file f lines t))"
proof -
  obtain ls rs where r: "RemoveMultiLineComments lines = (ls, rs)" by (cases "RemoveMultiLineComments lines") auto
  have rest: "agree_prepared f s t
      (bind_outcome (Some (emit f rs (ProcessGlobalSuppresions lines s))) (\<lambda>s. bind_outcome (Some (CleansedLines ls)) (\<lambda>c. ret (ls, c, s))))
      (bind_outcome (Some (emit f rs (ProcessGlobalSuppresions lines t))) (\<lambda>s. bind_outcome (Some (CleansedLines ls)) (\<lambda>c. ret (ls, c, s))))"
    if st: "settings s = settings t" for s t
    by (rule agree_step [OF traced_global st])
      (intro agree_bind [OF agree_emit] agree_value [OF refl] agree_ret, (assumption | simp)+)
  show ?thesis
    unfolding prepare_file_def Let_def r prod.case Some_bind Some_ret
    by (rule agree_bind [OF agree_emit [OF st] st], rule rest)
qed

lemma agree_guard:
  assumes st: "settings s = settings t"
  shows "agree_lint f s t (CheckForHeaderGuard fs f c s) (CheckForHeaderGuard fs f c t)"
proof -
  have "GetHeaderGuardCPPVariable fs t f = GetHeaderGuardCPPVariable fs s f"
    using guard_by_settings(3) st by metis
  then show ?thesis
    unfolding CheckForHeaderGuard_def Let_def
    by (cases "GetHeaderGuardCPPVariable fs s f")
      (auto simp: Some_ret agree_ret st agree_raise intro: tracedD [OF traced_guard st])
qed

lemma agree_finish:
  assumes st: "settings (ls_lint x) = settings u"
  shows "agree_lint f (ls_lint x) u (finish_file fs read f e lines c x) (finish_file fs read f e lines c (x\<lparr>ls_lint := u\<rparr>))"
proof -
  have eqs: "may_diverge (CheckForIncludeWhatYouUse fs s read f c inc) = may_diverge (CheckForIncludeWhatYouUse fs t read f c inc)"
    "(if IsSourceExtension s e then may_diverge (CheckHeaderFileIncluded fs s f inc) else ret []) =
     (if IsSourceExtension t e then may_diverge (CheckHeaderFileIncluded fs t f inc) else ret [])"
    if "settings s = settings t" for s t inc
    using extensions_by_settings(5) file_by_settings that by metis+
  have fields: "ls_inc (x\<lparr>ls_lint := u\<rparr>) = ls_inc x" "ls_nest (x\<lparr>ls_lint := u\<rparr>) = ls_nest x"
    "ls_lint (x\<lparr>ls_lint := u\<rparr>) = u" by simp_all
  show ?thesis
    unfolding finish_file_def fields
    by (intro agree_bind [OF agree_emit] agree_value [OF eqs(1)] agree_value [OF eqs(2)] agree_emit st) assumption+
qed

text \<open>C5. A file is checked independently of the files before it: from two states that differ only in
  the suppressions and in the reports so far, its checks do the same. They do not return, raise the
  same exception, or print the same reports, all of which the verbosity and the filters let pass.\<close>

theorem file_noninterference:
  assumes st: "settings (ResetNolintSuppressions s) = settings (ResetNolintSuppressions t)"
  shows "agree_lint f (ResetNolintSuppressions s) (ResetNolintSuppressions t)
    (ProcessFileData fs read extra f e lines s) (ProcessFileData fs read extra f e lines t)"
  unfolding ProcessFileData_def
proof (rule agree_bind [OF agree_prepare [OF st] st], goal_cases)
  case (1 p u)
  obtain ls c s where x: "p = (ls, c, s)" by (cases p)
  from 1 have st: "settings s = settings u" by (simp add: x)
  have h: "IsHeaderExtension u e = IsHeaderExtension s e" using extensions_by_settings(2) st by metis
  have g: "agree_lint f s u (if IsHeaderExtension s e then CheckForHeaderGuard fs f c s else ret s)
      (if IsHeaderExtension s e then CheckForHeaderGuard fs f c u else ret u)"
    by (simp add: agree_guard agree_ret st)
  have lines: "agree_lint f s u
      (bind_outcome (process_lines fs extra f e c [0..<NumLines c] (line_state_init s)) (finish_file fs read f e ls c))
      (bind_outcome (process_lines fs extra f e c [0..<NumLines c] (line_state_init u)) (finish_file fs read f e ls c))"
    if st: "settings s = settings u" for s u
  proof -
    have i: "ls_lint (line_state_init s) = s" "line_state_init u = (line_state_init s)\<lparr>ls_lint := u\<rparr>"
      by (simp_all add: line_state_init_def)
    have "agree_line f s u (process_lines fs extra f e c [0..<NumLines c] (line_state_init s))
        (process_lines fs extra f e c [0..<NumLines c] (line_state_init u))"
      using agree_process_lines [of "line_state_init s" u] st by (simp add: i)
    then show ?thesis by (rule agree_bind [OF _ st]) (rule agree_finish)
  qed
  show ?case
    unfolding x prod.case h by (rule agree_bind [OF g st]) (rule lines)
qed

theorem file_noninterference_witness:
  "agree_lint ''a.h'' (ResetNolintSuppressions CppLintState_init)
     (ResetNolintSuppressions (CppLintState_init\<lparr>error_count := 3, error_suppressions := (\<lambda>_. {7})\<rparr>))
     (ProcessFileData example_fs (\<lambda>_. None) [] ''a.h'' ''h'' [''int x;''] CppLintState_init)
     (ProcessFileData example_fs (\<lambda>_. None) [] ''a.h'' ''h'' [''int x;'']
        (CppLintState_init\<lparr>error_count := 3, error_suppressions := (\<lambda>_. {7})\<rparr>))"
  by (rule file_noninterference) (simp add: settings_def ResetNolintSuppressions_def)

section \<open>Suppressed lines\<close>

lemma add_suppression_twice [simp]: "add_suppression k n (add_suppression k n s) = add_suppression k n s"
  by (simp add: add_suppression_def)

lemma printable_unsuppressed: "n \<in> error_suppressions s None \<Longrightarrow> printable s r \<Longrightarrow> r_line r \<noteq> Some n"
  by (auto simp: printable_def ShouldPrintError_def IsErrorSuppressedByNolint_def)

text \<open>C6. A NOLINT comment without a category silences its line, and NOLINTNEXTLINE the next one: none
  of the reports printed for the line of the comment and those after it is one for that line.\<close>

theorem nolint_silences_line:
  assumes "n < length (cl_raw_lines c)"
    and "Search (rx ''`bNOLINT(NEXTLINE)?`b(`([^)]+`))?'') (cl_raw_lines c ! n) = Some m" and "group m 2 = None"
    and run: "process_lines fs extra f e c (n # ns) x = ret y"
    and l: "l = (if grp m 1 \<noteq> [] then int n + 1 else int n)"
  shows "\<exists>ps. ls_lint y = after f (ls_lint y) ps (add_suppression None l (ls_lint x)) \<and> (\<forall>r \<in> set ps. r_line r \<noteq> Some l)"
proof -
  define x' where "x' = x\<lparr>ls_lint := add_suppression None l (ls_lint x)\<rparr>"
  have raw: "py_get (cl_raw_lines c) (int n) = Inr (cl_raw_lines c ! n)" using assms(1) by (simp add: py_get_def)
  have parse: "ParseNolintSuppressions f (cl_raw_lines c ! n) (int n) s = Inr (add_suppression None l s)" for s
    by (simp add: ParseNolintSuppressions_def assms(2,3) l)
  have "update_nesting f c n x = update_nesting f c n x'"
    by (simp add: update_nesting_def with_line_def raw parse x'_def)
  then have run': "process_lines fs extra f e c (n # ns) x' = ret y"
    using run by (simp add: ProcessLine_def)
  have "agree_line f (ls_lint x') (ls_lint x') (process_lines fs extra f e c (n # ns) x')
      (process_lines fs extra f e c (n # ns) (x'\<lparr>ls_lint := ls_lint x'\<rparr>))"
    by (rule agree_process_lines) simp
  then obtain ps where "ls_lint y = after f (ls_lint y) ps (ls_lint x')" "list_all (printable (ls_lint x')) ps"
    unfolding run' by (auto simp: agree_def ret_def)
  moreover have "l \<in> error_suppressions (ls_lint x') None" by (simp add: x'_def add_suppression_def)
  ultimately show ?thesis using printable_unsuppressed by (fastforce simp: list_all_iff x'_def)
qed

text \<open>A line of an assembly block with such a comment.\<close>

definition asm_line :: cleansed where
  "asm_line = \<lparr>cl_elided = [''''], cl_lines = [''''], cl_raw_lines = [''// NOLINT''], cl_num_lines = 1,
     cl_lines_without_raw_strings = [''// NOLINT'']\<rparr>"

definition in_asm :: nesting where
  "in_asm = NestingState_init\<lparr>nst_stack := [(BlockInfo_init 0 0 True)\<lparr>open_parentheses := 1, inline_asm := BLOCK_ASM\<rparr>]\<rparr>"

lemma empty_line_tokens:
  "Match NAMESPACE_PATTERN '''' = None" "Match BRACE_PATTERN '''' = None"
  "\<not> is_if_line ''''" "\<not> is_else_line ''''" "\<not> is_endif_line ''''"
  by code_simp+

lemma update_asm_line: "Update asm_line 0 in_asm = Inr (remember_top in_asm, [])"
  by (simp add: Update_def asm_line_def in_asm_def with_elided_def with_line_def Let_def UpdatePreprocessor_def
      empty_line_tokens class_step_def access_step_def check_begin_step_def remember_top_def namespace_loop.simps
      brace_loop.simps map_top_def update_block_def BlockInfo_init_def SeenOpenBrace_def py_get_def NestingState_init_def
      py_count_single split: option.split)

lemma asm_line_checks:
  "FlagCxx11Features asm_line 0 = Inr []" "CheckForNamespaceIndentation (remember_top in_asm) asm_line 0 = Inr []"
  "InAsmBlock (remember_top in_asm)" "py_get (cl_raw_lines asm_line) 0 = Inr ''// NOLINT''"
  by code_simp+

lemma asm_line_comment:
  "map_option (\<lambda>m. (group m 2, grp m 1)) (Search (rx ''`bNOLINT(NEXTLINE)?`b(`([^)]+`))?'') ''// NOLINT'') = Some (None, [])"
  by code_simp

lemma process_asm_line:
  assumes "ls_nest x = in_asm"
  shows "\<exists>y. process_lines fs extra f e asm_line [0] x = ret y"
proof -
  obtain m where m: "Search (rx ''`bNOLINT(NEXTLINE)?`b(`([^)]+`))?'') ''// NOLINT'' = Some m" "group m 2 = None" "grp m 1 = []"
    using asm_line_comment by auto
  have "ParseNolintSuppressions f ''// NOLINT'' 0 s = Inr (add_suppression None 0 s)" for s
    using m by (simp add: ParseNolintSuppressions_def)
  then show ?thesis
    by (simp add: ProcessLine_def update_nesting_def with_line_def assms update_asm_line asm_line_checks emit.simps
        reporting_def)
qed

theorem nolint_silences_line_witness:
  "\<exists>y ps. process_lines example_fs [] ''a.h'' ''h'' asm_line [0] ((line_state_init CppLintState_init)\<lparr>ls_nest := in_asm\<rparr>) = ret y
     \<and> ls_lint y = after ''a.h'' (ls_lint y) ps (add_suppression None 0 CppLintState_init) \<and> (\<forall>r \<in> set ps. r_line r \<noteq> Some 0)"
proof -
  obtain m where m: "Search (rx ''`bNOLINT(NEXTLINE)?`b(`([^)]+`))?'') ''// NOLINT'' = Some m" "group m 2 = None" "grp m 1 = []"
    using asm_line_comment by auto
  let ?x = "(line_state_init CppLintState_init)\<lparr>ls_nest := in_asm\<rparr>"
  obtain y where y: "process_lines example_fs [] ''a.h'' ''h'' asm_line [0] ?x = ret y"
    using process_asm_line [of ?x example_fs "[]"] by (auto simp del: process_lines.simps)
  have raw: "0 < length (cl_raw_lines asm_line)" "cl_raw_lines asm_line ! 0 = ''// NOLINT''" by (simp_all add: asm_line_def)
  have "\<exists>ps. ls_lint y = after ''a.h'' (ls_lint y) ps (add_suppression None 0 (ls_lint ?x)) \<and> (\<forall>r \<in> set ps. r_line r \<noteq> Some 0)"
    using nolint_silences_line [OF raw(1) _ m(2) y, of 0] m by (simp add: raw)
  with y show ?thesis by (auto simp: line_state_init_def)
qed

end
