(* ===== verification/Driver.thy ===== *)
theory Driver
  imports FileChecks
begin

text \<open>
  The configuration files and the reading of a file: \<open>ProcessConfigOverrides\<close> climbs from the directory
  of the file and reads every \<open>CPPLINT.cfg\<close> on the way, and \<open>ProcessFile\<close> reads the file, strips carriage
  returns, and runs \<open>ProcessFileData\<close>. What the operating system provides is the record \<open>world\<close>: the file
  system, the contents of files, directory listings and glob patterns.
\<close>

record world =
  w_fs :: fsys
  is_file :: "string \<Rightarrow> bool"
  is_dir :: "string \<Rightarrow> bool"
  read_text :: "string \<Rightarrow> string option"             \<comment> \<open>\<open>None\<close> is an \<open>IOError\<close>\<close>
  stdin_text :: string
  walk :: "string \<Rightarrow> (string \<times> string list) list"     \<comment> \<open>\<open>os.walk\<close>: directories and their files\<close>
  glob_paths :: "string \<Rightarrow> string list"
  python_version :: string

section \<open>Access to the module state\<close>

definition OutputFormat :: "lint \<Rightarrow> string" where "OutputFormat s = output_format s"
definition Quiet :: "lint \<Rightarrow> bool" where "Quiet s = quiet s"
definition VerboseLevel :: "lint \<Rightarrow> int" where "VerboseLevel s = verbose_level s"
definition Filters :: "lint \<Rightarrow> string list" where "Filters s = filters s"

section \<open>Configuration files\<close>

record config =
  cfg_filters :: "string list"
  keep_looking :: bool
  cfg_lint :: lint

abbreviation with_lint :: "(lint \<Rightarrow> lint) \<Rightarrow> config \<Rightarrow> config" where
  "with_lint f cfg \<equiv> cfg\<lparr>cfg_lint := f (cfg_lint cfg)\<rparr>"

text \<open>One option; the flag says that the file is excluded.\<close>

definition config_option ::
    "string \<Rightarrow> string \<Rightarrow> string \<Rightarrow> string \<Rightarrow> string \<Rightarrow> config \<Rightarrow> (bool \<times> config) result" where
  \<open>config_option filename cfg_file base_name name val cfg =
     (if name = ''set noparent'' then Inr (False, cfg\<lparr>keep_looking := False\<rparr>)
      else if name = ''filter'' then Inr (False, cfg\<lparr>cfg_filters := cfg_filters cfg @ [val]\<rparr>)
      else if name = ''exclude_files'' then
        (case re_compile no_flags val of
           None \<Rightarrow> Inl (ValueError ''re.error'')
         | Some pattern \<Rightarrow>
             if re_match pattern base_name = None then Inr (False, cfg)
             else if quiet (cfg_lint cfg) then Inr (True, cfg)
             else Inr (True, with_lint (PrintInfo
                    (''Ignoring "'' @ filename @ ''": file excluded by "'' @ cfg_file @ ''". '' @
                     ''File path component "'' @ base_name @ ''" matches '' @ ''pattern "'' @ val @ ''"'' @ nl)) cfg))
      else if name = ''linelength'' then
        (case py_int val of
           Some n \<Rightarrow> Inr (False, with_lint (\<lambda>s. s\<lparr>line_length := n\<rparr>) cfg)
         | None \<Rightarrow> Inr (False, with_lint (PrintError ''Line length must be numeric.'') cfg))
      else if name = ''extensions'' then Inr (False, with_lint (ProcessExtensionsOption val) cfg)
      else if name = ''root'' then
        Inr (False, with_lint (\<lambda>s. s\<lparr>root_dir := Some (path_join (path_dirname cfg_file) val)\<rparr>) cfg)
      else if name = ''headers'' then Inr (False, with_lint (ProcessHppHeadersOption val) cfg)
      else Inr (False, with_lint (PrintError
             (''Invalid configuration option ('' @ name @ '') in file '' @ cfg_file @ nl)) cfg))\<close>

text \<open>The name and the value of an option; \<open>None\<close> for a line without any.\<close>

definition config_entry :: "string \<Rightarrow> (string \<times> string) option" where
  "config_entry raw =
     (let line = takeWhile (\<lambda>ch. ch \<noteq> CHR ''#'') raw in
      if py_strip line = [] then None
      else Some (py_strip (takeWhile (\<lambda>ch. ch \<noteq> CHR ''='') line),
                 py_strip (drop 1 (dropWhile (\<lambda>ch. ch \<noteq> CHR ''='') line))))"

fun config_lines :: "string \<Rightarrow> string \<Rightarrow> string \<Rightarrow> string list \<Rightarrow> config \<Rightarrow> (bool \<times> config) result" where
  "config_lines filename cfg_file base_name [] cfg = Inr (False, cfg)"
| "config_lines filename cfg_file base_name (line # lines) cfg =
     (case config_entry line of
        None \<Rightarrow> config_lines filename cfg_file base_name lines cfg
      | Some (name, val) \<Rightarrow>
          bind_result (config_option filename cfg_file base_name name val cfg) (\<lambda>(excluded, cfg).
            if excluded then Inr (True, cfg) else config_lines filename cfg_file base_name lines cfg))"

lemma path_split_shorter:
  assumes "path_split p = (d, b)" and "b \<noteq> []"
  shows "length d < length p"
proof -
  have strip: "length (rstrip_char x t) \<le> length t" for x t
    by (simp add: rstrip_char_def length_dropWhile_le [THEN order_trans])
  show ?thesis
    using assms by (auto simp: path_split_def Let_def split: if_splits option.splits
        intro: le_less_trans [OF strip])
qed

function config_walk :: "world \<Rightarrow> string \<Rightarrow> string \<Rightarrow> config \<Rightarrow> (bool \<times> config) result" where
  "config_walk w filename abs_filename cfg =
     (let (abs_path, base_name) = path_split abs_filename in
      if base_name = [] then Inr (False, cfg)
      else
        (let cfg_file = path_join abs_path ''CPPLINT.cfg'' in
         if \<not> is_file w cfg_file then config_walk w filename abs_path cfg
         else
           (case read_text w cfg_file of
              None \<Rightarrow> Inr (False, with_lint (PrintError
                        (''Skipping config file '' @ quote1 @ cfg_file @ quote1 @ '': Can'' @ quote1 @ ''t open for reading'' @ nl))
                        (cfg\<lparr>keep_looking := False\<rparr>))
            | Some t \<Rightarrow>
                bind_result (config_lines filename cfg_file base_name (text_lines t) cfg) (\<lambda>(excluded, cfg).
                  if excluded then Inr (True, cfg)
                  else if keep_looking cfg then config_walk w filename abs_path cfg
                  else Inr (False, cfg)))))"
  by pat_completeness auto

termination config_walk
  by (relation "measure (\<lambda>(w, filename, abs_filename, cfg). length abs_filename)")
    (auto dest: path_split_shorter [OF sym] path_split_shorter)

declare config_walk.simps [simp del]

fun add_all_filters :: "string list \<Rightarrow> lint \<Rightarrow> lint result" where
  "add_all_filters [] s = Inr s"
| "add_all_filters (f # fs) s = bind_result (AddFilters f s) (add_all_filters fs)"

text \<open>The flag says that the file is to be processed.\<close>

definition ProcessConfigOverrides :: "world \<Rightarrow> string \<Rightarrow> lint \<Rightarrow> (bool \<times> lint) result" where
  "ProcessConfigOverrides w filename s =
     bind_result (config_walk w filename (path_abspath (w_fs w) filename)
         \<lparr>cfg_filters = [], keep_looking = True, cfg_lint = s\<rparr>) (\<lambda>(excluded, cfg).
       if excluded then Inr (False, cfg_lint cfg)
       else bind_result (add_all_filters (rev (cfg_filters cfg)) (cfg_lint cfg)) (\<lambda>s. Inr (True, s)))"

section \<open>Files\<close>

text \<open>The carriage returns at the ends of all lines but the last; the numbers of the two kinds of lines.\<close>

fun strip_returns :: "int \<Rightarrow> string list \<Rightarrow> string list \<times> int list \<times> int list" where
  "strip_returns n [] = ([], [], [])"
| "strip_returns n [line] = ([line], [], [])"
| "strip_returns n (line # l # lines) =
     (let (rest, lf_lines, crlf_lines) = strip_returns (n + 1) (l # lines) in
      if endswith line [CHR 0x0D] then (rstrip_char (CHR 0x0D) line # rest, lf_lines, n # crlf_lines)
      else (line # rest, n # lf_lines, crlf_lines))"

definition newline_reports :: "int list \<Rightarrow> int list \<Rightarrow> report list" where
  \<open>newline_reports lf_lines crlf_lines =
     (if lf_lines \<noteq> [] \<and> crlf_lines \<noteq> [] then
        map (\<lambda>linenum. report linenum ''whitespace/newline'' 1
               (rx ''Unexpected `r (^M) found; better to use only `n'')) crlf_lines
      else [])\<close>

definition read_input :: "world \<Rightarrow> string \<Rightarrow> string option" where
  "read_input w filename = (if filename = ''-'' then Some (stdin_text w) else read_text w filename)"

definition file_extension_of :: "string \<Rightarrow> string" where
  "file_extension_of filename = py_from filename (py_rfind filename (CHR ''.'') + 1)"

definition process_text :: "world \<Rightarrow> extra_check list \<Rightarrow> string \<Rightarrow> string \<Rightarrow> lint \<Rightarrow> lint outcome" where
  "process_text w extra filename txt s =
     (let (lines, lf_lines, crlf_lines) = strip_returns 1 (split_on (CHR 0x0A) txt);
          file_extension = file_extension_of filename
      in if filename \<noteq> ''-'' \<and> file_extension \<notin> set (GetAllExtensions s) then
           ret (PrintError (''Ignoring '' @ filename @ ''; not a valid file name '' @
                  ''('' @ join_with '', '' (GetAllExtensions s) @ '')'' @ nl) s)
         else
           bind_outcome (ProcessFileData (w_fs w) (read_text w) extra filename file_extension lines s) (\<lambda>s.
             Some (emit filename (newline_reports lf_lines crlf_lines) s)))"

definition ProcessFile :: "world \<Rightarrow> extra_check list \<Rightarrow> string \<Rightarrow> int \<Rightarrow> lint \<Rightarrow> lint outcome" where
  "ProcessFile w extra filename vlevel s =
     (let s = BackupFilters (snd (SetVerboseLevel vlevel s)); old_errors = error_count s in
      bind_outcome (Some (ProcessConfigOverrides w filename s)) (\<lambda>(selected, s).
        if \<not> selected then ret (RestoreFilters s)
        else
          (case read_input w filename of
             None \<Rightarrow> ret (RestoreFilters (PrintError
               (''Skipping input '' @ quote1 @ filename @ quote1 @ '': Can'' @ quote1 @ ''t open for reading'' @ nl) s))
           | Some txt \<Rightarrow>
               bind_outcome (process_text w extra filename txt s) (\<lambda>s.
                 ret (RestoreFilters
                   (if \<not> quiet s \<or> old_errors \<noteq> error_count s
                    then PrintInfo (''Done processing '' @ filename @ nl) s else s))))))"

end
