(* ===== verification/CommandLine.thy ===== *)
theory CommandLine
  imports Driver
begin

text \<open>
  The arguments of \<open>cpplint.py\<close> and its main program. \<open>getopt.getopt\<close> is modelled as the library
  documents it for long options. A function that can end the program returns the exception beside
  the state, so that what it wrote before is kept; \<open>main\<close> gives the exit status.
\<close>

section \<open>The usage text\<close>

definition USAGE_1 :: "string list" where
  \<open>USAGE_1 =
     [''Syntax: cpplint.py [--verbose=#] [--output=emacs|eclipse|vs7|junit]'',
      ''                   [--filter=-x,+y,...]'',
      ''                   [--counting=total|toplevel|detailed] [--root=subdir]'',
      ''                   [--repository=path]'',
      ''                   [--linelength=digits] [--headers=x,y,...]'',
      ''                   [--recursive]'',
      ''                   [--exclude=path]'',
      ''                   [--extensions=hpp,cpp,...]'',
      ''                   [--quiet]'',
      ''                   [--version]'',
      ''        <file> [file] ...'',
      [],
      ''  Style checker for C/C++ source files.'',
      ''  This is a fork of the Google style checker with minor extensions.'',
      [],
      ''  The style guidelines this tries to follow are those in'',
      ''    https://google.github.io/styleguide/cppguide.html'',
      []]\<close>

definition USAGE_2 :: "string list" where
  \<open>USAGE_2 =
     [''  Every problem is given a confidence score from 1-5, with 5 meaning we are'',
      ''  certain of the problem, and 1 meaning it could be a legitimate construct.'',
      ''  This will miss some errors, and is not a substitute for a code review.'',
      [],
      ''  To suppress false-positive errors of a certain category, add a'',
      ''  \'NOLINT(category)\' comment to the line.  NOLINT or NOLINT(*)'',
      ''  suppresses errors of all categories on that line.'',
      [],
      ''  The files passed in will be linted; at least one file must be provided.'',
      ''  Default linted extensions are %s.'',
      ''  Other file types will be ignored.'',
      ''  Change the extensions with the --extensions flag.'',
      [],
      ''  Flags:'',
      [],
      ''    output=emacs|eclipse|vs7|junit'',
      ''      By default, the output is formatted to ease emacs parsing.  Visual Studio'',
      ''      compatible output (vs7) may also be used.  Further support exists for'',
      ''      eclipse (eclipse), and JUnit (junit). XML parsers such as those used'',
      ''      in Jenkins and Bamboo may also be used.  Other formats are unsupported.'',
      []]\<close>

definition USAGE_3 :: "string list" where
  \<open>USAGE_3 =
     [''    verbose=#'',
      ''      Specify a number 0-5 to restrict errors to certain verbosity levels.'',
      ''      Errors with lower verbosity levels have lower confidence and are more'',
      ''      likely to be false positives.'',
      [],
      ''    quiet'',
      ''      Don\'t print anything if no errors are found.'',
      [],
      ''    filter=-x,+y,...'',
      ''      Specify a comma-separated list of category-filters to apply: only'',
      ''      error messages whose category names pass the filters will be printed.'',
      ''      (Category names are printed with the message and look like'',
      ''      "[whitespace/indent]".)  Filters are evaluated left to right.'',
      ''      "-FOO" and "FOO" means "do not print categories that start with FOO".'',
      ''      "+FOO" means "do print categories that start with FOO".'',
      [],
      ''      Examples: --filter=-whitespace,+whitespace/braces'',
      ''                --filter=whitespace,runtime/printf,+runtime/printf_format'',
      ''                --filter=-,+build/include_what_you_use'',
      []]\<close>

definition USAGE_4 :: "string list" where
  \<open>USAGE_4 =
     [''      To see a list of all the categories used in cpplint, pass no arg:'',
      ''         --filter='',
      [],
      ''    counting=total|toplevel|detailed'',
      ''      The total number of errors found is always printed. If'',
      ''      \'toplevel\' is provided, then the count of errors in each of'',
      ''      the top-level categories like \'build\' and \'whitespace\' will'',
      ''      also be printed. If \'detailed\' is provided, then a count'',
      ''      is provided for each category like \'build/class\'.'',
      [],
      ''    repository=path'',
      ''      The top level directory of the repository, used to derive the header'',
      ''      guard CPP variable. By default, this is determined by searching for a'',
      ''      path that contains .git, .hg, or .svn. When this flag is specified, the'',
      ''      given path is used instead. This option allows the header guard CPP'',
      ''      variable to remain consistent even if members of a team have different'',
      ''      repository root directories (such as when checking out a subdirectory'',
      ''      with SVN). In addition, users of non-mainstream version control systems'',
      ''      can use this flag to ensure readable header guard CPP variables.'',
      []]\<close>

definition USAGE_5 :: "string list" where
  \<open>USAGE_5 =
     [''      Examples:'',
      ''        Assuming that Alice checks out ProjectName and Bob checks out'',
      ''        ProjectName/trunk and trunk contains src/chrome/ui/browser.h, then'',
      ''        with no --repository flag, the header guard CPP variable will be:'',
      [],
      ''        Alice => TRUNK_SRC_CHROME_BROWSER_UI_BROWSER_H_'',
      ''        Bob   => SRC_CHROME_BROWSER_UI_BROWSER_H_'',
      [],
      ''        If Alice uses the --repository=trunk flag and Bob omits the flag or'',
      ''        uses --repository=. then the header guard CPP variable will be:'',
      [],
      ''        Alice => SRC_CHROME_BROWSER_UI_BROWSER_H_'',
      ''        Bob   => SRC_CHROME_BROWSER_UI_BROWSER_H_'',
      [],
      ''    root=subdir'',
      ''      The root directory used for deriving header guard CPP variable.'',
      ''      This directory is relative to the top level directory of the repository'',
      ''      which by default is determined by searching for a directory that contains'',
      ''      .git, .hg, or .svn but can also be controlled with the --repository flag.'',
      ''      If the specified directory does not exist, this flag is ignored.'',
      []]\<close>

definition USAGE_6 :: "string list" where
  \<open>USAGE_6 =
     [''      Examples:'',
      ''        Assuming that src is the top level directory of the repository (and'',
      ''        cwd=top/src), the header guard CPP variables for'',
      ''        src/chrome/browser/ui/browser.h are:'',
      [],
      ''        No flag => CHROME_BROWSER_UI_BROWSER_H_'',
      ''        --root=chrome => BROWSER_UI_BROWSER_H_'',
      ''        --root=chrome/browser => UI_BROWSER_H_'',
      ''        --root=.. => SRC_CHROME_BROWSER_UI_BROWSER_H_'',
      [],
      ''    linelength=digits'',
      ''      This is the allowed line length for the project. The default value is'',
      ''      80 characters.'',
      [],
      ''      Examples:'',
      ''        --linelength=120'',
      []]\<close>

definition USAGE_7 :: "string list" where
  \<open>USAGE_7 =
     [''    recursive'',
      ''      Search for files to lint recursively. Each directory given in the list'',
      ''      of files to be linted is replaced by all files that descend from that'',
      ''      directory. Files with extensions not in the valid extensions list are'',
      ''      excluded.'',
      [],
      ''    exclude=path'',
      ''      Exclude the given path from the list of files to be linted. Relative'',
      ''      paths are evaluated relative to the current directory and shell globbing'',
      ''      is performed. This flag can be provided multiple times to exclude'',
      ''      multiple files.'',
      [],
      ''      Examples:'',
      ''        --exclude=one.cc'',
      ''        --exclude=src/*.cc'',
      ''        --exclude=src/*.cc --exclude=test/*.cc'',
      []]\<close>

definition USAGE_8 :: "string list" where
  \<open>USAGE_8 =
     [''    extensions=extension,extension,...'',
      ''      The allowed file extensions that cpplint will check'',
      [],
      ''      Examples:'',
      ''        --extensions=%s'',
      [],
      ''    headers=x,y,...'',
      ''      The header extensions that cpplint will treat as .h in checks. Values are'',
      ''      automatically added to --extensions list.'',
      ''     (by default, only files with extensions %s will be assumed to be headers)'',
      [],
      ''      Examples:'',
      ''        --headers=%s'',
      ''        --headers=hpp,hxx'',
      ''        --headers=hpp'',
      [],
      ''    cpplint.py supports per-directory configurations specified in CPPLINT.cfg'',
      ''    files. CPPLINT.cfg file can contain a number of key=value pairs.'',
      ''    Currently the following options are supported:'',
      []]\<close>

definition USAGE_9 :: "string list" where
  \<open>USAGE_9 =
     [''      set noparent'',
      ''      filter=+filter1,-filter2,...'',
      ''      exclude_files=regex'',
      ''      linelength=80'',
      ''      root=subdir'',
      ''      headers=x,y,...'',
      [],
      ''    "set noparent" option prevents cpplint from traversing directory tree'',
      ''    upwards looking for more .cfg files in parent directories. This option'',
      ''    is usually placed in the top-level project directory.'',
      [],
      ''    The "filter" option is similar in function to --filter flag. It specifies'',
      ''    message filters in addition to the |_DEFAULT_FILTERS| and those specified'',
      ''    through --filter command-line flag.'',
      [],
      ''    "exclude_files" allows to specify a regular expression to be matched against'',
      ''    a file name. If the expression matches, the file is skipped and not run'',
      ''    through the linter.'',
      []]\<close>

definition USAGE_10 :: "string list" where
  \<open>USAGE_10 =
     [''    "linelength" allows to specify the allowed line length for the project.'',
      [],
      ''    The "root" option is similar in function to the --root flag (see example'',
      ''    above). Paths are relative to the directory of the CPPLINT.cfg.'',
      [],
      ''    The "headers" option is similar in function to the --headers flag'',
      ''    (see example above).'',
      [],
      ''    CPPLINT.cfg has an effect on files in the same directory and all'',
      ''    sub-directories, unless overridden by a nested configuration file.'',
      [],
      ''      Example file:'',
      ''        filter=-build/include_order,+build/include_alpha'',
      rx ''        exclude_files=.*`.cc'',
      [],
      ''    The above example disables build/include_order warning and enables'',
      ''    build/include_alpha as well as excludes all .cc from being'',
      ''    processed by linter, in the current directory (where the .cfg'',
      ''    file is located) and all sub-directories.'']\<close>

definition USAGE :: string where
  "USAGE = nl @ join_with nl (USAGE_1 @ USAGE_2 @ USAGE_3 @ USAGE_4 @ USAGE_5 @ USAGE_6 @ USAGE_7 @ USAGE_8 @ USAGE_9 @ USAGE_10) @ nl"

text \<open>\<open>%\<close> with a list of texts, for a format whose only conversion is \<open>%s\<close>.\<close>

fun percent_s :: "string \<Rightarrow> string list \<Rightarrow> string" where
  "percent_s [] vals = []"
| "percent_s (c # cs) vals =
     (case vals of
        v # vs \<Rightarrow> if c = CHR ''%'' \<and> startswith cs ''s'' then v @ percent_s (drop 1 cs) vs else c # percent_s cs vals
      | [] \<Rightarrow> c # cs)"

text \<open>\<open>repr\<close> of a text and of a list or set of texts.\<close>

definition hex_digit :: "nat \<Rightarrow> char" where
  "hex_digit n = char_of (if n < 10 then 48 + n else 87 + n)"

definition repr_char :: "char \<Rightarrow> char \<Rightarrow> string" where
  "repr_char q ch =
     (if ch = q \<or> ch = CHR 0x5C then [CHR 0x5C, ch]
      else if ch = CHR 0x09 then [CHR 0x5C, CHR ''t''] else if ch = CHR 0x0A then [CHR 0x5C, CHR ''n'']
      else if ch = CHR 0x0D then [CHR 0x5C, CHR ''r'']
      else if in_range 0x20 0x7E ch \<or> in_range 0xA1 0xFF ch \<and> ch \<noteq> CHR 0xAD then [ch]
      else [CHR 0x5C, CHR ''x'', hex_digit (of_char ch div 16), hex_digit (of_char ch mod 16)])"

definition repr_str :: "string \<Rightarrow> string" where
  "repr_str s =
     (let q = (if CHR 0x27 \<in> set s \<and> CHR 0x22 \<notin> set s then CHR 0x22 else CHR 0x27)
      in [q] @ concat (map (repr_char q) s) @ [q])"

definition repr_list :: "string list \<Rightarrow> string" where
  "repr_list xs = ''['' @ join_with '', '' (map repr_str xs) @ '']''"

definition repr_set :: "string list \<Rightarrow> string" where
  "repr_set xs = (if xs = [] then ''set()'' else ''{'' @ join_with '', '' (map repr_str xs) @ ''}'')"

section \<open>Leaving the program\<close>

type_synonym 'a step = "(py_exn \<times> lint) + 'a"

text \<open>\<open>sys.exit\<close> with a message writes it to the error stream and gives status 1.\<close>

definition sys_exit :: "string option \<Rightarrow> lint \<Rightarrow> py_exn \<times> lint" where
  "sys_exit message s =
     (case message of
        None \<Rightarrow> (SystemExit 0, s)
      | Some m \<Rightarrow> (SystemExit 1, stderr_write (m @ nl) s))"

definition PrintUsage :: "string option \<Rightarrow> lint \<Rightarrow> py_exn \<times> lint" where
  "PrintUsage message s =
     (let s = stderr_write (percent_s USAGE
                [repr_list (GetAllExtensions s), join_with '','' (GetAllExtensions s),
                 repr_set (GetHeaderExtensions s), join_with '','' (GetHeaderExtensions s)]) s
      in case message of
           None \<Rightarrow> sys_exit None s
         | Some m \<Rightarrow> if m = [] then sys_exit None s else sys_exit (Some (nl @ ''FATAL ERROR: '' @ m)) s)"

definition VERSION :: string where "VERSION = ''1.4.4''"

definition PrintVersion :: "world \<Rightarrow> lint \<Rightarrow> py_exn \<times> lint" where
  "PrintVersion w s =
     (let s = stdout_write (''Cpplint fork (https://github.com/cpplint/cpplint)'' @ nl) s;
          s = stdout_write (''cpplint '' @ VERSION @ nl) s;
          s = stdout_write (''Python '' @ python_version w @ nl) s
      in sys_exit None s)"

definition PrintCategories :: "lint \<Rightarrow> py_exn \<times> lint" where
  "PrintCategories s = sys_exit None (stderr_write (concat (map (\<lambda>cat. ''  '' @ cat @ nl) ERROR_CATEGORIES)) s)"

section \<open>Options\<close>

definition LONG_OPTIONS :: "string list" where
  "LONG_OPTIONS = [''help'', ''output='', ''verbose='', ''v='', ''version'', ''counting='', ''filter='',
     ''root='', ''repository='', ''linelength='', ''extensions='', ''exclude='', ''recursive'',
     ''headers='', ''quiet'']"

text \<open>Whether an option, which may be abbreviated, takes an argument, and its name.\<close>

definition long_has_args :: "string list \<Rightarrow> string \<Rightarrow> (bool \<times> string) option" where
  "long_has_args longopts opt =
     (let possibilities = filter (\<lambda>l. startswith l opt) longopts in
      if opt \<in> set possibilities then Some (False, opt)
      else if opt @ ''='' \<in> set possibilities then Some (True, opt)
      else (case possibilities of
              [l] \<Rightarrow> Some (if endswith l ''='' then (True, butlast l) else (False, l))
            | _ \<Rightarrow> None))"

text \<open>\<open>None\<close> is a \<open>GetoptError\<close>.\<close>

fun getopt :: "string list \<Rightarrow> string list \<Rightarrow> ((string \<times> string) list \<times> string list) option" where
  "getopt longopts [] = Some ([], [])"
| "getopt longopts (arg # args) =
     (if \<not> startswith arg ''-'' \<or> arg = ''-'' then Some ([], arg # args)
      else if arg = ''--'' then Some ([], args)
      else if \<not> startswith arg ''--'' then None
      else
        (let opt = takeWhile (\<lambda>ch. ch \<noteq> CHR ''='') (drop 2 arg);
             has_value = (CHR ''='' \<in> set (drop 2 arg));
             optarg = drop 1 (dropWhile (\<lambda>ch. ch \<noteq> CHR ''='') (drop 2 arg))
         in case long_has_args longopts opt of
              None \<Rightarrow> None
            | Some (False, name) \<Rightarrow>
                if has_value then None
                else map_option (\<lambda>(opts, rest). ((''--'' @ name, []) # opts, rest)) (getopt longopts args)
            | Some (True, name) \<Rightarrow>
                if has_value then
                  map_option (\<lambda>(opts, rest). ((''--'' @ name, optarg) # opts, rest)) (getopt longopts args)
                else
                  (case args of
                     [] \<Rightarrow> None
                   | val # args' \<Rightarrow>
                       map_option (\<lambda>(opts, rest). ((''--'' @ name, val) # opts, rest)) (getopt longopts args'))))"

record options =
  o_verbosity :: int
  o_output_format :: string
  o_filters :: string
  o_quiet :: bool
  o_counting_style :: string
  o_recursive :: bool
  o_lint :: lint

abbreviation set_lint :: "(lint \<Rightarrow> lint) \<Rightarrow> options \<Rightarrow> options" where
  "set_lint f os \<equiv> os\<lparr>o_lint := f (o_lint os)\<rparr>"

definition apply_option :: "world \<Rightarrow> string \<times> string \<Rightarrow> options \<Rightarrow> options step" where
  "apply_option w option os =
     (let (opt, val) = option; s = o_lint os in
      if opt = ''--help'' then Inl (PrintUsage None s)
      else if opt = ''--version'' then Inl (PrintVersion w s)
      else if opt = ''--output'' then
        (if val \<notin> {''emacs'', ''vs7'', ''eclipse'', ''junit''}
         then Inl (PrintUsage (Some (''The only allowed output formats are emacs, vs7, eclipse '' @ ''and junit.'')) s)
         else Inr (os\<lparr>o_output_format := val\<rparr>))
      else if opt = ''--quiet'' then Inr (os\<lparr>o_quiet := True\<rparr>)
      else if opt = ''--verbose'' \<or> opt = ''--v'' then
        (case py_int val of None \<Rightarrow> Inl (ValueError ''int'', s) | Some n \<Rightarrow> Inr (os\<lparr>o_verbosity := n\<rparr>))
      else if opt = ''--filter'' then
        (if val = [] then Inl (PrintCategories s) else Inr (os\<lparr>o_filters := val\<rparr>))
      else if opt = ''--counting'' then
        (if val \<notin> {''total'', ''toplevel'', ''detailed''}
         then Inl (PrintUsage (Some ''Valid counting options are total, toplevel, and detailed'') s)
         else Inr (os\<lparr>o_counting_style := val\<rparr>))
      else if opt = ''--root'' then Inr (set_lint (\<lambda>s. s\<lparr>root_dir := Some val\<rparr>) os)
      else if opt = ''--repository'' then Inr (set_lint (\<lambda>s. s\<lparr>repository := Some val\<rparr>) os)
      else if opt = ''--linelength'' then
        (case py_int val of
           None \<Rightarrow> Inl (PrintUsage (Some ''Line length must be digits.'') s)
         | Some n \<Rightarrow> Inr (set_lint (\<lambda>s. s\<lparr>line_length := n\<rparr>) os))
      else if opt = ''--exclude'' then
        Inr (set_lint (\<lambda>s. s\<lparr>excludes :=
          Some (remdups ((case excludes s of None \<Rightarrow> [] | Some es \<Rightarrow> es) @ glob_paths w val))\<rparr>) os)
      else if opt = ''--extensions'' then Inr (set_lint (ProcessExtensionsOption val) os)
      else if opt = ''--headers'' then Inr (set_lint (ProcessHppHeadersOption val) os)
      else if opt = ''--recursive'' then Inr (os\<lparr>o_recursive := True\<rparr>)
      else Inr os)"

fun apply_options :: "world \<Rightarrow> (string \<times> string) list \<Rightarrow> options \<Rightarrow> options step" where
  "apply_options w [] os = Inr os"
| "apply_options w (option # opts) os =
     (case apply_option w option os of Inl e \<Rightarrow> Inl e | Inr os \<Rightarrow> apply_options w opts os)"

section \<open>The files to lint\<close>

definition add_name :: "string \<Rightarrow> string list \<Rightarrow> string list" where
  "add_name f names = (if f \<in> set names then names else names @ [f])"

definition descendants :: "world \<Rightarrow> string \<Rightarrow> string list" where
  "descendants w filename =
     concat (map (\<lambda>(root, files). map (\<lambda>loopfile.
       let fullname = path_join root loopfile in
       if startswith fullname ''./'' then drop 2 fullname else fullname) files) (walk w filename))"

fun expand_names :: "world \<Rightarrow> string list \<Rightarrow> string list \<Rightarrow> string list" where
  "expand_names w [] expanded = expanded"
| "expand_names w (filename # filenames) expanded =
     expand_names w filenames
       (if \<not> is_dir w filename then add_name filename expanded
        else fold add_name (descendants w filename) expanded)"

definition ExpandDirectories :: "world \<Rightarrow> lint \<Rightarrow> string list \<Rightarrow> string list" where
  "ExpandDirectories w s filenames =
     filter (\<lambda>filename. drop 1 (snd (path_splitext filename)) \<in> set (GetAllExtensions s))
       (expand_names w filenames [])"

definition FilterExcludedFiles :: "world \<Rightarrow> string list \<Rightarrow> string list \<Rightarrow> string list" where
  "FilterExcludedFiles w excl filenames =
     (let exclude_paths = map (path_abspath (w_fs w)) excl
      in filter (\<lambda>f. path_abspath (w_fs w) f \<notin> set exclude_paths) filenames)"

definition select_files :: "world \<Rightarrow> bool \<Rightarrow> lint \<Rightarrow> string list \<Rightarrow> string list" where
  "select_files w recursive s filenames =
     (let filenames = (if recursive then ExpandDirectories w s filenames else filenames)
      in case excludes s of
           None \<Rightarrow> filenames
         | Some excl \<Rightarrow> if excl = [] then filenames else FilterExcludedFiles w excl filenames)"

definition options_init :: "lint \<Rightarrow> options" where
  "options_init s =
     \<lparr>o_verbosity = VerboseLevel s, o_output_format = OutputFormat s, o_filters = [], o_quiet = Quiet s,
      o_counting_style = [], o_recursive = False, o_lint = s\<rparr>"

text \<open>The settings that the options leave for the end.\<close>

definition apply_settings :: "options \<Rightarrow> lint result" where
  "apply_settings os =
     (let s = SetOutputFormat (o_output_format os) (o_lint os);
          s = snd (SetQuiet (o_quiet os) s);
          s = snd (SetVerboseLevel (o_verbosity os) s)
      in bind_result (SetFilters (o_filters os) s) (\<lambda>s. Inr (SetCountingStyle (o_counting_style os) s)))"

definition ParseArguments :: "world \<Rightarrow> string list \<Rightarrow> lint \<Rightarrow> (string list \<times> lint) step" where
  "ParseArguments w args s =
     (case getopt LONG_OPTIONS args of
        None \<Rightarrow> Inl (PrintUsage (Some ''Invalid arguments.'') s)
      | Some (opts, filenames) \<Rightarrow>
          (case apply_options w opts (options_init s) of
             Inl e \<Rightarrow> Inl e
           | Inr os \<Rightarrow>
               if filenames = [] then Inl (PrintUsage (Some ''No files were specified.'') (o_lint os))
               else
                 (let selected = select_files w (o_recursive os) (o_lint os) filenames in
                  case apply_settings os of
                    Inl e \<Rightarrow> Inl (e, o_lint os)
                  | Inr s \<Rightarrow> Inr (selected, s))))"

section \<open>The main program\<close>

fun process_files :: "world \<Rightarrow> string list \<Rightarrow> lint \<Rightarrow> lint outcome" where
  "process_files w [] s = ret s"
| "process_files w (filename # filenames) s =
     bind_outcome (ProcessFile w [] filename (verbose_level s) s) (process_files w filenames)"

definition report_totals :: "lint \<Rightarrow> lint" where
  "report_totals s =
     (let s = (if \<not> quiet s \<or> error_count s > 0 then PrintErrorCounts s else s)
      in if output_format s = ''junit'' then stderr_write (FormatJUnitXML s) s else s)"

text \<open>The exit status and the final state; an exception other than \<open>SystemExit\<close> is an error value.\<close>

definition main :: "world \<Rightarrow> string list \<Rightarrow> lint \<Rightarrow> (int \<times> lint) outcome" where
  "main w args s =
     (case ParseArguments w args s of
        Inl (SystemExit n, s) \<Rightarrow> ret (n, s)
      | Inl (e, s) \<Rightarrow> Some (Inl e)
      | Inr (filenames, s) \<Rightarrow>
          bind_outcome (process_files w filenames (ResetErrorCounts s)) (\<lambda>s.
            let s = report_totals s in ret (if error_count s > 0 then 1 else 0, s)))"

end
