(* ===== verification/MainFacts.thy ===== *)
theory MainFacts
  imports CommandLine FileFacts
begin

text \<open>
  Facts about whole runs of \<open>cpplint.py\<close>: that a run ends, what one file leaves for the next, and what
  the exit status means.
\<close>

section \<open>A run ends\<close>

lemma returning_ProcessFile:
  assumes "names_known (w_fs w)"
  shows "returns (ProcessFile w extra f v s)"
  using returning_file [OF assms] unfolding ProcessFile_def process_text_def Let_def
  by (auto intro!: returns_intros)

lemma returning_files:
  assumes "names_known (w_fs w)"
  shows "returns (process_files w fs s)"
  by (induction fs arbitrary: s) (auto intro!: returns_intros returning_ProcessFile [OF assms])

section \<open>What a file leaves\<close>

definition config_keeps :: "lint \<Rightarrow> lint \<Rightarrow> bool" where
  "config_keeps s s' \<longleftrightarrow> filters_backup s' = filters_backup s \<and> verbose_level s' = verbose_level s
     \<and> quiet s' = quiet s \<and> output_format s' = output_format s \<and> counting s' = counting s
     \<and> repository s' = repository s \<and> excludes s' = excludes s \<and> error_count s' = error_count s
     \<and> errors_by_category s' = errors_by_category s"

interpretation config: step_contract config_keeps
  by unfold_locales (auto simp: config_keeps_def)

lemma config_option_keeps:
  "config_option f cf b n v cfg = Inr (x, cfg') \<Longrightarrow> config_keeps (cfg_lint cfg) (cfg_lint cfg')"
  by (auto simp: config_option_def config_keeps_def PrintInfo_def PrintError_def stdout_write_def stderr_write_def
      ProcessExtensionsOption_def ProcessHppHeadersOption_def split: if_splits option.splits)

lemma config_lines_keep:
  "config_lines f cf b ls cfg = Inr (x, cfg') \<Longrightarrow> config_keeps (cfg_lint cfg) (cfg_lint cfg')"
proof (induction ls arbitrary: cfg)
  case (Cons l ls)
  show ?case
  proof (cases "config_entry l")
    case None
    with Cons show ?thesis by simp
  next
    case (Some nv)
    obtain n v where nv: "nv = (n, v)" by (cases nv)
    from Cons.prems Some nv obtain e cfg1 where one: "config_option f cf b n v cfg = Inr (e, cfg1)"
      and rest: "(if e then Inr (True, cfg1) else config_lines f cf b ls cfg1) = Inr (x, cfg')"
      by (auto simp: bind_result_eq_Inr)
    show ?thesis
      using config_option_keeps [OF one] rest Cons.IH [of cfg1]
      by (cases e) (auto intro: config.kept_trans)
  qed
qed (auto simp: config.kept_refl)

lemma config_walk_keeps:
  "config_walk w f a cfg = Inr (x, cfg') \<Longrightarrow> config_keeps (cfg_lint cfg) (cfg_lint cfg')"
proof (induction w f a cfg arbitrary: x cfg' rule: config_walk.induct)
  case (1 w f a cfg)
  obtain d b where db: "path_split a = (d, b)" by (cases "path_split a")
  have print: "config_keeps s (PrintError m s)" for m s
    by (simp add: config_keeps_def PrintError_def stderr_write_def)
  from 1(3) show ?case
    unfolding config_walk.simps [of w f a cfg]
    using 1(1) [OF db [symmetric]] 1(2) [OF db [symmetric]] print
    by (auto simp: db Let_def bind_result_eq_Inr config.kept_refl split: if_splits option.splits
        dest!: config_lines_keep intro: config.kept_trans)
qed

lemma add_filters_keep: "config.keeps (add_all_filters fs)"
proof (rule config.keepsI)
  have one: "AddFilters f s = Inr s' \<Longrightarrow> config_keeps s s'" for f s s'
    by (auto simp: AddFilters_def Let_def config_keeps_def split: option.splits)
  show "add_all_filters fs s = Inr s' \<Longrightarrow> config_keeps s s'" for s s'
    by (induction fs arbitrary: s) (auto simp: bind_result_eq_Inr config.kept_refl dest!: one intro: config.kept_trans)
qed

lemma ProcessConfigOverrides_keeps:
  "ProcessConfigOverrides w f s = Inr (b, s') \<Longrightarrow> config_keeps s s'"
  by (auto simp: ProcessConfigOverrides_def bind_result_eq_Inr split: if_splits
      dest!: config_walk_keeps config.keepsD [OF add_filters_keep] intro: config.kept_trans)

text \<open>What a file leaves: the settings of the command line, with no error forgotten.\<close>

definition file_keeps :: "lint \<Rightarrow> lint \<Rightarrow> bool" where
  "file_keeps s s' \<longleftrightarrow> verbose_level s' = verbose_level s
     \<and> quiet s' = quiet s \<and> output_format s' = output_format s \<and> counting s' = counting s
     \<and> repository s' = repository s \<and> excludes s' = excludes s \<and> error_count s \<le> error_count s'
     \<and> (counts_ok s \<longrightarrow> counts_ok s')"

interpretation files: step_contract file_keeps
  by unfold_locales (auto simp: file_keeps_def)

lemma file_keeps_config: "config_keeps s s' \<Longrightarrow> file_keeps s s'"
  by (auto simp: config_keeps_def file_keeps_def counts_ok_def)

lemma file_keeps_reports: "only_reports s s' \<Longrightarrow> file_keeps s s'"
  using only_reports_fields [of s s'] by (simp add: file_keeps_def)

lemma file_keeps_print:
  "file_keeps s (PrintError m s)" "file_keeps s (PrintInfo m s)" "file_keeps s (RestoreFilters s)" "file_keeps s (BackupFilters s)"
  by (simp_all add: file_keeps_def PrintError_def PrintInfo_def RestoreFilters_def BackupFilters_def
      stderr_write_def stdout_write_def counts_ok_def)

text \<open>The settings that a configuration file changes for good.\<close>

definition lasting :: "lint \<Rightarrow> int \<times> string option \<times> string list \<times> string list" where
  "lasting s = (line_length s, root_dir s, valid_extensions s, hpp_headers s)"

lemma lasting_simps [simp]:
  "lasting (PrintError m s) = lasting s" "lasting (PrintInfo m s) = lasting s" "lasting (RestoreFilters s) = lasting s"
  by (simp_all add: lasting_def PrintError_def PrintInfo_def RestoreFilters_def stderr_write_def stdout_write_def)

lemma process_text_keeps:
  assumes "process_text w extra f t s = ret s'"
  shows "file_keeps s s' \<and> filters_backup s' = filters_backup s \<and> lasting s' = lasting s"
proof -
  obtain ls lf cr where strip: "strip_returns 1 (split_on (CHR 0x0A) t) = (ls, lf, cr)"
    by (cases "strip_returns 1 (split_on (CHR 0x0A) t)")
  show ?thesis
  proof (cases "f \<noteq> ''-'' \<and> file_extension_of f \<notin> set (GetAllExtensions s)")
    case True
    with assms strip obtain m where "s' = PrintError m s" by (auto simp: process_text_def)
    then show ?thesis using file_keeps_print by (auto simp: PrintError_def stderr_write_def lasting_def)
  next
    case False
    with assms strip obtain s1 where "ProcessFileData (w_fs w) (read_text w) extra f (file_extension_of f) ls s = ret s1"
      "emit f (newline_reports lf cr) s1 = Inr s'"
      by (auto simp: process_text_def outcome_eqs)
    then have "only_reports s s'" using only_reports_file keeps_basic(1) reports.kept_trans by blast
    then show ?thesis using file_keeps_reports only_reports_fields [of s s'] by (simp add: lasting_def)
  qed
qed

lemma ProcessFile_keeps:
  assumes "ProcessFile w extra f v s = ret s'"
  shows "file_keeps (s\<lparr>verbose_level := v\<rparr>) s' \<and> filters s' = filters s
    \<and> (\<exists>b s1. ProcessConfigOverrides w f (BackupFilters (snd (SetVerboseLevel v s))) = Inr (b, s1) \<and> lasting s' = lasting s1)"
proof -
  define s0 where "s0 = BackupFilters (snd (SetVerboseLevel v s))"
  have s0: "file_keeps (s\<lparr>verbose_level := v\<rparr>) s0" "filters_backup s0 = filters s"
    by (simp_all add: s0_def file_keeps_def BackupFilters_def SetVerboseLevel_def counts_ok_def)
  from assms obtain b s1 where cfg: "ProcessConfigOverrides w f s0 = Inr (b, s1)"
    by (auto simp: ProcessFile_def s0_def [symmetric] Let_def outcome_eqs)
  have s1: "file_keeps s0 s1" "filters_backup s1 = filters_backup s0"
    using ProcessConfigOverrides_keeps [OF cfg] file_keeps_config by (auto simp: config_keeps_def)
  have "\<exists>s2. file_keeps s1 s2 \<and> filters_backup s2 = filters_backup s1 \<and> lasting s2 = lasting s1 \<and> s' = RestoreFilters s2"
  proof (cases "b \<and> read_input w f \<noteq> None")
    case True
    then obtain t where t: "b" "read_input w f = Some t" by blast
    with assms cfg obtain s2 where s2: "process_text w extra f t s1 = ret s2"
      and s': "s' = RestoreFilters (if \<not> quiet s2 \<or> error_count s0 \<noteq> error_count s2
         then PrintInfo (''Done processing '' @ f @ nl) s2 else s2)"
      by (auto simp: ProcessFile_def s0_def [symmetric] Let_def outcome_eqs)
    show ?thesis
      using process_text_keeps [OF s2] file_keeps_print(2) [of s2] s' files.kept_trans
      by (intro exI [where x = "if \<not> quiet s2 \<or> error_count s0 \<noteq> error_count s2
         then PrintInfo (''Done processing '' @ f @ nl) s2 else s2"])
        (auto simp: PrintInfo_def stdout_write_def lasting_def)
  next
    case False
    from assms cfg False have "s' = RestoreFilters s1 \<or> (\<exists>m. s' = RestoreFilters (PrintError m s1))"
      by (cases b; cases "read_input w f") (auto simp: ProcessFile_def s0_def [symmetric] Let_def)
    then consider "s' = RestoreFilters s1" | m where "s' = RestoreFilters (PrintError m s1)" by blast
    then show ?thesis
    proof cases
      case 1
      then show ?thesis using files.kept_refl by blast
    next
      case (2 m)
      have "filters_backup (PrintError m s1) = filters_backup s1" by (simp add: PrintError_def stderr_write_def)
      with 2 file_keeps_print(1) [of s1 m] lasting_simps(1) show ?thesis by blast
    qed
  qed
  then obtain s2 where s2: "file_keeps s1 s2" "filters_backup s2 = filters_backup s1"
    "s' = RestoreFilters s2" "lasting s2 = lasting s1" by blast
  have "file_keeps (s\<lparr>verbose_level := v\<rparr>) s'"
    unfolding s2(3) by (rule files.kept_trans [OF files.kept_trans [OF s0(1) s1(1)] files.kept_trans [OF s2(1) file_keeps_print(3)]])
  moreover have "filters s' = filters s" using s0(2) s1(2) s2(2,3) by (simp add: RestoreFilters_def)
  moreover have "lasting s' = lasting s1" by (simp add: s2(3,4))
  ultimately show ?thesis using cfg unfolding s0_def by blast
qed

lemma process_files_keep:
  "process_files w fs s = ret s' \<Longrightarrow> file_keeps s s' \<and> filters s' = filters s"
proof (induction fs arbitrary: s)
  case (Cons f fs)
  then obtain s1 where s1: "ProcessFile w [] f (verbose_level s) s = ret s1" "process_files w fs s1 = ret s'"
    by (auto simp: outcome_eqs)
  have "file_keeps s s1" "filters s1 = filters s" using ProcessFile_keeps [OF s1(1)] by simp_all
  with Cons.IH [OF s1(2)] show ?case using files.kept_trans [of s s1 s'] by simp
qed (simp add: files.kept_refl)

lemma config_walk_without_files:
  "is_file w = (\<lambda>_. False) \<Longrightarrow> config_walk w f a cfg = Inr (False, cfg)"
proof (induction w f a cfg rule: config_walk.induct)
  case (1 w f a cfg)
  obtain d b where db: "path_split a = (d, b)" by (cases "path_split a")
  from 1(1) [OF db [symmetric] refl] 1(3) show ?case
    by (cases "b = []") (simp_all add: config_walk.simps [of w f a cfg] db)
qed

lemma report_totals_keeps:
  "error_count (report_totals s) = error_count s" "filters (report_totals s) = filters s"
  "counts_ok s \<Longrightarrow> counts_ok (report_totals s)"
proof -
  define same where "same t \<longleftrightarrow> error_count t = error_count s \<and> filters t = filters s \<and> counting t = counting s
      \<and> errors_by_category t = errors_by_category s" for t :: lint
  have info: "same t \<Longrightarrow> same (PrintInfo m t)" for t m
    by (simp add: same_def PrintInfo_def stdout_write_def)
  have "same (fold (\<lambda>ci. PrintInfo (category_line ci)) cs t)" if "same t" for cs t
    using that by (induction cs arbitrary: t) (simp_all add: info)
  then have "same (PrintErrorCounts s)"
    by (simp add: PrintErrorCounts_def Let_def info same_def [of s])
  then have "same (report_totals s)"
    by (auto simp: report_totals_def Let_def same_def stderr_write_def)
  then show "error_count (report_totals s) = error_count s" "filters (report_totals s) = filters s"
    "counts_ok s \<Longrightarrow> counts_ok (report_totals s)"
    by (auto simp: same_def counts_ok_def)
qed

section \<open>Properties\<close>

text \<open>C3. Every run of the program ends, with an exit status or an exception, whatever the arguments,
  the files and their contents are, as long as above each directory there is one without \<open>.svn\<close>.\<close>

theorem run_ends:
  assumes "\<forall>d. \<exists>k. \<not> svn_at (w_fs w) d k"
  shows "\<exists>r. main w args s = Some r"
proof -
  from returning_files [OF no_svn_names_known [OF assms]]
  have "returns (main w args s)"
    unfolding main_def by (auto intro!: returns_intros split: sum.splits py_exn.splits simp: Let_def)
  then show ?thesis by (auto simp: returns_def)
qed

definition example_world :: world where
  "example_world =
     \<lparr>w_fs = \<lparr>path_exists = (\<lambda>p. p = ''/r/x.cc''), getcwd = ''/r''\<rparr>, is_file = (\<lambda>_. False), is_dir = (\<lambda>_. False),
      read_text = (\<lambda>_. None), stdin_text = [], walk = (\<lambda>_. []), glob_paths = (\<lambda>_. []), python_version = ''3''\<rparr>"

theorem run_ends_witness:
  "\<exists>r. main example_world [''--quiet'', ''x.cc''] CppLintState_init = Some r"
proof (rule run_ends, intro allI exI)
  fix d
  have "drop (length (path_join d ''.svn'') - 4) (path_join d ''.svn'') = ''.svn''"
    by (auto simp: path_join_def path_isabs_def startswith_def endswith_def)
  then have "path_join d ''.svn'' \<noteq> ''/r/x.cc''" by auto
  then show "\<not> svn_at (w_fs example_world) d 0" by (simp add: svn_at_def example_world_def)
qed

lemma example_config:
  "ProcessConfigOverrides example_world f s = Inr (True, s)"
proof -
  have "is_file example_world = (\<lambda>_. False)" by (simp add: example_world_def)
  from config_walk_without_files [OF this] show ?thesis by (simp add: ProcessConfigOverrides_def)
qed

lemma example_file:
  "\<exists>m. ProcessFile example_world extra ''x.cc'' v s = ret (RestoreFilters (PrintError m (BackupFilters (s\<lparr>verbose_level := v\<rparr>))))"
proof -
  have "read_input example_world ''x.cc'' = None" by (simp add: read_input_def example_world_def)
  then show ?thesis by (auto simp: ProcessFile_def SetVerboseLevel_def example_config Let_def)
qed

text \<open>C12. What a file leaves to the next. Whatever the configuration files add to the filters and
  whatever is reported, the filters are as they were before the file, the quiet flag, the output
  format, the counting style, the repository and the excluded files are untouched, the verbosity is the
  one the file was called with, and no error that was counted is forgotten. The length of the lines,
  the root, the extensions and the header extensions are not restored: they are left as the
  configuration files set them.\<close>

theorem file_restores_filters:
  assumes "ProcessFile w extra filename vlevel s = ret s'"
  shows "filters s' = filters s \<and> verbose_level s' = vlevel \<and> quiet s' = quiet s
    \<and> output_format s' = output_format s \<and> counting s' = counting s \<and> repository s' = repository s
    \<and> excludes s' = excludes s \<and> error_count s \<le> error_count s' \<and> (counts_ok s \<longrightarrow> counts_ok s')
    \<and> (\<exists>b s1. ProcessConfigOverrides w filename (BackupFilters (snd (SetVerboseLevel vlevel s))) = Inr (b, s1)
        \<and> line_length s' = line_length s1 \<and> root_dir s' = root_dir s1
        \<and> valid_extensions s' = valid_extensions s1 \<and> hpp_headers s' = hpp_headers s1)"
  using ProcessFile_keeps [OF assms] by (auto simp: file_keeps_def counts_ok_def lasting_def)

theorem file_restores_filters_witness:
  "\<exists>s'. ProcessFile example_world [] ''x.cc'' 3 CppLintState_init = ret s' \<and> filters s' = DEFAULT_FILTERS
     \<and> verbose_level s' = 3"
proof -
  obtain s' where s': "ProcessFile example_world [] ''x.cc'' 3 CppLintState_init = ret s'"
    using example_file by blast
  from file_restores_filters [OF s'] s' show ?thesis by (simp add: CppLintState_init_def)
qed

text \<open>C4. The exit status of a run over some files is 1 exactly when an error has been counted and 0
  otherwise; the counts by category then add up to the total, and the filters are again those of the
  command line.\<close>

theorem exit_status:
  assumes "ParseArguments w args s = Inr (names, s1)" and "main w args s = ret (n, s')"
  shows "n = (if error_count s' = 0 then 0 else 1) \<and> 0 \<le> error_count s' \<and> counts_ok s' \<and> filters s' = filters s1"
proof -
  from assms obtain s2 where s2: "process_files w names (ResetErrorCounts s1) = ret s2"
    and s': "s' = report_totals s2" and n: "n = (if error_count s' > 0 then 1 else 0)"
    by (auto simp: main_def outcome_eqs Let_def)
  have "file_keeps (ResetErrorCounts s1) s2" "filters s2 = filters (ResetErrorCounts s1)"
    using process_files_keep [OF s2] by blast+
  then have "counts_ok s2" "0 \<le> error_count s2" "filters s2 = filters s1"
    using counts_ok_Reset by (auto simp: file_keeps_def ResetErrorCounts_def)
  then show ?thesis using n report_totals_keeps [of s2] by (auto simp: s')
qed

lemma example_arguments:
  "\<exists>s1. ParseArguments example_world [''x.cc''] CppLintState_init = Inr ([''x.cc''], s1)"
proof -
  have g: "getopt LONG_OPTIONS [''x.cc''] = Some ([], [''x.cc''])" by (simp add: startswith_def)
  have f: "SetFilters [] t = Inr (t\<lparr>filters := DEFAULT_FILTERS\<rparr>)" for t
    by (simp add: SetFilters_def AddFilters_def append_filters_eq DEFAULT_FILTERS_def first_unsigned_None
        signed_filter_def startswith_def py_strip_def py_lstrip_def py_rstrip_def)
  show ?thesis
    by (simp add: ParseArguments_def g f options_init_def select_files_def apply_settings_def CppLintState_init_def
        del: getopt.simps)
qed

theorem exit_status_witness:
  "\<exists>n s'. main example_world [''x.cc''] CppLintState_init = ret (n, s')
     \<and> n = (if error_count s' = 0 then 0 else 1) \<and> counts_ok s'"
proof -
  obtain s1 where p: "ParseArguments example_world [''x.cc''] CppLintState_init = Inr ([''x.cc''], s1)"
    using example_arguments by blast
  obtain s2 where f: "ProcessFile example_world [] ''x.cc'' (verbose_level (ResetErrorCounts s1)) (ResetErrorCounts s1) = ret s2"
    using example_file by blast
  obtain n s' where m: "main example_world [''x.cc''] CppLintState_init = ret (n, s')"
    by (auto simp: main_def p f Let_def)
  from exit_status [OF p m] m show ?thesis by blast
qed

end
