(* ===== verification/ConfigFacts.thy ===== *)
theory ConfigFacts
  imports MainFacts
begin

text \<open>
  What configuration files in nested directories come to. They are read from the directory of the
  file upwards; the filters are applied in the reverse order, all other options at once.
\<close>

section \<open>Entries\<close>

definition filter_entries :: "string list \<Rightarrow> (string \<times> string) option list" where
  "filter_entries fs = map (\<lambda>f. Some (''filter'', f)) fs"

definition plain_filter :: "string \<Rightarrow> bool" where
  "plain_filter f \<longleftrightarrow> signed_filter f \<and> py_strip f = f \<and> CHR '','' \<notin> set f"

lemma config_lines_filters:
  "map config_entry ls = filter_entries fs \<Longrightarrow>
     config_lines f cf b (ls @ rest) cfg = config_lines f cf b rest (cfg\<lparr>cfg_filters := cfg_filters cfg @ fs\<rparr>)"
proof (induction ls arbitrary: fs cfg)
  case (Cons l ls)
  then obtain g gs where g: "fs = g # gs" "config_entry l = Some (''filter'', g)" "map config_entry ls = filter_entries gs"
    by (auto simp: filter_entries_def)
  from Cons.IH [OF g(3)] show ?case by (simp add: g(1,2) config_option_def)
qed (simp add: filter_entries_def)

lemma config_lines_end:
  assumes "config_entry l = Some (''linelength'', v)" and "py_int v = Some n"
  shows "config_lines f cf b [l] cfg = Inr (False, with_lint (\<lambda>s. s\<lparr>line_length := n\<rparr>) cfg)"
    and "config_entry l' = Some (''set noparent'', u) \<Longrightarrow>
      config_lines f cf b [l, l'] cfg = Inr (False, (with_lint (\<lambda>s. s\<lparr>line_length := n\<rparr>) cfg)\<lparr>keep_looking := False\<rparr>)"
  using assms by (simp_all add: config_option_def)

lemma add_plain_filters:
  "list_all plain_filter fs \<Longrightarrow> list_all signed_filter (filters s) \<Longrightarrow>
     add_all_filters fs s = Inr (s\<lparr>filters := filters s @ fs\<rparr>)"
proof (induction fs arbitrary: s)
  case (Cons f fs)
  have "split_on x w = [w]" if "x \<notin> set w" for x w using that by (induction w) auto
  moreover from Cons.prems have f: "signed_filter f" "py_strip f = f" "CHR '','' \<notin> set f" by (auto simp: plain_filter_def)
  moreover from f(1) have "f \<noteq> []" by (auto simp: signed_filter_def startswith_def)
  moreover have "first_unsigned (filters s @ [f]) = None" using Cons.prems(2) f(1) by (simp add: first_unsigned_None)
  ultimately have "AddFilters f s = Inr (s\<lparr>filters := filters s @ [f]\<rparr>)"
    by (simp add: AddFilters_def append_filters_eq Let_def)
  then show ?case using Cons.IH [of "s\<lparr>filters := filters s @ [f]\<rparr>"] Cons.prems f(1) by simp
qed simp

section \<open>Nested directories\<close>

text \<open>A directory whose configuration file holds these entries.\<close>

definition config_at :: "world \<Rightarrow> string \<Rightarrow> string list \<Rightarrow> bool" where
  "config_at w d ls \<longleftrightarrow> is_file w (path_join d ''CPPLINT.cfg'')
     \<and> map_option text_lines (read_text w (path_join d ''CPPLINT.cfg'')) = Some ls"

lemma config_walk_at:
  assumes "path_split a = (d, b)" and "b \<noteq> []" and "config_at w d ls"
    and "config_lines f (path_join d ''CPPLINT.cfg'') b ls cfg = Inr (False, cfg')"
  shows "config_walk w f a cfg = (if keep_looking cfg' then config_walk w f d cfg' else Inr (False, cfg'))"
  using assms by (auto simp: config_walk.simps [of w f a] config_at_def Let_def)

text \<open>C10. What the configuration files of two nested directories come to. The filters of the outer one
  precede those of the inner one, so that the inner ones decide, but within one file a later filter
  line precedes an earlier one. For the length of the lines it is the outer file that decides.\<close>

theorem nested_configuration:
  assumes inner: "path_split (path_abspath (w_fs w) filename) = (d, b)" "b \<noteq> []" "config_at w d (ls @ [l])"
      "map config_entry ls = filter_entries fs" "config_entry l = Some (''linelength'', v)" "py_int v = Some n"
    and outer: "path_split d = (d', b')" "b' \<noteq> []" "config_at w d' (ls' @ [l', l''])"
      "map config_entry ls' = filter_entries fs'" "config_entry l' = Some (''linelength'', v')" "py_int v' = Some n'"
      "config_entry l'' = Some (''set noparent'', u)"
    and plain: "list_all plain_filter (fs @ fs')" "list_all signed_filter (filters s)"
  shows "ProcessConfigOverrides w filename s =
    Inr (True, s\<lparr>line_length := n', filters := filters s @ rev fs' @ rev fs\<rparr>)"
proof -
  define c0 where "c0 = \<lparr>cfg_filters = [], keep_looking = True, cfg_lint = s\<rparr>"
  define c1 where "c1 = \<lparr>cfg_filters = fs, keep_looking = True, cfg_lint = s\<lparr>line_length := n\<rparr>\<rparr>"
  define c2 where "c2 = \<lparr>cfg_filters = fs @ fs', keep_looking = False, cfg_lint = s\<lparr>line_length := n'\<rparr>\<rparr>"
  have "config_lines filename (path_join d ''CPPLINT.cfg'') b (ls @ [l]) c0 = Inr (False, c1)"
    using config_lines_filters [OF inner(4)] config_lines_end(1) [OF inner(5,6)] by (simp add: c0_def c1_def del: config_lines.simps)
  from config_walk_at [OF inner(1-3) this]
  have "config_walk w filename (path_abspath (w_fs w) filename) c0 = config_walk w filename d c1" by (simp add: c1_def)
  also have "config_lines filename (path_join d' ''CPPLINT.cfg'') b' (ls' @ [l', l'']) c1 = Inr (False, c2)"
    using config_lines_filters [OF outer(4)] config_lines_end(2) [OF outer(5,6,7)] by (simp add: c1_def c2_def del: config_lines.simps)
  from config_walk_at [OF outer(1-3) this]
  have "config_walk w filename d c1 = Inr (False, c2)" by (simp add: c2_def)
  finally have walk: "config_walk w filename (path_abspath (w_fs w) filename) c0 = Inr (False, c2)" .
  have "add_all_filters (rev (fs @ fs')) (s\<lparr>line_length := n'\<rparr>)
      = Inr (s\<lparr>line_length := n', filters := filters s @ rev fs' @ rev fs\<rparr>)"
    using add_plain_filters [of "rev (fs @ fs')" "s\<lparr>line_length := n'\<rparr>"] plain by (auto simp: list_all_iff)
  with walk show ?thesis by (simp add: ProcessConfigOverrides_def c0_def c2_def)
qed

text \<open>A repository whose root allows 80 characters and a directory of it 100.\<close>

definition nested_world :: world where
  "nested_world = example_world
     \<lparr>is_file := (\<lambda>f. f \<in> {''/r/CPPLINT.cfg'', ''/r/d/CPPLINT.cfg''}),
      read_text := (\<lambda>f. Some (if f = ''/r/CPPLINT.cfg'' then ''filter=-build'' @ nl @ ''linelength=80'' @ nl @ ''set noparent'' @ nl
        else ''filter=-legal'' @ nl @ ''filter=+build/include'' @ nl @ ''linelength=100'' @ nl))\<rparr>"

theorem nested_configuration_witness:
  "ProcessConfigOverrides nested_world ''d/x.cc'' CppLintState_init =
     Inr (True, CppLintState_init\<lparr>filters := DEFAULT_FILTERS @ [''-build'', ''+build/include'', ''-legal''], line_length := 80\<rparr>)"
proof -
  have split: "path_split (path_abspath (w_fs nested_world) ''d/x.cc'') = (''/r/d'', ''x.cc'')" "path_split ''/r/d'' = (''/r'', ''d'')"
    by code_simp+
  have entries: "map config_entry [''filter=-legal'', ''filter=+build/include''] = filter_entries [''-legal'', ''+build/include'']"
    "map config_entry [''filter=-build''] = filter_entries [''-build'']"
    "config_entry ''linelength=100'' = Some (''linelength'', ''100'')" "config_entry ''linelength=80'' = Some (''linelength'', ''80'')"
    "config_entry ''set noparent'' = Some (''set noparent'', [])" "py_int ''100'' = Some 100" "py_int ''80'' = Some 80"
    "list_all plain_filter ([''-legal'', ''+build/include''] @ [''-build''])" "list_all signed_filter (filters CppLintState_init)"
    by code_simp+
  have files: "config_at nested_world ''/r/d'' ([''filter=-legal'', ''filter=+build/include''] @ [''linelength=100''])"
    "config_at nested_world ''/r'' ([''filter=-build''] @ [''linelength=80'', ''set noparent''])"
    by code_simp+
  from nested_configuration [OF split(1) _ files(1) entries(1,3,6) split(2) _ files(2) entries(2,4,7,5,8,9)]
  show ?thesis by (simp add: CppLintState_init_def)
qed

end
