(* ===== verification/Arguments.thy ===== *)
theory Arguments
  imports ConfigFacts
begin

text \<open>
  The reading of the command line: what \<open>getopt\<close> makes of arguments that are written out, and the round
  trip from settings to arguments and back through \<open>ParseArguments\<close>.
\<close>

section \<open>Options as they are written\<close>

text \<open>An option as it stands on the command line.\<close>

definition option_ok :: "string \<times> string \<Rightarrow> bool" where
  "option_ok ov \<longleftrightarrow> (\<exists>n. fst ov = ''--'' @ n \<and> (n @ ''='' \<in> set LONG_OPTIONS
     \<or> (n \<in> set LONG_OPTIONS \<and> \<not> endswith n ''='' \<and> snd ov = [])))"

definition render :: "string \<times> string \<Rightarrow> string" where
  "render ov = (if drop 2 (fst ov) @ ''='' \<in> set LONG_OPTIONS then fst ov @ ''='' @ snd ov else fst ov)"

lemma options_with_argument:
  "list_all (\<lambda>l. endswith l ''='' \<longrightarrow> long_has_args LONG_OPTIONS (butlast l) = Some (True, butlast l)
     \<and> CHR ''='' \<notin> set (butlast l)) LONG_OPTIONS"
  by code_simp

lemma options_without_argument:
  "list_all (\<lambda>l. \<not> endswith l ''='' \<longrightarrow> long_has_args LONG_OPTIONS l = Some (False, l)
     \<and> CHR ''='' \<notin> set l \<and> l \<noteq> [] \<and> l @ ''='' \<notin> set LONG_OPTIONS) LONG_OPTIONS"
  by code_simp

lemma takeWhile_before: "x \<notin> set n \<Longrightarrow> takeWhile (\<lambda>c. c \<noteq> x) (n @ x # v) = n \<and> dropWhile (\<lambda>c. c \<noteq> x) (n @ x # v) = x # v"
  by (induction n) auto

lemma takeWhile_all: "x \<notin> set n \<Longrightarrow> takeWhile (\<lambda>c. c \<noteq> x) n = n \<and> dropWhile (\<lambda>c. c \<noteq> x) n = []"
  by (induction n) auto

lemma getopt_render:
  assumes "option_ok ov" and "getopt LONG_OPTIONS args = Some (opts, names)"
  shows "getopt LONG_OPTIONS (render ov # args) = Some (ov # opts, names)"
proof -
  obtain opt v where ov: "ov = (opt, v)" by (cases ov)
  with assms(1) obtain n where n: "opt = ''--'' @ n"
    and k: "n @ ''='' \<in> set LONG_OPTIONS \<or> (n \<in> set LONG_OPTIONS \<and> \<not> endswith n ''='' \<and> v = [])"
    by (auto simp: option_ok_def)
  show ?thesis
  proof (cases "n @ ''='' \<in> set LONG_OPTIONS")
    case True
    then have "long_has_args LONG_OPTIONS n = Some (True, n) \<and> CHR ''='' \<notin> set n"
      using options_with_argument by (fastforce simp: list_all_iff)
    then show ?thesis
      using True assms(2) takeWhile_before [of "CHR ''=''" n v]
      by (simp add: ov n render_def startswith_def)
  next
    case False
    with k have "n \<in> set LONG_OPTIONS" "\<not> endswith n ''=''" "v = []" by auto
    moreover from this have "long_has_args LONG_OPTIONS n = Some (False, n) \<and> CHR ''='' \<notin> set n \<and> n \<noteq> []"
      using options_without_argument by (auto simp: list_all_iff)
    ultimately show ?thesis
      using False assms(2) takeWhile_all [of "CHR ''=''" n]
      by (simp add: ov n render_def startswith_def del: takeWhile_eq_all_conv dropWhile_eq_Nil_conv)
  qed
qed

text \<open>Arguments are read as they are written: options of the program followed by names give back
  these options, in order and with their values, and these names.\<close>

lemma getopt_roundtrip:
  assumes "list_all option_ok opts" and "names = [] \<or> hd names = ''-'' \<or> \<not> startswith (hd names) ''-''"
  shows "getopt LONG_OPTIONS (map render opts @ names) = Some (opts, names)"
  using assms
proof (induction opts)
  case Nil
  then show ?case by (cases names) auto
next
  case (Cons ov opts)
  then show ?case by (simp add: getopt_render del: getopt.simps)
qed



section \<open>Settings as arguments\<close>

record cli =
  cli_output :: string
  cli_verbose :: int
  cli_filters :: "string list"
  cli_counting :: string
  cli_root :: string
  cli_linelength :: int
  cli_quiet :: bool

definition cli_ok :: "cli \<Rightarrow> bool" where
  "cli_ok c \<longleftrightarrow> cli_output c \<in> {''emacs'', ''vs7'', ''eclipse'', ''junit''}
     \<and> cli_counting c \<in> {''total'', ''toplevel'', ''detailed''} \<and> cli_filters c \<noteq> []
     \<and> list_all plain_filter (cli_filters c)"

definition cli_options :: "cli \<Rightarrow> (string \<times> string) list" where
  "cli_options c =
     [(''--output'', cli_output c), (''--verbose'', str_int (cli_verbose c)),
      (''--filter'', join_with '','' (cli_filters c)), (''--counting'', cli_counting c),
      (''--root'', cli_root c), (''--linelength'', str_int (cli_linelength c))] @
     (if cli_quiet c then [(''--quiet'', [])] else [])"

definition configured :: "cli \<Rightarrow> lint \<Rightarrow> lint" where
  "configured c s = s\<lparr>output_format := cli_output c, verbose_level := cli_verbose c,
     filters := DEFAULT_FILTERS @ cli_filters c, counting := cli_counting c, root_dir := Some (cli_root c),
     line_length := cli_linelength c, quiet := quiet s \<or> cli_quiet c\<rparr>"

lemma strip_digits: "list_all is_digit t \<Longrightarrow> py_strip t = t"
proof -
  have "dropWhile is_space t = t" if "list_all is_digit t" for t
    using that by (cases t) (auto simp: is_digit_def is_space_def in_range_def)
  then show "list_all is_digit t \<Longrightarrow> py_strip t = t"
    by (simp add: py_strip_def py_lstrip_def py_rstrip_def list_all_iff)
qed

lemma py_int_str_int: "py_int (str_int n) = Some n"
proof -
  have strip: "py_strip (str_nat k) = str_nat k" for k using str_nat_digits strip_digits by blast
  have digit: "is_digit c \<Longrightarrow> c \<noteq> CHR ''-'' \<and> c \<noteq> CHR ''+''" for c
    by (auto simp: is_digit_def in_range_def)
  obtain c cs where c: "str_nat (nat n) = c # cs" "is_digit c"
    using str_nat_digits [of "nat n"] by (cases "str_nat (nat n)") auto
  have minus: "py_strip (CHR ''-'' # t) = CHR ''-'' # t" if "list_all is_digit t" for t
    using strip_digits [OF that] that
    by (cases "rev t") (auto simp: py_strip_def py_lstrip_def py_rstrip_def is_space_def in_range_def dropWhile_append3 is_digit_def list_all_iff)
  show ?thesis
  proof (cases "n < 0")
    case True
    then show ?thesis
      using minus [of "str_nat (nat (- n))"] str_nat_digits [of "nat (- n)"] nat_of_str_nat [of "nat (- n)"]
      by (simp add: py_int_def str_int_def)
  next
    case False
    then show ?thesis
      using strip [of "nat n"] nat_of_str_nat [of "nat n"] digit [OF c(2)] c(1) by (simp add: py_int_def str_int_def)
  qed
qed

lemma split_join:
  "ws \<noteq> [] \<Longrightarrow> list_all (\<lambda>w. x \<notin> set w) ws \<Longrightarrow> split_on x (join_with [x] ws) = ws"
proof (induction ws rule: induct_list012)
  case (2 w)
  then have "x \<notin> set w" by simp
  then have "split_on x w = [w]" by (intro split_on_absent) simp
  then show ?case by simp
next
  case (3 w v ws)
  have "split_on x (w @ x # t) = w # split_on x t" if "x \<notin> set w" for w t
    using that by (induction w) auto
  with 3 show ?case by simp
qed simp

lemma filters_read:
  assumes "cli_ok c"
  shows "SetFilters (join_with '','' (cli_filters c)) s = Inr (s\<lparr>filters := DEFAULT_FILTERS @ cli_filters c\<rparr>)"
proof -
  have ok: "\<forall>f \<in> set (cli_filters c). signed_filter f \<and> py_strip f = f \<and> CHR '','' \<notin> set f" "cli_filters c \<noteq> []"
    using assms by (auto simp: cli_ok_def plain_filter_def list_all_iff)
  then have "split_on (CHR '','') (join_with '','' (cli_filters c)) = cli_filters c"
    by (intro split_join) (auto simp: list_all_iff)
  moreover have "map py_strip (cli_filters c) = cli_filters c" using ok by (simp add: map_idI)
  moreover have "filter (\<lambda>f. f \<noteq> []) (cli_filters c) = cli_filters c"
    using ok by (auto intro!: filter_True simp: signed_filter_def startswith_def)
  moreover have "list_all signed_filter DEFAULT_FILTERS"
    by (simp add: DEFAULT_FILTERS_def signed_filter_def startswith_def)
  ultimately have "append_filters (split_on (CHR '','') (join_with '','' (cli_filters c))) DEFAULT_FILTERS = DEFAULT_FILTERS @ cli_filters c"
    and "first_unsigned (DEFAULT_FILTERS @ cli_filters c) = None"
    using ok(1) by (auto simp: append_filters_eq first_unsigned_None list_all_iff)
  then show ?thesis by (simp add: SetFilters_def AddFilters_def)
qed

lemma options_applied:
  assumes "cli_ok c"
  shows "\<exists>os. apply_options w (cli_options c) (options_init s) = Inr os \<and> o_recursive os = False
    \<and> excludes (o_lint os) = excludes s \<and> apply_settings os = Inr (configured c s)"
proof -
  have "join_with '','' (cli_filters c) \<noteq> []"
  proof
    assume "join_with '','' (cli_filters c) = []"
    then have "cli_filters c = [[]]"
      using split_join [of "cli_filters c" "CHR '',''"] assms by (auto simp: cli_ok_def plain_filter_def list_all_iff)
    then show False using assms by (simp add: cli_ok_def plain_filter_def signed_filter_def startswith_def)
  qed
  then show ?thesis
    using assms unfolding cli_ok_def
    by (auto simp: cli_options_def apply_option_def py_int_str_int options_init_def apply_settings_def
        filters_read [OF assms] SetOutputFormat_def SetQuiet_def Quiet_def SetVerboseLevel_def SetCountingStyle_def
        configured_def)
qed

text \<open>C7. The command line gives the settings it says: when settings are written out as options, before
  the names of the files, \<open>ParseArguments\<close> gives back the names, and a lint state that has exactly
  these settings, the filters after the default ones, and is otherwise unchanged.\<close>

theorem ParseArguments_roundtrip:
  assumes "cli_ok c" and "names \<noteq> []" and "hd names = ''-'' \<or> \<not> startswith (hd names) ''-''" and "excludes s = None"
  shows "ParseArguments w (map render (cli_options c) @ names) s = Inr (names, configured c s)"
proof -
  have ok: "list_all option_ok (cli_options c)"
    by (auto simp: cli_options_def option_ok_def LONG_OPTIONS_def endswith_def)
  have "getopt LONG_OPTIONS (map render (cli_options c) @ names) = Some (cli_options c, names)"
    using getopt_roundtrip [OF ok, of names] assms(3) by blast
  moreover obtain os where "apply_options w (cli_options c) (options_init s) = Inr os" "o_recursive os = False"
    "excludes (o_lint os) = excludes s" "apply_settings os = Inr (configured c s)"
    using options_applied [OF assms(1)] by blast
  ultimately show ?thesis
    using assms(2,4) by (simp add: ParseArguments_def select_files_def del: getopt.simps)
qed

theorem ParseArguments_roundtrip_witness:
  "ParseArguments example_world
     [''--output=vs7'', ''--verbose=3'', ''--filter=-legal,+build/include'', ''--counting=toplevel'', ''--root='',
      ''--linelength=120'', ''--quiet'', ''a.cc''] CppLintState_init
   = Inr ([''a.cc''], CppLintState_init\<lparr>output_format := ''vs7'', verbose_level := 3,
      filters := DEFAULT_FILTERS @ [''-legal'', ''+build/include''], counting := ''toplevel'', root_dir := Some [],
      line_length := 120, quiet := True\<rparr>)"
proof -
  let ?c = "\<lparr>cli_output = ''vs7'', cli_verbose = 3, cli_filters = [''-legal'', ''+build/include''],
    cli_counting = ''toplevel'', cli_root = [], cli_linelength = 120, cli_quiet = True\<rparr>"
  have "cli_ok ?c"
    by (simp add: cli_ok_def plain_filter_def signed_filter_def startswith_def py_strip_def py_lstrip_def py_rstrip_def is_space_def in_range_def)
  moreover have n: "str_int 3 = ''3''" "str_int 120 = ''120''" by code_simp+
  ultimately show ?thesis
    using ParseArguments_roundtrip [of ?c "[''a.cc'']" CppLintState_init example_world]
    by (simp add: cli_options_def render_def LONG_OPTIONS_def startswith_def n CppLintState_init_def configured_def)
qed

end
