(* ===== verification/ClangTidy.thy ===== *)
theory ClangTidy
  imports Paths "HOL-Library.Multiset"
begin

text \<open>
  The script \<open>run_clang_tidy.py\<close> with its helper \<open>run_clang_tidy_extra.py\<close>: the command lines, the
  search for the compilation database, and the pool of threads that run clang-tidy on the files of
  the database. The pool is a step relation on the state its threads share: the main thread puts
  the names that match into a bounded queue, workers take them, run the tool and mark the task done,
  and \<open>join\<close> returns when no task is left. A worker whose call raises dies without marking its task.
  The record \<open>tidy_args\<close> holds what \<open>argparse\<close> returns; the tool, the file system and the contents
  of the database are parameters.

  The lemmas: the tasks that are counted are those in the queue or with a worker, no failure is lost
  and none is invented whatever the interleaving, so the exit status is right once \<open>join\<close> returns;
  the pool never gets stuck while all names match and no worker dies, and \<open>join\<close> is never reached
  when a name does not match.
\<close>

section \<open>CheckConfig\<close>

record check_config =
  ignore_pats :: "string list"
  debug :: bool

definition CheckConfig_init :: check_config where
  "CheckConfig_init = \<lparr>ignore_pats = [''.*/third_party/.*''], debug = False\<rparr>"

text \<open>Whether a path is to be skipped, and what is printed.\<close>

fun skip_by :: "bool \<Rightarrow> string list \<Rightarrow> string \<Rightarrow> bool \<times> string" where
  \<open>skip_by dbg [] path = (False, [])\<close>
| \<open>skip_by dbg (pat # pats) path =
     (if is_match pat path then
        (True, if dbg then ''match pat: '' @ pat @ '', '' @ path @ '' => don\'t run'' @ [CHR 0x0A] else [])
      else skip_by dbg pats path)\<close>

definition should_skip :: "check_config \<Rightarrow> string \<Rightarrow> bool \<times> string" where
  "should_skip cc path = skip_by (debug cc) (ignore_pats cc) path"

section \<open>Command lines\<close>

record tidy_args =
  ta_binary :: string
  ta_apply_binary :: string
  ta_checks :: "string option"
  ta_config :: "string option"
  ta_header_filter :: "string option"
  ta_export_fixes :: "string option"
  ta_jobs :: int
  ta_files :: "string list"
  ta_fix :: bool
  ta_format :: bool
  ta_style :: string
  ta_build_path :: "string option"
  ta_extra_arg :: "string list"
  ta_extra_arg_before :: "string list"
  ta_quiet :: bool

text \<open>An option that is given and not empty.\<close>

definition given :: "string option \<Rightarrow> (string \<Rightarrow> string list) \<Rightarrow> string list" where
  "given v k = (case v of None \<Rightarrow> [] | Some t \<Rightarrow> if t = [] then [] else k t)"

definition make_absolute :: "string \<Rightarrow> string \<Rightarrow> string" where
  "make_absolute f directory = (if path_isabs f then f else path_normpath (path_join directory f))"

text \<open>The command line; \<open>mkstemp\<close> gives the name of the temporary file it creates in a directory.\<close>

definition get_tidy_invocation ::
    "string \<Rightarrow> string \<Rightarrow> string option \<Rightarrow> (string \<Rightarrow> string) \<Rightarrow> string option \<Rightarrow> string \<Rightarrow> string option \<Rightarrow>
     string list \<Rightarrow> string list \<Rightarrow> bool \<Rightarrow> string option \<Rightarrow> string list" where
  "get_tidy_invocation f clang_tidy_binary checks mkstemp tmpdir build_path header_filter
       extra_arg extra_arg_before be_quiet config =
     [clang_tidy_binary] @
     (case header_filter of None \<Rightarrow> [] | Some h \<Rightarrow> [''-header-filter='' @ h]) @
     given checks (\<lambda>t. [''-checks='' @ t]) @
     (case tmpdir of None \<Rightarrow> [] | Some d \<Rightarrow> [''-export-fixes'', mkstemp d]) @
     map (\<lambda>arg. ''-extra-arg='' @ arg) extra_arg @
     map (\<lambda>arg. ''-extra-arg-before='' @ arg) extra_arg_before @
     [''-p='' @ build_path] @
     (if be_quiet then [''-quiet''] else []) @
     given config (\<lambda>t. [''-config='' @ t]) @
     [f]"

definition list_checks_invocation :: "tidy_args \<Rightarrow> string \<Rightarrow> string list" where
  "list_checks_invocation args build_path =
     [ta_binary args, ''-list-checks'', ''-p='' @ build_path] @ given (ta_checks args) (\<lambda>t. [''-checks='' @ t]) @ [''-'']"

definition apply_fixes_invocation :: "tidy_args \<Rightarrow> string \<Rightarrow> string list" where
  "apply_fixes_invocation args tmpdir =
     [ta_apply_binary args] @ (if ta_format args then [''-format''] else []) @
     (if ta_style args = [] then [] else [''-style='' @ ta_style args]) @ [tmpdir]"

section \<open>The compilation database\<close>

text \<open>Climbs until the file exists; the exit with status 1 at the root is an error value.\<close>

partial_function (option) climb_to_database ::
    "(string \<Rightarrow> bool) \<Rightarrow> (string \<Rightarrow> string) \<Rightarrow> string \<Rightarrow> string \<Rightarrow> string outcome" where
  "climb_to_database isfile realpath path result =
     (if isfile (path_join result path) then Some (Inr (realpath result))
      else if realpath result = ''/'' then Some (Inl (SystemExit 1))
      else climb_to_database isfile realpath path (result @ ''../''))"

definition find_compilation_database ::
    "(string \<Rightarrow> bool) \<Rightarrow> (string \<Rightarrow> string) \<Rightarrow> string \<Rightarrow> string outcome" where
  "find_compilation_database isfile realpath path = climb_to_database isfile realpath path ''./''"

section \<open>The pool of threads\<close>

datatype worker =
  Idle | Running string | Checked string | Dead worker

record tidy_pool =
  to_put :: "string list"
  task_queue :: "string list"
  unfinished_tasks :: nat
  workers :: "worker list"
  failed_files :: "string list"

record tidy_env =
  name_matches :: "string \<Rightarrow> bool"      \<comment> \<open>\<open>file_name_re.search\<close>\<close>
  returncode :: "string \<Rightarrow> int"         \<comment> \<open>of clang-tidy on a file\<close>
  max_task :: int

definition skipped :: "string \<Rightarrow> bool" where
  "skipped name = fst (should_skip CheckConfig_init name)"

definition pool_start :: "tidy_env \<Rightarrow> string list \<Rightarrow> tidy_pool" where
  "pool_start env files =
     \<lparr>to_put = files, task_queue = [], unfinished_tasks = 0,
      workers = replicate (nat (max_task env)) Idle, failed_files = []\<rparr>"

text \<open>A queue with a size that is not positive has no bound.\<close>

definition queue_full :: "tidy_env \<Rightarrow> tidy_pool \<Rightarrow> bool" where
  "queue_full env p \<longleftrightarrow> 0 < max_task env \<and> max_task env \<le> int (length (task_queue p))"

definition put_name :: "tidy_pool \<Rightarrow> tidy_pool" where
  "put_name p = p\<lparr>to_put := tl (to_put p), task_queue := task_queue p @ [hd (to_put p)],
     unfinished_tasks := unfinished_tasks p + 1\<rparr>"

definition get_name :: "nat \<Rightarrow> tidy_pool \<Rightarrow> tidy_pool" where
  "get_name w p = p\<lparr>task_queue := tl (task_queue p), workers := (workers p)[w := Running (hd (task_queue p))]\<rparr>"

definition run_name :: "tidy_env \<Rightarrow> nat \<Rightarrow> string \<Rightarrow> tidy_pool \<Rightarrow> tidy_pool" where
  "run_name env w name p = p\<lparr>workers := (workers p)[w := Checked name],
     failed_files := (if returncode env name \<noteq> 0 then failed_files p @ [name] else failed_files p)\<rparr>"

definition task_done :: "nat \<Rightarrow> tidy_pool \<Rightarrow> tidy_pool" where
  "task_done w p = p\<lparr>workers := (workers p)[w := Idle], unfinished_tasks := unfinished_tasks p - 1\<rparr>"

definition worker_dies :: "nat \<Rightarrow> tidy_pool \<Rightarrow> tidy_pool" where
  "worker_dies w p = p\<lparr>workers := (workers p)[w := Dead (workers p ! w)]\<rparr>"

text \<open>The steps that move a task forward.\<close>

inductive works :: "tidy_env \<Rightarrow> tidy_pool \<Rightarrow> tidy_pool \<Rightarrow> bool" for env where
  put: "to_put p = name # names \<Longrightarrow> name_matches env name \<Longrightarrow> \<not> queue_full env p \<Longrightarrow> works env p (put_name p)"
| get: "w < length (workers p) \<Longrightarrow> workers p ! w = Idle \<Longrightarrow> task_queue p \<noteq> [] \<Longrightarrow> works env p (get_name w p)"
| skip: "w < length (workers p) \<Longrightarrow> workers p ! w = Running name \<Longrightarrow> skipped name \<Longrightarrow> works env p (task_done w p)"
| run: "w < length (workers p) \<Longrightarrow> workers p ! w = Running name \<Longrightarrow> \<not> skipped name \<Longrightarrow> works env p (run_name env w name p)"
| finish: "w < length (workers p) \<Longrightarrow> workers p ! w = Checked name \<Longrightarrow> works env p (task_done w p)"

text \<open>All steps: also waiting, when the queue is full or the name does not match, and dying.\<close>

inductive tidy_step :: "tidy_env \<Rightarrow> tidy_pool \<Rightarrow> tidy_pool \<Rightarrow> bool" for env where
  works: "works env p q \<Longrightarrow> tidy_step env p q"
| still_waiting: "to_put p = name # names \<Longrightarrow> name_matches env name \<Longrightarrow> queue_full env p \<Longrightarrow> tidy_step env p p"
| no_match: "to_put p = name # names \<Longrightarrow> \<not> name_matches env name \<Longrightarrow> tidy_step env p p"
| dies_before: "w < length (workers p) \<Longrightarrow> workers p ! w = Running name \<Longrightarrow> tidy_step env p (worker_dies w p)"
| dies_after: "w < length (workers p) \<Longrightarrow> workers p ! w = Checked name \<Longrightarrow> tidy_step env p (worker_dies w p)"

inductive tidy_reaches :: "tidy_env \<Rightarrow> string list \<Rightarrow> tidy_pool \<Rightarrow> bool" for env files where
  start: "tidy_reaches env files (pool_start env files)"
| step: "tidy_reaches env files p \<Longrightarrow> tidy_step env p q \<Longrightarrow> tidy_reaches env files q"

text \<open>All names are put and \<open>join\<close> returns.\<close>

definition joined :: "tidy_pool \<Rightarrow> bool" where
  "joined p \<longleftrightarrow> to_put p = [] \<and> unfinished_tasks p = 0"

section \<open>The main program\<close>

text \<open>
  The module \<open>yaml\<close> is not imported: its first use raises. Without replacement files the merged file
  is emptied, which \<open>written\<close> is the result of.
\<close>

definition merge_replacement_files :: "string list \<Rightarrow> unit result \<Rightarrow> unit result" where
  "merge_replacement_files replacement_files written =
     (if replacement_files = [] then written else Inl (NameError ''yaml''))"

text \<open>The files of the database and the number of tasks.\<close>

definition database_files :: "(string \<times> string) list \<Rightarrow> string list" where
  "database_files database = map (\<lambda>(file, directory). make_absolute file directory) database"

definition task_number :: "tidy_args \<Rightarrow> int \<Rightarrow> int" where
  "task_number args cpu_count = (if ta_jobs args = 0 then cpu_count else ta_jobs args)"

definition file_name_re :: "tidy_args \<Rightarrow> (flags \<times> re) option" where
  "file_name_re args = re_compile no_flags (join_with ''|'' (ta_files args))"

text \<open>
  The exit status after \<open>join\<close>, from the failed files, the replacement files found in the temporary
  directory, and the result of running the tool that applies them.
\<close>

definition tidy_status :: "tidy_args \<Rightarrow> tidy_pool \<Rightarrow> string list \<Rightarrow> unit result \<Rightarrow> (string list \<Rightarrow> unit result) \<Rightarrow> string \<Rightarrow> int" where
  "tidy_status args p replacement_files written call tmpdir =
     (let return_code = (if failed_files p \<noteq> [] then 1 else 0);
          return_code = (case ta_export_fixes args of
             None \<Rightarrow> return_code
           | Some f \<Rightarrow> if f = [] then return_code
                       else (case merge_replacement_files replacement_files written of Inl e \<Rightarrow> 1 | Inr t \<Rightarrow> return_code))
      in if ta_fix args then
           (case call (apply_fixes_invocation args tmpdir) of Inl e \<Rightarrow> 1 | Inr u \<Rightarrow> return_code)
         else return_code)"

text \<open>
  What the program finds around it: the file system, whether a command runs with status 0 (an exception
  of any kind counts as not), the database as pairs of a file and a directory, or none when reading it
  raises, the replacement files that the runs leave behind, the outcome of writing the merged
  file, and that of calling the tool that applies the fixes, whose own exit status the program
  ignores. clang-tidy answers to its command line; \<open>mkstemp\<close> names the replacement file of a run.
\<close>

record tidy_world =
  tw_isfile :: "string \<Rightarrow> bool"
  tw_realpath :: "string \<Rightarrow> string"
  tw_check_call :: "string list \<Rightarrow> bool"
  tw_database :: "string \<Rightarrow> (string \<times> string) list option"
  tw_cpu_count :: int
  tw_mkdtemp :: string
  tw_mkstemp :: "string \<Rightarrow> string \<Rightarrow> string"                   \<comment> \<open>for the run on a file, in a directory\<close>
  tw_returncode :: "string list \<Rightarrow> int"
  tw_replacements :: "string list"
  tw_merged :: "unit result"
  tw_call :: "string list \<Rightarrow> unit result"

definition check_clang_apply_replacements_binary :: "tidy_world \<Rightarrow> tidy_args \<Rightarrow> unit result" where
  "check_clang_apply_replacements_binary w args =
     (if tw_check_call w [ta_apply_binary args, ''--version''] then Inr () else Inl (SystemExit 1))"

text \<open>A temporary directory is needed for fixes and for the file of replacements.\<close>

definition wants_fixes :: "tidy_args \<Rightarrow> bool" where
  "wants_fixes args \<longleftrightarrow> ta_fix args \<or> (case ta_export_fixes args of None \<Rightarrow> False | Some f \<Rightarrow> f \<noteq> [])"

text \<open>The command line that a worker runs for a file.\<close>

definition tidy_invocation :: "tidy_world \<Rightarrow> tidy_args \<Rightarrow> string \<Rightarrow> string \<Rightarrow> string list" where
  "tidy_invocation w args build_path name =
     get_tidy_invocation name (ta_binary args) (ta_checks args) (tw_mkstemp w name)
       (if wants_fixes args then Some (tw_mkdtemp w) else None) build_path (ta_header_filter args)
       (ta_extra_arg args) (ta_extra_arg_before args) (ta_quiet args) (ta_config args)"

definition tidy_env_of :: "tidy_world \<Rightarrow> tidy_args \<Rightarrow> string \<Rightarrow> tidy_env option" where
  "tidy_env_of w args build_path =
     map_option (\<lambda>fr. \<lparr>name_matches = (\<lambda>name. re_search fr name \<noteq> None),
                      returncode = (\<lambda>name. tw_returncode w (tidy_invocation w args build_path name)),
                      max_task = task_number args (tw_cpu_count w)\<rparr>) (file_name_re args)"

text \<open>The directory of the database.\<close>

definition tidy_build_path :: "tidy_world \<Rightarrow> tidy_args \<Rightarrow> string outcome" where
  "tidy_build_path w args =
     (case ta_build_path args of
        Some p \<Rightarrow> ret p
      | None \<Rightarrow> find_compilation_database (tw_isfile w) (tw_realpath w) ''compile_commands.json'')"

text \<open>What comes before the threads are started: the files, and what the pool works with.\<close>

definition tidy_setup :: "tidy_world \<Rightarrow> tidy_args \<Rightarrow> (tidy_env \<times> string list) outcome" where
  "tidy_setup w args =
     bind_outcome (tidy_build_path w args) (\<lambda>build_path.
       if \<not> tw_check_call w (list_checks_invocation args build_path) then Some (Inl (SystemExit 1))
       else
         case tw_database w (path_join build_path ''compile_commands.json'') of
           None \<Rightarrow> Some (Inl (ValueError ''database''))
         | Some database \<Rightarrow>
             bind_outcome
               (Some (if wants_fixes args then check_clang_apply_replacements_binary w args else Inr ())) (\<lambda>u.
               case tidy_env_of w args build_path of
                 None \<Rightarrow> Some (Inl (ValueError ''re.error''))
               | Some env \<Rightarrow> ret (env, database_files database)))"

text \<open>How the program ends: with an exit status, with an exception, or killed by itself on an interrupt.\<close>

datatype tidy_end =
  Exits int | Raises py_exn | Killed

definition end_of :: "py_exn \<Rightarrow> tidy_end" where
  "end_of e = (case e of SystemExit n \<Rightarrow> Exits n | _ \<Rightarrow> Raises e)"

text \<open>
  An end of the program. The interleaving of the threads decides which states of the pool are reached;
  an interrupt may come at any of them.
\<close>

inductive tidy_ends :: "tidy_world \<Rightarrow> tidy_args \<Rightarrow> tidy_end \<Rightarrow> bool" for w args where
  not_started: "tidy_setup w args = Some (Inl e) \<Longrightarrow> tidy_ends w args (end_of e)"
| interrupted: "tidy_setup w args = ret (env, files) \<Longrightarrow> tidy_reaches env files p \<Longrightarrow> tidy_ends w args Killed"
| finished: "tidy_setup w args = ret (env, files) \<Longrightarrow> tidy_reaches env files p \<Longrightarrow> joined p \<Longrightarrow>
    tidy_ends w args (Exits (tidy_status args p (tw_replacements w) (tw_merged w) (tw_call w) (tw_mkdtemp w)))"

section \<open>The invariant of the pool\<close>

definition fails :: "tidy_env \<Rightarrow> string \<Rightarrow> bool" where
  "fails env name \<longleftrightarrow> \<not> skipped name \<and> returncode env name \<noteq> 0"

fun is_busy :: "worker \<Rightarrow> nat" where
  "is_busy Idle = 0" | "is_busy (Running name) = 1" | "is_busy (Checked name) = 1" | "is_busy (Dead v) = 1"

text \<open>The failure that a worker has still to record.\<close>

fun owed :: "tidy_env \<Rightarrow> worker \<Rightarrow> string multiset" where
  "owed env (Running name) = (if fails env name then {#name#} else {#})"
| "owed env (Dead v) = owed env v"
| "owed env v = {#}"

definition pool_ok :: "tidy_env \<Rightarrow> string list \<Rightarrow> tidy_pool \<Rightarrow> bool" where
  "pool_ok env files p \<longleftrightarrow>
     unfinished_tasks p = length (task_queue p) + sum_list (map is_busy (workers p))
     \<and> mset (filter (fails env) files) = mset (failed_files p) + mset (filter (fails env) (to_put p))
          + mset (filter (fails env) (task_queue p)) + sum_list (map (owed env) (workers p))
     \<and> filter (\<lambda>n. \<not> name_matches env n) files = filter (\<lambda>n. \<not> name_matches env n) (to_put p)
     \<and> length (workers p) = nat (max_task env)
     \<and> (0 < max_task env \<longrightarrow> int (length (task_queue p)) \<le> max_task env)"

lemma sum_list_update_map:
  fixes f :: "'a \<Rightarrow> 'b :: comm_monoid_add"
  assumes "w < length xs"
  shows "sum_list (map f (xs[w := y])) + f (xs ! w) = sum_list (map f xs) + f y"
  using assms
proof (induction xs arbitrary: w)
  case (Cons x xs)
  then show ?case by (cases w) (auto simp: ac_simps)
qed simp

lemma worker_update:
  assumes "w < length ws"
  shows "sum_list (map is_busy (ws[w := v])) + is_busy (ws ! w) = sum_list (map is_busy ws) + is_busy v
    \<and> sum_list (map (owed env) (ws[w := v])) + owed env (ws ! w) = sum_list (map (owed env) ws) + owed env v"
  using assms by (simp add: sum_list_update_map)

lemma busy_worker: "w < length ws \<Longrightarrow> is_busy (ws ! w) \<le> sum_list (map is_busy ws)"
  by (simp add: member_le_sum_list)

lemmas pool_steps = put_name_def get_name_def run_name_def task_done_def worker_dies_def

lemma works_ok: "works env p q \<Longrightarrow> pool_ok env files p \<Longrightarrow> pool_ok env files q"
proof (induction rule: works.induct)
  case (put p name names)
  then show ?case by (auto simp: pool_ok_def pool_steps queue_full_def)
next
  case (get w p)
  then show ?case
    using worker_update [where env = env and w = w and ws = "workers p" and v = "Running (hd (task_queue p))"]
    by (cases "task_queue p") (auto simp: pool_ok_def pool_steps)
next
  case (skip w p name)
  then show ?case
    using worker_update [where env = env and w = w and ws = "workers p" and v = Idle] busy_worker [of w "workers p"]
    by (auto simp: pool_ok_def pool_steps fails_def)
next
  case (run w p name)
  then show ?case
    using worker_update [where env = env and w = w and ws = "workers p" and v = "Checked name"]
    by (auto simp: pool_ok_def pool_steps fails_def)
next
  case (finish w p name)
  then show ?case
    using worker_update [where env = env and w = w and ws = "workers p" and v = Idle] busy_worker [of w "workers p"]
    by (auto simp: pool_ok_def pool_steps)
qed

lemma tidy_step_ok: "tidy_step env p q \<Longrightarrow> pool_ok env files p \<Longrightarrow> pool_ok env files q"
proof (induction rule: tidy_step.induct)
  case (works p q)
  then show ?case by (rule works_ok)
next
  case (dies_before w p name)
  then show ?case
    using worker_update [where env = env and w = w and ws = "workers p" and v = "Dead (workers p ! w)"]
    by (auto simp: pool_ok_def pool_steps)
next
  case (dies_after w p name)
  then show ?case
    using worker_update [where env = env and w = w and ws = "workers p" and v = "Dead (workers p ! w)"]
    by (auto simp: pool_ok_def pool_steps)
qed simp_all

lemma pool_start_ok: "pool_ok env files (pool_start env files)"
proof -
  have "sum_list (replicate n {#}) = {#}" for n by (induction n) simp_all
  then show ?thesis by (simp add: pool_ok_def pool_start_def sum_list_replicate)
qed

section \<open>The pool as a loop\<close>

text \<open>The specification: one file after the other is taken, in any order, and recorded when it fails.\<close>

inductive check_step :: "tidy_env \<Rightarrow> string multiset \<times> string multiset \<Rightarrow> string multiset \<times> string multiset \<Rightarrow> bool" for env where
  fail: "fails env n \<Longrightarrow> check_step env (add_mset n todo, failed) (todo, add_mset n failed)"
| pass: "\<not> fails env n \<Longrightarrow> check_step env (add_mset n todo, failed) (todo, failed)"

text \<open>The file that a worker has taken and not yet checked.\<close>

fun held :: "worker \<Rightarrow> string multiset" where
  "held (Running n) = {#n#}" | "held (Dead v) = held v" | "held v = {#}"

text \<open>The files still to be checked, and those recorded.\<close>

definition checked_so_far :: "tidy_pool \<Rightarrow> string multiset \<times> string multiset" where
  "checked_so_far p = (mset (to_put p) + mset (task_queue p) + sum_list (map held (workers p)), mset (failed_files p))"

lemma held_update: "w < length ws \<Longrightarrow>
   sum_list (map held (ws[w := v])) + held (ws ! w) = sum_list (map held ws) + held v"
  by (rule sum_list_update_map)

lemma works_simulates:
  "works env p q \<Longrightarrow> checked_so_far p = checked_so_far q \<or> check_step env (checked_so_far p) (checked_so_far q)"
proof (induction rule: works.induct)
  case (put p name names)
  then show ?case by (simp add: checked_so_far_def pool_steps)
next
  case (get w p)
  then show ?case
    using held_update [of w "workers p" "Running (hd (task_queue p))"]
    by (cases "task_queue p") (auto simp: checked_so_far_def pool_steps)
next
  case (skip w p name)
  then show ?case
    using held_update [of w "workers p" Idle] check_step.pass [of env name]
    by (simp add: checked_so_far_def pool_steps fails_def)
      (metis (no_types, lifting) add_mset_add_single union_mset_add_mset_right)
next
  case (run w p name)
  have "checked_so_far p = (add_mset name (fst (checked_so_far (run_name env w name p))), mset (failed_files p))"
    using held_update [of w "workers p" "Checked name"] run by (simp add: checked_so_far_def pool_steps)
  moreover have "checked_so_far (run_name env w name p) = (fst (checked_so_far (run_name env w name p)),
      if fails env name then add_mset name (mset (failed_files p)) else mset (failed_files p))"
    using run by (simp add: checked_so_far_def pool_steps fails_def)
  ultimately show ?case by (metis check_step.intros)
next
  case (finish w p name)
  then show ?case
    using held_update [of w "workers p" Idle] by (simp add: checked_so_far_def pool_steps)
qed

lemma tidy_step_simulates: "tidy_step env p q \<Longrightarrow> checked_so_far p = checked_so_far q \<or> check_step env (checked_so_far p) (checked_so_far q)"
proof (induction rule: tidy_step.induct)
  case (works p q)
  then show ?case by (rule works_simulates)
next
  case (dies_before w p name)
  then show ?case
    using held_update [of w "workers p" "Dead (workers p ! w)"] by (simp add: checked_so_far_def pool_steps)
next
  case (dies_after w p name)
  then show ?case
    using held_update [of w "workers p" "Dead (workers p ! w)"] by (simp add: checked_so_far_def pool_steps)
qed simp_all

interpretation pool: simulation "tidy_step env" "check_step env" checked_so_far "pool_ok env files" for env files
  by unfold_locales (auto intro: tidy_step_ok dest: tidy_step_simulates)

lemma tidy_reaches_steps: "tidy_reaches env files p \<Longrightarrow> (tidy_step env)\<^sup>*\<^sup>* (pool_start env files) p"
  by (induction rule: tidy_reaches.induct) (auto intro: rtranclp.rtrancl_into_rtrancl)

lemma tidy_reaches_ok: "tidy_reaches env files p \<Longrightarrow> pool_ok env files p"
  by (rule pool.inv_steps [OF tidy_reaches_steps pool_start_ok])

lemma busy_0: "is_busy v = 0 \<longleftrightarrow> v = Idle"
  by (cases v) auto

lemma idle_owes_nothing: "sum_list (map is_busy ws) = 0 \<Longrightarrow> sum_list (map (owed env) ws) = {#}"
  by (induction ws) (auto simp: busy_0)

section \<open>Progress\<close>

fun rank :: "worker \<Rightarrow> nat" where
  "rank (Running name) = 2" | "rank (Checked name) = 1" | "rank Idle = 0" | "rank (Dead v) = 0"

definition work_left :: "tidy_pool \<Rightarrow> nat" where
  "work_left p = 4 * length (to_put p) + 3 * length (task_queue p) + sum_list (map rank (workers p))"

lemma works_decreases: "works env p q \<Longrightarrow> work_left q < work_left p"
proof (induction rule: works.induct)
  case (put p name names)
  then show ?case by (simp add: work_left_def pool_steps)
next
  case (get w p)
  then show ?case
    using sum_list_update_map [of w "workers p" rank "Running (hd (task_queue p))"]
    by (cases "task_queue p") (auto simp: work_left_def pool_steps)
next
  case (skip w p name)
  then show ?case using sum_list_update_map [of w "workers p" rank Idle]
    by (simp add: work_left_def pool_steps)
next
  case (run w p name)
  then show ?case using sum_list_update_map [of w "workers p" rank "Checked name"]
    by (simp add: work_left_def pool_steps)
next
  case (finish w p name)
  then show ?case using sum_list_update_map [of w "workers p" rank Idle]
    by (simp add: work_left_def pool_steps)
qed

fun alive :: "worker \<Rightarrow> bool" where
  "alive (Dead v) = False" | "alive v = True"

lemma works_alive:
  "works env p q \<Longrightarrow> list_all alive (workers p) \<Longrightarrow> list_all alive (workers q)"
  by (induction rule: works.induct) (auto simp: pool_steps list_all_iff dest!: set_update_subset_insert [THEN subsetD])

lemma works_to_put: "works env p q \<Longrightarrow> set (to_put q) \<subseteq> set (to_put p)"
  by (induction rule: works.induct) (auto simp: pool_steps)

text \<open>While something is left to do, some thread can work, unless a worker has died.\<close>

lemma works_progress:
  assumes "pool_ok env files p" and "list_all alive (workers p)" and "0 < max_task env"
    and "\<forall>n \<in> set (to_put p). name_matches env n" and "\<not> joined p"
  shows "\<exists>q. works env p q"
proof (cases "\<exists>w < length (workers p). workers p ! w \<noteq> Idle")
  case True
  then obtain w where w: "w < length (workers p)" "workers p ! w \<noteq> Idle" by blast
  with assms(2) have "alive (workers p ! w)" by (simp add: list_all_length)
  with w(2) have "(\<exists>n. workers p ! w = Running n) \<or> (\<exists>n. workers p ! w = Checked n)"
    by (cases "workers p ! w") auto
  with w(1) show ?thesis by (blast intro: works.skip works.run works.finish)
next
  case False
  then have idle: "\<forall>v \<in> set (workers p). v = Idle" by (auto simp: in_set_conv_nth)
  then have busy: "sum_list (map is_busy (workers p)) = 0" by (auto simp: sum_list_eq_0_iff)
  show ?thesis
  proof (cases "task_queue p")
    case (Cons n q)
    from assms(1,3) have "0 < length (workers p)" by (simp add: pool_ok_def)
    with False Cons show ?thesis by (intro exI [where x = "get_name 0 p"] works.get) auto
  next
    case Nil
    with busy assms(1) have "unfinished_tasks p = 0" by (simp add: pool_ok_def)
    with assms(5) obtain n ns where "to_put p = n # ns" by (auto simp: joined_def neq_Nil_conv)
    with Nil assms(3,4) show ?thesis
      by (intro exI [where x = "put_name p"] works.put) (auto simp: queue_full_def)
  qed
qed

lemma works_to_join:
  assumes "pool_ok env files p" and "list_all alive (workers p)" and "0 < max_task env"
    and "\<forall>n \<in> set (to_put p). name_matches env n"
  shows "\<exists>q. (works env)\<^sup>*\<^sup>* p q \<and> joined q"
  using assms
proof (induction "work_left p" arbitrary: p rule: less_induct)
  case less
  show ?case
  proof (cases "joined p")
    case False
    from works_progress [OF less.prems False] obtain q where q: "works env p q" ..
    have "\<exists>r. (works env)\<^sup>*\<^sup>* q r \<and> joined r"
      using works_ok [OF q less.prems(1)] works_alive [OF q less.prems(2)] less.prems(3)
        works_to_put [OF q] less.prems(4) by (intro less.hyps [OF works_decreases [OF q]]) auto
    with q show ?thesis by (blast intro: converse_rtranclp_into_rtranclp)
  qed blast
qed

section \<open>Properties\<close>

text \<open>Once \<open>join\<close> returns, the recorded failures are the files that are not skipped and on which the
  tool fails, each as often as the database names it.\<close>

lemma failures_recorded:
  assumes "tidy_reaches env files p" and "joined p"
  shows "mset (failed_files p) = mset (filter (fails env) files)"
proof -
  from tidy_reaches_ok [OF assms(1)] assms(2)
  have "sum_list (map is_busy (workers p)) = 0" "task_queue p = []" "to_put p = []"
    and m: "mset (filter (fails env) files) = mset (failed_files p) + mset (filter (fails env) (to_put p))
          + mset (filter (fails env) (task_queue p)) + sum_list (map (owed env) (workers p))"
    by (auto simp: pool_ok_def joined_def)
  then show ?thesis by (simp add: idle_owes_nothing)
qed

lemma exit_joined:
  assumes "tidy_setup w args = ret (env, files)" and "tidy_ends w args (Exits n)"
  obtains p where "tidy_reaches env files p" "joined p"
    "n = tidy_status args p (tw_replacements w) (tw_merged w) (tw_call w) (tw_mkdtemp w)"
  using assms(2,1) by cases (auto simp: ret_def)

text \<open>The search for the database ends with no other exception than the exit at the root.\<close>

lemma climb_exits:
  assumes "climb_to_database isfile realpath path r = Some (Inl e)"
  shows "e = SystemExit 1"
proof -
  have "\<forall>e. y = Inl e \<longrightarrow> e = SystemExit 1" if "climb_to_database isfile realpath path r = Some y" for y
    by (rule climb_to_database.raw_induct [OF _ that]) (auto split: if_splits)
  with assms show ?thesis by blast
qed

lemma build_path_exits: "tidy_build_path w args = Some (Inl e) \<Longrightarrow> e = SystemExit 1"
  by (auto simp: tidy_build_path_def find_compilation_database_def ret_def dest: climb_exits split: option.splits)

text \<open>The program cannot start: there is no database, clang-tidy cannot be run, or fixes are wanted
  and the tool that applies them cannot be run.\<close>

definition start_fails :: "tidy_world \<Rightarrow> tidy_args \<Rightarrow> bool" where
  "start_fails w args \<longleftrightarrow>
     (case tidy_build_path w args of
        None \<Rightarrow> False
      | Some (Inl e) \<Rightarrow> True
      | Some (Inr b) \<Rightarrow> \<not> tw_check_call w (list_checks_invocation args b)
          \<or> (wants_fixes args \<and> \<not> tw_check_call w [ta_apply_binary args, ''--version'']))"

lemma setup_exits:
  assumes "tidy_setup w args = Some (Inl (SystemExit n))" shows "n = 1 \<and> start_fails w args"
proof (cases "tidy_build_path w args")
  case None
  with assms show ?thesis by (simp add: tidy_setup_def)
next
  case (Some r)
  show ?thesis
  proof (cases r)
    case (Inl e)
    with Some assms build_path_exits [of w args e] show ?thesis by (simp add: tidy_setup_def start_fails_def)
  next
    case (Inr b)
    with Some assms show ?thesis
      by (auto simp: tidy_setup_def start_fails_def check_clang_apply_replacements_binary_def ret_def
          split: if_splits option.splits)
  qed
qed

lemma setup_starts:
  assumes "tidy_setup w args = ret x" shows "\<not> start_fails w args"
proof (cases "tidy_build_path w args")
  case None
  with assms show ?thesis by (simp add: tidy_setup_def ret_def)
next
  case (Some r)
  with assms show ?thesis
    by (cases r) (auto simp: tidy_setup_def start_fails_def check_clang_apply_replacements_binary_def ret_def
        split: if_splits option.splits)
qed

text \<open>A run of one worker on one file on which the tool fails.\<close>

definition example_end :: "string \<Rightarrow> tidy_pool" where
  "example_end n = \<lparr>to_put = [], task_queue = [], unfinished_tasks = 0, workers = [Idle], failed_files = [n]\<rparr>"

lemma example_run:
  assumes "name_matches env n" and "max_task env = 1" and "fails env n"
  shows "tidy_reaches env [n] (example_end n)" "joined (example_end n)"
proof -
  let ?p0 = "pool_start env [n]"
  let ?p1 = "put_name ?p0" let ?p2 = "get_name 0 ?p1" let ?p3 = "run_name env 0 n ?p2"
  have 1: "tidy_step env ?p0 ?p1"
    by (rule tidy_step.works, rule works.put) (use assms in \<open>auto simp: pool_start_def queue_full_def\<close>)
  have 2: "tidy_step env ?p1 ?p2"
    by (rule tidy_step.works, rule works.get) (use assms in \<open>auto simp: pool_start_def pool_steps\<close>)
  have 3: "tidy_step env ?p2 ?p3"
    by (rule tidy_step.works, rule works.run) (use assms in \<open>auto simp: pool_start_def pool_steps fails_def\<close>)
  have 4: "tidy_step env ?p3 (task_done 0 ?p3)"
    by (rule tidy_step.works, rule works.finish) (use assms in \<open>auto simp: pool_start_def pool_steps\<close>)
  have "task_done 0 ?p3 = example_end n"
    using assms by (simp add: pool_start_def example_end_def pool_steps fails_def)
  with tidy_reaches.step [OF tidy_reaches.step [OF tidy_reaches.step [OF tidy_reaches.step
      [OF tidy_reaches.start 1] 2] 3] 4]
  show "tidy_reaches env [n] (example_end n)" by simp
  show "joined (example_end n)" by (simp add: joined_def example_end_def)
qed

text \<open>A program run on a database of one file, with the pattern that matches every name.\<close>

definition example_tidy_args :: tidy_args where
  "example_tidy_args = \<lparr>ta_binary = ''clang-tidy'', ta_apply_binary = ''clang-apply-replacements'', ta_checks = None,
     ta_config = None, ta_header_filter = None, ta_export_fixes = None, ta_jobs = 0, ta_files = [''.*''], ta_fix = False,
     ta_format = False, ta_style = ''file'', ta_build_path = Some ''/b'', ta_extra_arg = [], ta_extra_arg_before = [],
     ta_quiet = False\<rparr>"

definition example_tidy_world :: tidy_world where
  "example_tidy_world = \<lparr>tw_isfile = (\<lambda>f. False), tw_realpath = (\<lambda>f. f), tw_check_call = (\<lambda>c. True),
     tw_database = (\<lambda>f. Some [(''/a.cc'', ''/b'')]), tw_cpu_count = 1, tw_mkdtemp = ''/tmp/t'',
     tw_mkstemp = (\<lambda>f d. d @ ''/x.yaml''), tw_returncode = (\<lambda>c. 1),
     tw_replacements = [], tw_merged = Inr (), tw_call = (\<lambda>c. Inr ())\<rparr>"

definition example_tidy_env :: "re \<Rightarrow> tidy_env" where
  "example_tidy_env r =
     \<lparr>name_matches = (\<lambda>name. re_search (no_flags, r) name \<noteq> None), returncode = (\<lambda>f. 1), max_task = 1\<rparr>"

lemma example_patterns:
  "re_compile no_flags ''.*'' = Some (no_flags, Rep 0 None True AnyC)"
  "re_compile no_flags ''z'' = Some (no_flags, Cls False [One CHR ''z''])"
  "re_search (no_flags, Rep 0 None True AnyC) ''/a.cc'' \<noteq> None"
  "re_search (no_flags, Cls False [One CHR ''z'']) ''/a.cc'' = None"
  "\<not> skipped ''/a.cc''" "make_absolute ''/a.cc'' ''/b'' = ''/a.cc''" "join_with ''|'' [''.*''] = ''.*''" "join_with ''|'' [''z''] = ''z''"
  by code_simp+

lemma example_fails:
  "fails (example_tidy_env (Rep 0 None True AnyC)) ''/a.cc''" "name_matches (example_tidy_env (Rep 0 None True AnyC)) ''/a.cc''"
  "max_task (example_tidy_env (Rep 0 None True AnyC)) = 1"
  by (simp_all add: fails_def example_patterns example_tidy_env_def del: not_None_eq)

lemma example_setup:
  "tidy_setup example_tidy_world example_tidy_args = ret (example_tidy_env (Rep 0 None True AnyC), [''/a.cc''])"
  "tidy_setup example_tidy_world (example_tidy_args\<lparr>ta_files := [''z'']\<rparr>) = ret (example_tidy_env (Cls False [One CHR ''z'']), [''/a.cc''])"
  by (simp_all add: tidy_setup_def tidy_build_path_def example_tidy_world_def example_tidy_args_def example_tidy_env_def wants_fixes_def
      tidy_env_of_def file_name_re_def task_number_def database_files_def example_patterns)

text \<open>C9. The exit status of the program, whatever the order in which its threads work. When the
  program ends by exiting, the status is 1 exactly when it could not start (no database is found,
  clang-tidy cannot be run, or fixes are wanted and the tool that applies them cannot be run), when
  clang-tidy fails on a file of the database that is not skipped, when replacements are to be
  exported and a replacement file exists (merging them raises, \<open>yaml\<close> is not imported) or emptying the
  export file raises, or when fixes are to be applied and calling the tool raises (the exit status of
  that tool is ignored); and else it is 0.\<close>

theorem tidy_exit_status:
  assumes "tidy_ends w args (Exits n)"
  shows "n = (if start_fails w args
       \<or> (\<exists>env files. tidy_setup w args = ret (env, files)
          \<and> (list_ex (fails env) files
             \<or> (\<exists>f. ta_export_fixes args = Some f \<and> f \<noteq> [] \<and> (tw_replacements w \<noteq> [] \<or> tw_merged w \<noteq> Inr ()))
             \<or> (ta_fix args \<and> tw_call w (apply_fixes_invocation args (tw_mkdtemp w)) \<noteq> Inr ()))) then 1 else 0)"
  using assms
proof cases
  case (not_started e)
  then have "e = SystemExit n" by (cases e) (simp_all add: end_of_def)
  with setup_exits [of w args n] not_started show ?thesis by simp
next
  case (finished env files p)
  from failures_recorded [OF finished(3,4)] have "failed_files p = [] \<longleftrightarrow> \<not> list_ex (fails env) files"
    by (metis filter_empty_conv list_ex_iff mset_zero_iff)
  then have "n = (if list_ex (fails env) files
      \<or> (\<exists>f. ta_export_fixes args = Some f \<and> f \<noteq> [] \<and> (tw_replacements w \<noteq> [] \<or> tw_merged w \<noteq> Inr ()))
      \<or> (ta_fix args \<and> tw_call w (apply_fixes_invocation args (tw_mkdtemp w)) \<noteq> Inr ()) then 1 else 0)"
    unfolding finished(1)
    by (cases "tw_merged w"; cases "tw_call w (apply_fixes_invocation args (tw_mkdtemp w))")
      (auto simp: tidy_status_def merge_replacement_files_def split: option.split)
  with setup_starts [OF finished(2)] finished(2) show ?thesis by (simp add: ret_def)
qed

theorem tidy_exit_status_witness:
  "tidy_ends example_tidy_world example_tidy_args (Exits 1)
   \<and> (\<exists>env files. tidy_setup example_tidy_world example_tidy_args = ret (env, files) \<and> list_ex (fails env) files)"
proof -
  note run = example_run [OF example_fails(2,3,1)]
  obtain n where n: "tidy_ends example_tidy_world example_tidy_args (Exits n)"
    using tidy_ends.finished [OF example_setup(1) run] by blast
  with tidy_exit_status [OF n] example_setup(1) example_fails(1) show ?thesis by (auto simp: ret_def)
qed

text \<open>C8. The pool of threads refines a loop over the files: whatever the interleaving, every state it
  reaches is one that the loop reaches which takes the files of the database one at a time and
  records those that fail, and when \<open>join\<close> returns no file is left.\<close>

theorem pool_refines_loop:
  assumes "tidy_reaches env files p"
  shows "(check_step env)\<^sup>*\<^sup>* (mset files, {#}) (checked_so_far p) \<and> (joined p \<longrightarrow> fst (checked_so_far p) = {#})"
proof
  have "sum_list (replicate n {#}) = {#}" for n by (induction n) simp_all
  then have "checked_so_far (pool_start env files) = (mset files, {#})" by (simp add: checked_so_far_def pool_start_def)
  with pool.simulates_steps [OF tidy_reaches_steps [OF assms] pool_start_ok]
  show "(check_step env)\<^sup>*\<^sup>* (mset files, {#}) (checked_so_far p)" by simp
  have "sum_list (map is_busy ws) = 0 \<Longrightarrow> sum_list (map held ws) = {#}" for ws
    by (induction ws) (auto simp: busy_0)
  then show "joined p \<longrightarrow> fst (checked_so_far p) = {#}"
    using tidy_reaches_ok [OF assms] by (simp add: joined_def pool_ok_def checked_so_far_def)
qed

theorem pool_refines_loop_witness:
  "(check_step (example_tidy_env (Rep 0 None True AnyC)))\<^sup>*\<^sup>* ({#''/a.cc''#}, {#}) ({#}, {#''/a.cc''#})"
  using pool_refines_loop [OF example_run(1) [OF example_fails(2,3,1)]] by (simp add: checked_so_far_def example_end_def)

text \<open>C16. When every name matches the patterns and there is at least one worker, no reachable state
  is stuck as long as no worker has died: the threads can always go on until \<open>join\<close> returns.\<close>

theorem tidy_can_finish:
  assumes "tidy_reaches env files p" and "list_all alive (workers p)" and "0 < max_task env"
    and "list_all (name_matches env) files"
  shows "\<exists>q. (works env)\<^sup>*\<^sup>* p q \<and> joined q"
proof -
  have "set (to_put p) \<subseteq> set files"
    using assms(1) by (induction rule: tidy_reaches.induct)
      (auto simp: pool_start_def pool_steps dest!: works_to_put elim!: tidy_step.cases)
  with works_to_join [OF tidy_reaches_ok [OF assms(1)] assms(2,3)] assms(4)
  show ?thesis by (auto simp: list_all_iff)
qed

theorem tidy_can_finish_witness:
  "\<exists>q. (works (example_tidy_env (Rep 0 None True AnyC)))\<^sup>*\<^sup>* (pool_start (example_tidy_env (Rep 0 None True AnyC)) [''/a.cc'']) q \<and> joined q"
  by (rule tidy_can_finish [OF tidy_reaches.start])
    (simp_all add: pool_start_def example_tidy_env_def example_patterns del: not_None_eq)

text \<open>C17. A file of the database whose name does not match the patterns is never put into the queue
  and never passed over: the loop that fills the queue repeats it, \<open>join\<close> is never called, and the
  program does not exit by itself.\<close>

theorem tidy_unmatched_never_exits:
  assumes "tidy_setup w args = ret (env, files)" and "name \<in> set files" and "\<not> name_matches env name"
  shows "\<not> tidy_ends w args (Exits n)"
proof
  assume "tidy_ends w args (Exits n)"
  with assms(1) obtain p where p: "tidy_reaches env files p" "joined p" by (rule exit_joined)
  from tidy_reaches_ok [OF p(1)] have "filter (\<lambda>n. \<not> name_matches env n) files = filter (\<lambda>n. \<not> name_matches env n) (to_put p)"
    by (simp add: pool_ok_def)
  with assms(2,3) have "name \<in> set (to_put p)" by (metis (mono_tags, lifting) filter_set mem_Collect_eq set_filter)
  with p(2) show False by (auto simp: joined_def)
qed

theorem tidy_unmatched_never_exits_witness:
  "\<not> tidy_ends example_tidy_world (example_tidy_args\<lparr>ta_files := [''z'']\<rparr>) (Exits 0)"
  by (rule tidy_unmatched_never_exits [OF example_setup(2), of "''/a.cc''"])
    (simp_all add: example_tidy_env_def example_patterns)

lemma dirname_absolute:
  assumes "startswith p ''/''" and "\<not> contains p ''//''" and "p \<noteq> ''/''"
  shows "length (path_dirname p) < length p \<and> startswith (path_dirname p) ''/'' \<and> \<not> contains (path_dirname p) ''//''"
proof -
  obtain q where q: "p = CHR ''/'' # q" using assms(1) by (auto simp: startswith_iff)
  have "length (path_dirname p) < length p \<and> startswith (path_dirname p) ''/''"
    using path_split_cases [OF assms(2)] assms(3) q
    by (auto simp: path_dirname_def startswith_def neq_Nil_conv Cons_eq_append_conv)
  moreover have "\<not> contains (path_dirname p) ''//''"
    using dirname_prefix [of p] assms(2) contains_prefix [of "path_dirname p" _ "''//''"]
    by (metis prefixE)
  ultimately show ?thesis by blast
qed

text \<open>The names that the search tries, and the directories they lead to.\<close>

definition ups :: "nat \<Rightarrow> string" where
  "ups k = ''./'' @ concat (replicate k ''../'')"

lemma ups_Suc: "ups k @ ''../'' = ups (Suc k)"
proof -
  have "concat (replicate k x) @ x = concat (replicate (Suc k) x)" for x :: string
    by (induction k) simp_all
  then show ?thesis unfolding ups_def append_assoc by simp
qed

lemma climb_ups:
  "climb_to_database isfile realpath path (ups k) =
     (if isfile (path_join (ups k) path) then ret (realpath (ups k))
      else if realpath (ups k) = ''/'' then Some (Inl (SystemExit 1))
      else climb_to_database isfile realpath path (ups (Suc k)))"
  by (subst climb_to_database.simps) (simp only: ups_Suc ret_def)

lemma ups_reach_root:
  assumes "\<And>k. realpath (ups (Suc k)) = path_dirname (realpath (ups k))"
    and "startswith (realpath ''./'') ''/''" and "\<not> contains (realpath ''./'') ''//''"
  shows "\<exists>m. realpath (ups m) = ''/''"
proof (rule ccontr)
  assume "\<nexists>m. realpath (ups m) = ''/''"
  then have not_root: "realpath (ups k) \<noteq> ''/''" for k by blast
  have "length (realpath (ups k)) + k \<le> length (realpath ''./'') \<and> startswith (realpath (ups k)) ''/''
      \<and> \<not> contains (realpath (ups k)) ''//''" for k
  proof (induction k)
    case 0
    with assms(2,3) show ?case by (simp add: ups_def)
  next
    case (Suc k)
    with dirname_absolute [of "realpath (ups k)"] not_root [of k] show ?case by (auto simp: assms(1))
  qed
  from this [of "Suc (length (realpath ''./''))"] show False by simp
qed

lemma climb_exact:
  assumes "realpath (ups m) = ''/''" and "\<forall>k < m. realpath (ups k) \<noteq> ''/''" and "k \<le> m"
    and "\<forall>j < k. \<not> isfile (path_join (ups j) path)"
  shows "climb_to_database isfile realpath path (ups k) =
    (if \<exists>k \<le> m. isfile (path_join (ups k) path)
     then ret (realpath (ups (LEAST k. isfile (path_join (ups k) path)))) else Some (Inl (SystemExit 1)))"
  using assms(3,4)
proof (induction k rule: inc_induct)
  case base
  show ?case
  proof (cases "isfile (path_join (ups m) path)")
    case True
    with base have "(LEAST k. isfile (path_join (ups k) path)) = m" by (intro Least_equality) (auto simp: not_less [symmetric])
    with True show ?thesis by (subst climb_ups) auto
  next
    case False
    with base have "\<not> (\<exists>k \<le> m. isfile (path_join (ups k) path))" by (auto simp: le_less)
    with False show ?thesis by (subst climb_ups) (auto simp: assms(1))
  qed
next
  case (step k)
  show ?case
  proof (cases "isfile (path_join (ups k) path)")
    case True
    with step(4) have "(LEAST k. isfile (path_join (ups k) path)) = k" by (intro Least_equality) (auto simp: not_less [symmetric])
    moreover from True step(2) have "\<exists>k \<le> m. isfile (path_join (ups k) path)" by (intro exI [of _ k]) simp
    ultimately show ?thesis using True by (subst climb_ups) simp
  next
    case False
    with step have "\<forall>j < Suc k. \<not> isfile (path_join (ups j) path)" by (auto simp: less_Suc_eq)
    from step.IH [OF this] False step(2) assms(2) show ?thesis by (subst climb_ups) simp
  qed
qed

text \<open>C34. The search for the compilation database ends. Suppose that from the working directory,
  an absolute name without doubled slashes, every further step of two dots leads to the parent
  directory. Then the search gives the nearest directory that has the file, counted from the working
  directory upwards to the root, and exits with status 1 when none of them has it.\<close>

theorem find_compilation_database_terminates:
  assumes "\<And>k. realpath (ups (Suc k)) = path_dirname (realpath (ups k))"
    and "startswith (realpath ''./'') ''/''" and "\<not> contains (realpath ''./'') ''//''"
  shows "\<exists>m. realpath (ups m) = ''/'' \<and> (\<forall>k < m. realpath (ups k) \<noteq> ''/'')
    \<and> find_compilation_database isfile realpath path =
        (if \<exists>k \<le> m. isfile (path_join (ups k) path)
         then ret (realpath (ups (LEAST k. isfile (path_join (ups k) path)))) else Some (Inl (SystemExit 1)))"
proof -
  let ?root = "\<lambda>m. realpath (ups m) = ''/''"
  obtain m where m: "?root m" "\<forall>k < m. \<not> ?root k"
    using ups_reach_root [OF assms] exists_least_iff [of ?root] by blast
  have "ups 0 = ''./''" by (simp add: ups_def)
  with climb_exact [where realpath = realpath, OF m, of 0 isfile path] m show ?thesis
    unfolding find_compilation_database_def by (intro exI [of _ m]) (simp only: le0 not_less0 simp_thms)
qed

text \<open>From \<open>/a/b\<close>, with the file in \<open>/a\<close>.\<close>

theorem find_compilation_database_terminates_witness:
  "find_compilation_database (\<lambda>f. f = ''./../compile_commands.json'')
     (\<lambda>r. if length r = 2 then ''/a/b'' else if length r = 5 then ''/a'' else ''/'') ''compile_commands.json'' = ret ''/a''"
proof -
  let ?real = "\<lambda>r :: string. if length r = 2 then ''/a/b'' else if length r = 5 then ''/a'' else ''/''"
  let ?isfile = "\<lambda>f. f = ''./../compile_commands.json''"
  have len: "length (ups k) = 3 * k + 2" for k by (simp add: ups_def length_concat sum_list_replicate)
  have d: "path_dirname ''/a/b'' = ''/a''" "path_dirname ''/a'' = ''/''" "path_dirname ''/'' = ''/''" by code_simp+
  have parent: "?real (ups (Suc k)) = path_dirname (?real (ups k))" for k
    by (cases k) (simp_all add: len d)
  have start: "startswith (?real ''./'') ''/''" "\<not> contains (?real ''./'') ''//''" by code_simp+
  obtain m where
    m: "?real (ups m) = ''/''" "find_compilation_database ?isfile ?real ''compile_commands.json'' =
        (if \<exists>k \<le> m. ?isfile (path_join (ups k) ''compile_commands.json'')
         then ret (?real (ups (LEAST k. ?isfile (path_join (ups k) ''compile_commands.json'')))) else Some (Inl (SystemExit 1)))"
    using find_compilation_database_terminates [of ?real, OF parent start] by blast
  have f: "?isfile (path_join (ups 1) ''compile_commands.json'')" "\<not> ?isfile (path_join (ups 0) ''compile_commands.json'')"
    by code_simp+
  from m(1) have "1 \<le> m" by (cases m) (simp_all add: len)
  moreover have "(LEAST k. ?isfile (path_join (ups k) ''compile_commands.json'')) = 1"
    using f by (intro Least_equality) (auto simp: not_less_eq_eq [symmetric] le_less_Suc_eq intro: Suc_leI gr0I)
  ultimately show ?thesis using m(2) f(1) by (auto simp: len)
qed

end
