(* ===== verification/ClangFormat.thy ===== *)
theory ClangFormat
  imports Paths "HOL-Library.Sublist"
begin

text \<open>
  The script \<open>run_clang_format.py\<close>: the source files below some directories that no glob excludes,
  the comparison of each with the output of clang-format, and the exit status. The directory tree,
  the contents of files, the formatter and \<open>difflib.unified_diff\<close> are parameters (record
  \<open>format_env\<close>); \<open>fnmatch\<close> is modelled as the library documents it. The record \<open>format_args\<close> holds
  what \<open>argparse\<close> returns.
\<close>

section \<open>fnmatch\<close>

text \<open>Whether a character belongs to a sequence of characters and ranges.\<close>

fun in_seq :: "string \<Rightarrow> char \<Rightarrow> bool" where
  "in_seq [] ch = False"
| "in_seq (a # rest) ch =
     (case rest of
        m # b # rest' \<Rightarrow>
          if m = CHR ''-'' then in_range (of_char a) (of_char b) ch \<or> in_seq rest' ch
          else ch = a \<or> in_seq rest ch
      | _ \<Rightarrow> ch = a \<or> in_seq rest ch)"

text \<open>The text of a sequence and what follows its closing bracket; a first bracket belongs to it.\<close>

definition seq_end :: "string \<Rightarrow> (string \<times> string) option" where
  "seq_end p =
     (let k = (if startswith p ''!'' then 1 else 0);
          k = (if startswith (drop k p) '']'' then k + 1 else k);
          body = takeWhile (\<lambda>c. c \<noteq> CHR '']'') (drop k p); n = k + length body
      in if n < length p then Some (take n p, drop (n + 1) p) else None)"

lemma seq_end_shorter: "seq_end p = Some (stuff, rest) \<Longrightarrow> length rest < length p"
  by (auto simp: seq_end_def Let_def split: if_splits)

definition seq_matches :: "string \<Rightarrow> char \<Rightarrow> bool" where
  "seq_matches stuff ch =
     (if startswith stuff ''!'' then \<not> in_seq (drop 1 stuff) ch else in_seq stuff ch)"

function fnmatch :: "string \<Rightarrow> string \<Rightarrow> bool" where
  "fnmatch name [] \<longleftrightarrow> name = []"
| "fnmatch name (p # ps) \<longleftrightarrow>
     (if p = CHR ''*'' then fnmatch name ps \<or> (if name = [] then False else fnmatch (tl name) (p # ps))
      else if name = [] then False
      else if p = CHR ''?'' then fnmatch (tl name) ps
      else
        (case (if p = CHR ''['' then seq_end ps else None) of
           Some (stuff, rest) \<Rightarrow> if seq_matches stuff (hd name) then fnmatch (tl name) rest else False
         | None \<Rightarrow> if hd name = p then fnmatch (tl name) ps else False))"
  by pat_completeness auto

termination fnmatch
  by (relation "measure (\<lambda>(name, p). length name + length p)")
    (auto simp: neq_Nil_conv split: if_splits dest!: seq_end_shorter)

declare fnmatch.simps [simp del]

section \<open>The script\<close>

record format_env =
  fw_walk :: "string \<Rightarrow> (string \<times> string list) list"             \<comment> \<open>\<open>os.walk\<close>: directories and their files\<close>
  fw_open :: "string \<Rightarrow> unit result"
  fw_read :: "string \<Rightarrow> string result"                          \<comment> \<open>an opened file, decoded\<close>
  clang_format :: "string \<Rightarrow> string \<Rightarrow> string result"             \<comment> \<open>the output for a file, decoded\<close>
  clang_format_in_place :: "string \<Rightarrow> string list \<Rightarrow> unit result"
  unified_diff :: "string list \<Rightarrow> string list \<Rightarrow> string \<Rightarrow> string \<Rightarrow> string list"

record format_args =
  clang_format_binary :: string
  exclude_globs_file :: string
  source_dirs :: "string option"
  fix_files :: bool
  quiet_run :: bool

record format_output =
  fo_out :: string
  fo_err :: string

definition say :: "string \<Rightarrow> format_output \<Rightarrow> format_output" where
  "say t o1 = o1\<lparr>fo_out := fo_out o1 @ t @ [CHR 0x0A]\<rparr>"

definition is_source_name :: "string \<Rightarrow> bool" where
  "is_source_name x \<longleftrightarrow> endswith x ''.h'' \<or> endswith x ''.cpp''"

definition formatted_filenames :: "format_env \<Rightarrow> string list \<Rightarrow> string \<Rightarrow> string list" where
  "formatted_filenames env exclude_globs source_dir =
     concat (map (\<lambda>(directory, filenames).
       filter (\<lambda>filename. \<not> list_ex (fnmatch filename) exclude_globs)
         (filter is_source_name (map (path_join directory) filenames))) (fw_walk env source_dir))"

text \<open>One file: whether it differs from its formatted text, and what is written about it.\<close>

definition check_file :: "format_env \<Rightarrow> format_args \<Rightarrow> string \<Rightarrow> format_output \<Rightarrow> (bool \<times> format_output) result" where
  "check_file env arguments filename o1 =
     (let o1 = (if quiet_run arguments then o1 else say (''Checking '' @ filename) o1) in
      bind_result (fw_open env filename) (\<lambda>reader.
      bind_result (clang_format env (clang_format_binary arguments) filename) (\<lambda>formatted.
      bind_result (fw_read env filename) (\<lambda>original.
        let diff = unified_diff env (py_splitlines original) (py_splitlines formatted)
                     filename (filename @ '' (after clang format)'')
        in if diff = [] then Inr (False, o1)
           else
             (let o1 = say (filename @ '' had clang-format style issues'') o1
              in Inr (True, o1\<lparr>fo_err := fo_err o1 @ concat diff\<rparr>))))))"

fun check_files :: "format_env \<Rightarrow> format_args \<Rightarrow> string list \<Rightarrow> bool \<Rightarrow> format_output \<Rightarrow> (bool \<times> format_output) result" where
  "check_files env arguments [] found o1 = Inr (found, o1)"
| "check_files env arguments (filename # filenames) found o1 =
     bind_result (check_file env arguments filename o1) (\<lambda>(differs, o1).
       check_files env arguments filenames (found \<or> differs) o1)"

definition check :: "format_env \<Rightarrow> string list \<Rightarrow> format_args \<Rightarrow> string \<Rightarrow> format_output \<Rightarrow> (bool \<times> format_output) result" where
  "check env exclude_globs arguments source_dir o1 =
     (let filenames = formatted_filenames env exclude_globs source_dir in
      if fix_files arguments then
        (let o1 = (if quiet_run arguments then o1
                   else say (join_with [CHR 0x0A] (map (\<lambda>x. ''Formatting '' @ x) filenames)) o1)
         in bind_result (clang_format_in_place env (clang_format_binary arguments) filenames) (\<lambda>u. Inr (False, o1)))
      else check_files env arguments filenames False o1)"

fun check_dirs :: "format_env \<Rightarrow> string list \<Rightarrow> format_args \<Rightarrow> string list \<Rightarrow> bool \<Rightarrow> format_output \<Rightarrow> (bool \<times> format_output) result" where
  "check_dirs env exclude_globs arguments [] had_err o1 = Inr (had_err, o1)"
| "check_dirs env exclude_globs arguments (source_dir # dirs) had_err o1 =
     (if source_dir = [] then check_dirs env exclude_globs arguments dirs had_err o1
      else bind_result (check env exclude_globs arguments source_dir o1) (\<lambda>(had_err, o1).
             check_dirs env exclude_globs arguments dirs had_err o1))"

text \<open>The exit status.\<close>

definition format_main :: "format_env \<Rightarrow> format_args \<Rightarrow> (int \<times> format_output) result" where
  "format_main env args =
     bind_result (fw_open env (exclude_globs_file args)) (\<lambda>u.
     bind_result (fw_read env (exclude_globs_file args)) (\<lambda>t.
       let exclude_globs = map py_strip (text_lines t) in
       case source_dirs args of
         None \<Rightarrow> Inl AttributeError
       | Some dirs \<Rightarrow>
           bind_result (check_dirs env exclude_globs args (split_on (CHR '','') dirs) False
                          \<lparr>fo_out = [], fo_err = []\<rparr>) (\<lambda>(had_err, o1).
             Inr (if had_err then 1 else 0, o1))))"

section \<open>Lemmas\<close>

lemma concat_splitlines_from: "concat (splitlines_from s w) = w @ s"
  by (induction s w rule: splitlines_from.induct) auto

lemma py_splitlines_inj: "py_splitlines s = py_splitlines t \<longleftrightarrow> s = t"
  by (metis append_Nil concat_splitlines_from py_splitlines_def)

text \<open>A file whose text and formatted text differ.\<close>

definition badly_formatted :: "format_env \<Rightarrow> format_args \<Rightarrow> string \<Rightarrow> bool" where
  "badly_formatted env arguments f \<longleftrightarrow> fw_read env f \<noteq> clang_format env (clang_format_binary arguments) f"

lemma check_file_exact:
  assumes "\<And>a b f t. unified_diff env a b f t = [] \<longleftrightarrow> a = b"
    and "check_file env arguments f o1 = Inr (e, o2)"
  shows "e \<longleftrightarrow> badly_formatted env arguments f"
  using assms(2)
  by (auto simp: check_file_def Let_def bind_result_eq_Inr assms(1) py_splitlines_inj badly_formatted_def
      split: if_splits)

lemma check_files_exact:
  assumes "\<And>a b f t. unified_diff env a b f t = [] \<longleftrightarrow> a = b"
    and "check_files env arguments fs found o1 = Inr (e, o2)"
  shows "e \<longleftrightarrow> found \<or> (\<exists>f \<in> set fs. badly_formatted env arguments f)"
  using assms(2)
proof (induction fs arbitrary: found o1)
  case (Cons f fs)
  then obtain d o3 where d: "check_file env arguments f o1 = Inr (d, o3)"
    and rest: "check_files env arguments fs (found \<or> d) o3 = Inr (e, o2)"
    by (auto simp: bind_result_eq_Inr)
  from Cons.IH [OF rest] check_file_exact [OF assms(1) d] show ?case by auto
qed simp

lemma check_dirs_append:
  "check_dirs env globs arguments (ds @ ds') h o1 =
     bind_result (check_dirs env globs arguments ds h o1)
       (\<lambda>(h, o1). check_dirs env globs arguments ds' h o1)"
  by (induction ds arbitrary: h o1) (auto simp: bind_result_def split: sum.splits)

lemma check_dirs_nonempty:
  "check_dirs env globs arguments ds h o1 = check_dirs env globs arguments (filter (\<lambda>d. d \<noteq> []) ds) h o1"
  by (induction ds arbitrary: h o1) (auto simp: bind_result_def split: sum.splits)

text \<open>Nothing that has been written is taken back.\<close>

definition extends :: "format_output \<Rightarrow> format_output \<Rightarrow> bool" where
  "extends o1 o2 \<longleftrightarrow> prefix (fo_out o1) (fo_out o2) \<and> prefix (fo_err o1) (fo_err o2)"

lemma extends_refl: "extends o1 o1"
  by (simp add: extends_def)

lemma extends_trans: "extends o1 o2 \<Longrightarrow> extends o2 o3 \<Longrightarrow> extends o1 o3"
  unfolding extends_def using prefix_order.trans by blast

lemma extends_say: "extends o1 (say t o1)"
  by (simp add: extends_def say_def)

lemma check_file_extends: "check_file env arguments f o1 = Inr (e, o2) \<Longrightarrow> extends o1 o2"
  by (auto simp: check_file_def Let_def bind_result_eq_Inr extends_def say_def split: if_splits)

lemma check_files_extends: "check_files env arguments fs found o1 = Inr (e, o2) \<Longrightarrow> extends o1 o2"
proof (induction fs arbitrary: found o1)
  case (Cons f fs)
  then show ?case
    by (auto simp: bind_result_eq_Inr dest!: check_file_extends intro: extends_trans)
qed (simp add: extends_refl)

lemma check_extends: "check env globs arguments d o1 = Inr (e, o2) \<Longrightarrow> extends o1 o2"
  by (auto simp: check_def Let_def bind_result_eq_Inr split: if_splits
      intro: extends_refl extends_say dest: check_files_extends)

section \<open>Properties\<close>

text \<open>The example: a directory with two sources and an excluded one, and a directory without any.\<close>

definition example_format_env :: format_env where
  "example_format_env =
     \<lparr>fw_walk = (\<lambda>d. if d = ''src'' then [(''src'', [''a.cpp'', ''b.h'', ''gen_c.h'', ''d.txt''])] else []),
      fw_open = (\<lambda>f. Inr ()),
      fw_read = (\<lambda>f. if f = ''globs'' then Inr ''*gen_*'' else Inr ''int  x;''),
      clang_format = (\<lambda>b f. Inr (if f = ''src/b.h'' then ''int  x;'' else ''int x;'')),
      clang_format_in_place = (\<lambda>b fs. Inr ()),
      unified_diff = (\<lambda>a b f t. if a = b then [] else [''-'' @ concat a, ''+'' @ concat b])\<rparr>"

definition example_format_args :: format_args where
  "example_format_args = \<lparr>clang_format_binary = ''clang-format'', exclude_globs_file = ''globs'',
     source_dirs = Some ''src,lib'', fix_files = False, quiet_run = True\<rparr>"

lemma example_filenames:
  "formatted_filenames example_format_env [''*gen_*''] ''src'' = [''src/a.cpp'', ''src/b.h'']"
  by code_simp

lemma example_check:
  "\<exists>o2. check example_format_env [''*gen_*''] example_format_args ''src'' o1 = Inr (True, o2)"
  by (simp add: check_def example_filenames)
    (simp add: check_file_def example_format_env_def example_format_args_def Let_def py_splitlines_inj)

text \<open>C19. Comparing a directory succeeds with a finding exactly when some source file below it that
  no glob excludes differs from what clang-format makes of it, provided that a diff is empty only
  for equal texts.\<close>

theorem clang_format_check_exact:
  assumes "\<And>a b f t. unified_diff env a b f t = [] \<longleftrightarrow> a = b"
    and "\<not> fix_files arguments" and "check env globs arguments source_dir o1 = Inr (e, o2)"
  shows "e \<longleftrightarrow> (\<exists>directory names name. (directory, names) \<in> set (fw_walk env source_dir) \<and> name \<in> set names
    \<and> is_source_name (path_join directory name) \<and> \<not> list_ex (fnmatch (path_join directory name)) globs
    \<and> badly_formatted env arguments (path_join directory name))"
proof -
  from assms(2,3) have "check_files env arguments (formatted_filenames env globs source_dir) False o1 = Inr (e, o2)"
    by (simp add: check_def)
  from check_files_exact [OF assms(1) this] show ?thesis
    by (fastforce simp: formatted_filenames_def)
qed

theorem clang_format_check_exact_witness:
  "\<exists>directory names name. (directory, names) \<in> set (fw_walk example_format_env ''src'') \<and> name \<in> set names
    \<and> is_source_name (path_join directory name) \<and> \<not> list_ex (fnmatch (path_join directory name)) [''*gen_*'']
    \<and> badly_formatted example_format_env example_format_args (path_join directory name)"
proof -
  have d: "unified_diff example_format_env a b f t = [] \<longleftrightarrow> a = b" for a b f t
    by (simp add: example_format_env_def)
  have x: "\<not> fix_files example_format_args" by (simp add: example_format_args_def)
  obtain o1 where "check example_format_env [''*gen_*''] example_format_args ''src'' \<lparr>fo_out = [], fo_err = []\<rparr> = Inr (True, o1)"
    using example_check by blast
  from clang_format_check_exact [OF d x this] show ?thesis by blast
qed

text \<open>C35. When the script ends without an exception, its exit status reflects the last non-empty
  entry of \<open>--source_dirs\<close> alone: it is 1 exactly when the check of that directory gave true. What
  the checks of the directories before it gave is overwritten and does not fail the run, although
  what they wrote stays in the output. Without a non-empty entry the status is 0.\<close>

theorem clang_format_last_dir_decides:
  assumes "format_main env args = Inr (status, o2)" and "source_dirs args = Some dirs"
    and "entries = filter (\<lambda>d. d \<noteq> []) (split_on (CHR '','') dirs)"
  shows "if entries = [] then status = 0
    else \<exists>globs o1 earlier e. fw_read env (exclude_globs_file args) = Inr globs
      \<and> check_dirs env (map py_strip (text_lines globs)) args (butlast entries) False
          \<lparr>fo_out = [], fo_err = []\<rparr> = Inr (earlier, o1)
      \<and> check env (map py_strip (text_lines globs)) args (last entries) o1 = Inr (e, o2)
      \<and> status = (if e then 1 else 0) \<and> extends o1 o2"
proof -
  from assms(1,2) obtain t e where t: "fw_read env (exclude_globs_file args) = Inr t"
    and c: "check_dirs env (map py_strip (text_lines t)) args entries False \<lparr>fo_out = [], fo_err = []\<rparr> = Inr (e, o2)"
      "status = (if e then 1 else 0)"
    using check_dirs_nonempty [of env _ args "split_on (CHR '','') dirs"]
    by (auto simp: format_main_def Let_def assms(3) bind_result_eq_Inr)
  show ?thesis
  proof (cases entries rule: rev_cases)
    case Nil
    with c show ?thesis by simp
  next
    case (snoc ds d)
    from snoc have "d \<in> set entries" by simp
    with assms(3) have d: "d \<noteq> []" by simp
    from c(1) obtain h o1 where "check_dirs env (map py_strip (text_lines t)) args ds False \<lparr>fo_out = [], fo_err = []\<rparr> = Inr (h, o1)"
      "check env (map py_strip (text_lines t)) args d o1 = Inr (e, o2)"
      using d by (auto simp: snoc check_dirs_append bind_result_eq_Inr)
    with t c(2) check_extends show ?thesis by (auto simp: snoc)
  qed
qed

text \<open>The first directory has a badly formatted file, the last one has none, and the status is 0.\<close>

theorem clang_format_last_dir_decides_witness:
  "\<exists>o2. format_main example_format_env example_format_args = Inr (0, o2)
     \<and> (\<exists>o1. check_dirs example_format_env [''*gen_*''] example_format_args [''src''] False
             \<lparr>fo_out = [], fo_err = []\<rparr> = Inr (True, o1)
          \<and> check example_format_env [''*gen_*''] example_format_args ''lib'' o1 = Inr (False, o2)
          \<and> extends o1 o2)"
proof -
  let ?o = "\<lparr>fo_out = [], fo_err = []\<rparr>"
  obtain o2 where o2: "check example_format_env [''*gen_*''] example_format_args ''src'' ?o = Inr (True, o2)"
    using example_check by blast
  have lib: "check example_format_env [''*gen_*''] example_format_args ''lib'' o2 = Inr (False, o2)"
    by (simp add: check_def formatted_filenames_def example_format_env_def example_format_args_def)
  have entries: "[''src'', ''lib''] = filter (\<lambda>d. d \<noteq> []) (split_on (CHR '','') ''src,lib'')" by code_simp
  have split: "split_on (CHR '','') ''src,lib'' = [''src'', ''lib'']" by code_simp
  have globs: "fw_read example_format_env (exclude_globs_file example_format_args) = Inr ''*gen_*''"
    "fw_open example_format_env (exclude_globs_file example_format_args) = Inr ()"
    "map py_strip (text_lines ''*gen_*'') = [''*gen_*'']"
    by (simp_all add: example_format_env_def example_format_args_def) code_simp
  have dirs: "source_dirs example_format_args = Some ''src,lib''" by (simp add: example_format_args_def)
  have run: "format_main example_format_env example_format_args = Inr (0, o2)"
    by (simp add: format_main_def globs dirs split o2 lib)
  from clang_format_last_dir_decides [OF run dirs entries] globs obtain o1 h e where
    "check_dirs example_format_env [''*gen_*''] example_format_args [''src''] False ?o = Inr (h, o1)"
    "check example_format_env [''*gen_*''] example_format_args ''lib'' o1 = Inr (e, o2)"
    "(0::int) = (if e then 1 else 0)" "extends o1 o2" by auto
  with run o2 show ?thesis by auto
qed

end
