(* ===== verification/Spec2Isabelle.thy ===== *)
theory Spec2Isabelle
  imports FunctionState NestingFacts TextInside FileOutput Arguments ClangTidy ClangFormat
begin

text \<open>
  A verification library for the Python tools under \<open>build_support/\<close>, which check the style and the
  quality of the repository's C++ sources: \<open>cpplint.py\<close> (a style checker), \<open>run_clang_tidy.py\<close> with
  \<open>run_clang_tidy_extra.py\<close> (clang-tidy on all files of a compilation database, by a pool of threads)
  and \<open>run_clang_format.py\<close> (the formatter on all sources below some directories).
\<close>

section \<open>How the code is modelled\<close>

text \<open>
  Definitions carry the names of the Python functions, without leading underscores. A \<open>string\<close> holds
  code points below 256; patterns are written with a backquote for the backslash, which \<open>rx\<close> replaces.
  Integers are \<open>int\<close>, line numbers and positions \<open>nat\<close> where the code cannot make them negative, and
  Python's indexing and slicing with negative positions is \<open>py_get\<close> and \<open>py_slice\<close> (\<open>Prelude\<close>).

  What the code can raise is a value: \<open>'a result\<close> is an exception or a result. What may not return is an
  option, with \<open>None\<close> for a run that does not end; \<open>'a outcome\<close> has both. A check that only calls \<open>error\<close>
  is a function to the list of its reports, in order, which \<open>emit\<close> passes to \<open>Error\<close> (reports of a check
  that raises half-way are not kept: the exception ends the run). A check that also parses suppressions
  takes and returns the lint state. The objects the code mutates are records that the calls pass on:
  \<open>lint\<close> (the module state: \<open>_CppLintState\<close> and the global variables, with the two output streams),
  \<open>include_state\<close>, \<open>function_state\<close>, \<open>nesting\<close>, and their product \<open>line_state\<close>. The stack of blocks has
  its top at the head of the list, and every block has an identity, so that a deep copy is a copy with
  new identities. Sets that the code iterates over are lists without duplicates.

  Parameters stand for what is not in the sources: the file system (the record \<open>fsys\<close>: which paths
  exist and the working directory), the contents of files and directories (the record \<open>world\<close>), the
  formatter and \<open>difflib\<close>, clang-tidy, its database and the other tools (the record \<open>tidy_world\<close>), and the
  results of \<open>argparse\<close> (the records of arguments). \<open>os.path\<close>, \<open>re\<close>, \<open>getopt\<close>, \<open>fnmatch\<close>, \<open>queue.Queue\<close> and the
  methods of strings are modelled as far as the sources use them.
\<close>

section \<open>The theories\<close>

text \<open>
  Shared: \<open>Prelude\<close> (exceptions, lists and strings, dictionaries, the contract \<open>simulation\<close> of a refinement
  between step relations); \<open>PyRegex\<close> (parser and backtracking matcher for patterns, a reference
  semantics that lists all matches in order of preference, the wrappers \<open>Match\<close>, \<open>Search\<close>, \<open>ReplaceAll\<close> and
  their cache); \<open>RegexFacts\<close> (what a match of a pattern means for the subject); \<open>Tables\<close> (the constants).

  The components of \<open>cpplint.py\<close>, in the order of their calls:
  \<open>LintState\<close> is \<open>_CppLintState\<close> with filters, counts and output formats, the NOLINT suppressions,
  \<open>_ShouldPrintError\<close> and \<open>Error\<close>; its locale \<open>error_sink\<close> is the contract of the callback \<open>error\<close>.
  \<open>IncludeState\<close> and \<open>FunctionState\<close> are the classes of these names.
  \<open>Cleanse\<close> is the cleansing of raw strings, comments and string literals, and \<open>CleansedLines\<close>.
  \<open>Expressions\<close> is the matching of brackets forwards and backwards; the locale \<open>bracket_scan\<close> states the
  contract of both scans once and is interpreted on either.
  \<open>Paths\<close> is \<open>FileInfo\<close>, the options for extensions, and the names of header guards.
  \<open>LineChecks\<close>, \<open>HeaderGuard\<close>, \<open>Includes\<close>, \<open>Spacing\<close>, \<open>Constructs\<close>, \<open>Style\<close> and \<open>Language\<close> are the checks.
  \<open>Nesting\<close> is \<open>NestingState\<close> with the blocks and the conditionals.
  \<open>FileChecks\<close> composes the checks to \<open>ProcessLine\<close> and \<open>ProcessFileData\<close>; \<open>Driver\<close> adds the configuration
  files and \<open>ProcessFile\<close>; \<open>CommandLine\<close> adds \<open>ParseArguments\<close> and \<open>main\<close>.

  \<open>NestingFacts\<close>, \<open>TextInside\<close>, \<open>FileFacts\<close>, \<open>FileOutput\<close>, \<open>MainFacts\<close>, \<open>ConfigFacts\<close> and \<open>Arguments\<close> hold
  lemmas about components that other theories define. \<open>ClangTidy\<close> and \<open>ClangFormat\<close> are the other scripts.
\<close>

section \<open>What the lemmas show\<close>

text \<open>
  Matching. The matcher gives the first match of the reference semantics, a match is a segment of its
  subject, and the cache of compiled patterns cannot be observed.

  Cleansing. The lines keep their number, exactly the lines of the multi-line comments are replaced (a
  one-pass reference says which), string literals are collapsed as a reference function does, and the
  bodies of raw strings become empty literals.

  Brackets. From an opening bracket whose text balances, on one line or over several and with any
  other characters in between, the scan forwards gives the closing one, and the scan backwards undoes
  it; every result lies in the file; \<open>GetTextInside\<close> extracts exactly the text with matching brackets
  that a grammar describes.

  Blocks. \<open>Update\<close> keeps an invariant of the stack over all lines of a file, so that no report names a
  line outside of it; the loop over braces refines a machine on the flags of the open blocks; a
  balanced line leaves the stack as it was; the branches of a conditional are tracked separately; and
  the search for a template argument list ends on every input.

  One file. All checks of a file return when no chain of \<open>.svn\<close> directories reaches the root
  (\<open>returning\<close>). All they do is to print and to suppress (\<open>only_reports\<close>, an interpretation of the locale
  \<open>step_contract\<close>), and what they print depends on the settings alone (\<open>agree\<close> in \<open>FileOutput\<close>, a relation
  between two runs that is composed along every call), so that no file sees what was reported for or
  suppressed in the files before it, and no report is printed for a line that a NOLINT silences.

  Whole runs. A run ends, its exit status says whether an error has been counted, the counts by
  category add up, and every file leaves the filters and the other settings of the command line that
  no configuration file can change (line length, root, extensions and headers are those that the
  configuration files leave). Arguments that are written out are read back, and nested configuration files come to what \<open>ConfigFacts\<close> says.

  clang-tidy. The pool of threads is a step relation on the shared state; waiting, interleaving and the
  death of a worker are steps. The pool refines a loop over the files (an interpretation of
  \<open>simulation\<close>); the exit status is exact for every interleaving, the exits before the pool starts
  included; the search for the database gives the nearest directory that has it; no state is stuck while all names match
  and no worker has died; and with a name that does not match the program never exits.

  clang-format. The check of a directory finds an issue exactly when a selected file differs from its
  formatted text, and the last directory alone decides the exit status.

  Where the code does something else than its comments say, a theorem shows what it does: filters of
  one configuration file count backwards, an outer file decides the line length, only the last source
  directory decides the status of \<open>run_clang_format.py\<close>, and an unclosed angle bracket among the
  parameters of a constructor raises an exception. The theorems on raw strings, the order of includes
  and the length of functions show smaller differences.
\<close>

section \<open>Bounds, fuel and termination\<close>

text \<open>
  Loops are structural or \<open>function\<close> with a measure; two loops whose end depends on the file system are
  \<open>partial_function (option)\<close> (\<open>svn_top\<close> in \<open>Paths\<close>, \<open>climb_to_database\<close> in \<open>ClangTidy\<close>), and it is proved when
  they return. Three functions take a bound. The parser of patterns is started with three times the
  length of the text and three more, as each of its three functions consumes a character or passes to
  the next; too small a bound would give \<open>None\<close>, as a malformed pattern does. A repetition
  makes at most one round more than there are characters left, since all but the last round of the
  optional ones consume text. The logarithm of \<open>FunctionState\<close> is a search bounded by the number of lines.
\<close>

section \<open>What is not modelled\<close>

text \<open>
  The C++ server under \<open>src/\<close> (reactor, HTTP, logging and timers): the development is about the Python
  code. Of the Python code: the code points above 255, which only matter to \<open>CheckForBadCharacters\<close> (modelled
  on code points) and to wide characters in \<open>GetLineWidth\<close> (every character of the model has width one);
  the features of \<open>re\<close> that no pattern of the sources uses, so that a pattern from a configuration file or
  from the command line which uses them counts as malformed; the progress text of \<open>run_clang_tidy.py\<close>,
  its function \<open>update_progress\<close>, whose calls are commented out, and its temporary directory, whose
  creation and removal cannot fail in the model and whose replacement files are arbitrary; clang-tidy
  as other than a function of its command line; and the set-up of the streams' encodings in \<open>main\<close>.
\<close>

end
